(* ===== verification/Prelude.thy ===== *)
theory Prelude
  imports Main "HOL-Library.Word"
begin

text \<open>
  Shared vocabulary of the development: the widths of the C integers, and actions, which are
  what a C function of the extension becomes. An action takes a state and returns either an
  abort (a raised Ruby exception, an undefined behaviour) or a result, with the state as the
  code has left it: an exception of Ruby does not roll anything back.

  The collection \<open>keeps_intros\<close> holds the rules that carry an invariant through an action;
  the components extend it with one rule per operation; \<open>aborts_intros\<close> does the same for the
  ways an action may end early. The collection \<open>act_simps\<close>
  holds the equations that run an action on a state.
\<close>

named_theorems keeps_intros \<open>introduction rules for invariants of actions\<close>
named_theorems aborts_intros \<open>introduction rules for the ways an action may abort\<close>
named_theorems act_simps \<open>equations that run actions\<close>

section \<open>C integers\<close>

type_synonym cint = "32 word"
type_synonym i64 = "64 word"

section \<open>Actions\<close>

type_synonym ('x, 's, 'a) act = "'s \<Rightarrow> ('x + 'a) \<times> 's"

definition ret :: "'a \<Rightarrow> ('x, 's, 'a) act" where
  "ret a = (\<lambda>s. (Inr a, s))"

definition fail :: "'x \<Rightarrow> ('x, 's, 'a) act" where
  "fail x = (\<lambda>s. (Inl x, s))"

definition bindM :: "('x, 's, 'a) act \<Rightarrow> ('a \<Rightarrow> ('x, 's, 'b) act) \<Rightarrow> ('x, 's, 'b) act" where
  "bindM m f = (\<lambda>s. case m s of (Inl x, t) \<Rightarrow> (Inl x, t) | (Inr a, t) \<Rightarrow> f a t)"

definition getM :: "('s \<Rightarrow> 'a) \<Rightarrow> ('x, 's, 'a) act" where
  "getM f = (\<lambda>s. (Inr (f s), s))"

definition modM :: "('s \<Rightarrow> 's) \<Rightarrow> ('x, 's, unit) act" where
  "modM f = (\<lambda>s. (Inr (), f s))"

definition require :: "bool \<Rightarrow> 'x \<Rightarrow> ('x, 's, unit) act" where
  "require b x = (if b then ret () else fail x)"

definition liftE :: "'x + 'a \<Rightarrow> ('x, 's, 'a) act" where
  "liftE r = (\<lambda>s. (r, s))"

text \<open>A loop over a list that collects the results, and one that only runs for its effect.\<close>

primrec mapM :: "('a \<Rightarrow> ('x, 's, 'b) act) \<Rightarrow> 'a list \<Rightarrow> ('x, 's, 'b list) act" where
  "mapM f [] = ret []"
| "mapM f (x # xs) = bindM (f x) (\<lambda>y. bindM (mapM f xs) (\<lambda>ys. ret (y # ys)))"

primrec iterM :: "('a \<Rightarrow> ('x, 's, unit) act) \<Rightarrow> 'a list \<Rightarrow> ('x, 's, unit) act" where
  "iterM f [] = ret ()"
| "iterM f (x # xs) = bindM (f x) (\<lambda>_. iterM f xs)"

lemma ret_run [act_simps, simp]: "ret a s = (Inr a, s)"
  by (simp add: ret_def)

lemma fail_run [act_simps, simp]: "fail x s = (Inl x, s)"
  by (simp add: fail_def)

lemma getM_run [act_simps, simp]: "getM f s = (Inr (f s), s)"
  by (simp add: getM_def)

lemma modM_run [act_simps, simp]: "modM f s = (Inr (), f s)"
  by (simp add: modM_def)

lemma liftE_run [act_simps, simp]: "liftE r s = (r, s)"
  by (simp add: liftE_def)

lemma require_run [act_simps]: "require b x s = (if b then Inr () else Inl x, s)"
  by (simp add: require_def)

lemma require_simps [simp]: "require True x = ret ()" "require False x = fail x"
  by (simp_all add: require_def)

lemma bindM_Inr [act_simps, simp]: "m s = (Inr a, t) \<Longrightarrow> bindM m f s = f a t"
  by (simp add: bindM_def)

lemma bindM_Inl [act_simps, simp]: "m s = (Inl x, t) \<Longrightarrow> bindM m f s = (Inl x, t)"
  by (simp add: bindM_def)

lemma bindM_fail [simp]: "bindM (fail x) f = fail x"
  by (simp add: bindM_def fail_def fun_eq_iff)

lemma bindM_ret [simp]: "bindM (ret a) f = f a"
  by (simp add: bindM_def ret_def fun_eq_iff)

lemma bindM_assoc: "bindM (bindM m f) g = bindM m (\<lambda>a. bindM (f a) g)"
  by (auto simp: bindM_def fun_eq_iff split: prod.splits sum.splits)

text \<open>An action that returns has returned at every step.\<close>

lemma bindM_returns_iff:
  "bindM m f s = (Inr b, u) \<longleftrightarrow> (\<exists>a t. m s = (Inr a, t) \<and> f a t = (Inr b, u))"
  by (auto simp: bindM_def split: prod.splits sum.splits)

lemma bindM_aborts_iff:
  "bindM m f s = (Inl x, u) \<longleftrightarrow>
     m s = (Inl x, u) \<or> (\<exists>a t. m s = (Inr a, t) \<and> f a t = (Inl x, u))"
  by (auto simp: bindM_def split: prod.splits sum.splits)

lemma mapM_map:
  assumes "\<And>x s. x \<in> set xs \<Longrightarrow> P s \<Longrightarrow> \<exists>t. f x s = (Inr (g x), t) \<and> P t" and "P s"
  shows "\<exists>t. mapM f xs s = (Inr (map g xs), t) \<and> P t"
  using assms
proof (induction xs arbitrary: s)
  case (Cons x xs)
  from Cons.prems(1) [of x s] Cons.prems(2)
  obtain t where t: "f x s = (Inr (g x), t)" "P t" by auto
  from Cons.IH [OF _ this(2)] Cons.prems(1) obtain u
    where "mapM f xs t = (Inr (map g xs), u)" "P u" by auto
  with t show ?case by simp
qed simp

lemma mapM_length: "mapM f xs s = (Inr ys, t) \<Longrightarrow> length ys = length xs"
  by (induction xs arbitrary: s ys) (auto simp: bindM_returns_iff)

section \<open>Invariants of actions\<close>

text \<open>
  \<open>keeps I m\<close>: the action keeps the invariant whatever its outcome, so also when it aborts.
\<close>

definition keeps :: "('s \<Rightarrow> bool) \<Rightarrow> ('x, 's, 'a) act \<Rightarrow> bool" where
  "keeps I m \<longleftrightarrow> (\<forall>s. I s \<longrightarrow> I (snd (m s)))"

lemma keepsI: "(\<And>s. I s \<Longrightarrow> I (snd (m s))) \<Longrightarrow> keeps I m"
  by (simp add: keeps_def)

lemma keepsD: "keeps I m \<Longrightarrow> I s \<Longrightarrow> I (snd (m s))"
  by (simp add: keeps_def)

lemma keepsE: "keeps I m \<Longrightarrow> I s \<Longrightarrow> m s = (r, t) \<Longrightarrow> I t"
  by (metis keepsD snd_conv)

lemma keeps_ret [keeps_intros, simp]: "keeps I (ret a)"
  by (simp add: keeps_def)

lemma keeps_fail [keeps_intros, simp]: "keeps I (fail x)"
  by (simp add: keeps_def)

lemma keeps_getM [keeps_intros, simp]: "keeps I (getM f)"
  by (simp add: keeps_def)

lemma keeps_liftE [keeps_intros, simp]: "keeps I (liftE r)"
  by (simp add: keeps_def)

lemma keeps_require [keeps_intros, simp]: "keeps I (require b x)"
  by (simp add: keeps_def require_def)

lemma keeps_modM [keeps_intros]: "(\<And>s. I s \<Longrightarrow> I (f s)) \<Longrightarrow> keeps I (modM f)"
  by (simp add: keeps_def)

lemma keeps_bindM [keeps_intros]:
  "keeps I m \<Longrightarrow> (\<And>a. keeps I (f a)) \<Longrightarrow> keeps I (bindM m f)"
  by (auto simp: keeps_def bindM_def split: prod.splits sum.splits)

lemma keeps_if [keeps_intros]:
  "(b \<Longrightarrow> keeps I m) \<Longrightarrow> (\<not> b \<Longrightarrow> keeps I n) \<Longrightarrow> keeps I (if b then m else n)"
  by simp

lemma keeps_case_option [keeps_intros]:
  "(z = None \<Longrightarrow> keeps I m) \<Longrightarrow> (\<And>a. z = Some a \<Longrightarrow> keeps I (f a)) \<Longrightarrow>
     keeps I (case z of None \<Rightarrow> m | Some a \<Rightarrow> f a)"
  by (cases z) auto

lemma keeps_case_sum [keeps_intros]:
  "(\<And>a. z = Inl a \<Longrightarrow> keeps I (f a)) \<Longrightarrow> (\<And>b. z = Inr b \<Longrightarrow> keeps I (g b)) \<Longrightarrow>
     keeps I (case z of Inl a \<Rightarrow> f a | Inr b \<Rightarrow> g b)"
  by (cases z) auto

lemma keeps_case_prod [keeps_intros]:
  "(\<And>a b. z = (a, b) \<Longrightarrow> keeps I (f a b)) \<Longrightarrow> keeps I (case z of (a, b) \<Rightarrow> f a b)"
  by (cases z) auto

lemma keeps_let [keeps_intros]: "keeps I (f a) \<Longrightarrow> keeps I (let x = a in f x)"
  by simp

lemma keeps_mapM [keeps_intros]: "(\<And>x. x \<in> set xs \<Longrightarrow> keeps I (f x)) \<Longrightarrow> keeps I (mapM f xs)"
  by (induction xs) (auto intro!: keeps_intros)

lemma keeps_iterM [keeps_intros]: "(\<And>x. x \<in> set xs \<Longrightarrow> keeps I (f x)) \<Longrightarrow> keeps I (iterM f xs)"
  by (induction xs) (auto intro!: keeps_intros)

section \<open>How an action may end\<close>

text \<open>
  \<open>aborts_in P m\<close>: whenever the action aborts, it aborts with something \<open>P\<close> allows.
\<close>

definition aborts_in :: "('x \<Rightarrow> bool) \<Rightarrow> ('x, 's, 'a) act \<Rightarrow> bool" where
  "aborts_in P m \<longleftrightarrow> (\<forall>s x. fst (m s) = Inl x \<longrightarrow> P x)"

lemma aborts_inD: "aborts_in P m \<Longrightarrow> m s = (Inl x, t) \<Longrightarrow> P x"
  by (metis aborts_in_def fst_conv)

lemma aborts_in_ret [aborts_intros, simp]: "aborts_in P (ret a)"
  by (simp add: aborts_in_def)

lemma aborts_in_fail [aborts_intros]: "P x \<Longrightarrow> aborts_in P (fail x)"
  by (simp add: aborts_in_def)

lemma aborts_in_getM [aborts_intros, simp]: "aborts_in P (getM f)"
  by (simp add: aborts_in_def)

lemma aborts_in_modM [aborts_intros, simp]: "aborts_in P (modM f)"
  by (simp add: aborts_in_def)

lemma aborts_in_liftE [aborts_intros]: "(\<And>x. r = Inl x \<Longrightarrow> P x) \<Longrightarrow> aborts_in P (liftE r)"
  by (simp add: aborts_in_def)

lemma aborts_in_require [aborts_intros]: "P x \<Longrightarrow> aborts_in P (require b x)"
  by (simp add: aborts_in_def require_def)

lemma aborts_in_bindM [aborts_intros]:
  "aborts_in P m \<Longrightarrow> (\<And>a. aborts_in P (f a)) \<Longrightarrow> aborts_in P (bindM m f)"
  by (auto simp: aborts_in_def bindM_def split: prod.splits sum.splits) (metis fst_conv)+

lemma aborts_in_if [aborts_intros]:
  "(b \<Longrightarrow> aborts_in P m) \<Longrightarrow> (\<not> b \<Longrightarrow> aborts_in P n) \<Longrightarrow> aborts_in P (if b then m else n)"
  by simp

lemma aborts_in_case_option [aborts_intros]:
  "(z = None \<Longrightarrow> aborts_in P m) \<Longrightarrow> (\<And>a. z = Some a \<Longrightarrow> aborts_in P (f a)) \<Longrightarrow>
     aborts_in P (case z of None \<Rightarrow> m | Some a \<Rightarrow> f a)"
  by (cases z) auto

lemma aborts_in_case_prod [aborts_intros]:
  "(\<And>a b. z = (a, b) \<Longrightarrow> aborts_in P (f a b)) \<Longrightarrow> aborts_in P (case z of (a, b) \<Rightarrow> f a b)"
  by (cases z) auto

lemma aborts_in_let [aborts_intros]: "aborts_in P (f a) \<Longrightarrow> aborts_in P (let x = a in f x)"
  by simp

lemma aborts_in_mapM [aborts_intros]:
  "(\<And>x. x \<in> set xs \<Longrightarrow> aborts_in P (f x)) \<Longrightarrow> aborts_in P (mapM f xs)"
  by (induction xs) (auto intro!: aborts_intros)

lemma aborts_in_iterM [aborts_intros]:
  "(\<And>x. x \<in> set xs \<Longrightarrow> aborts_in P (f x)) \<Longrightarrow> aborts_in P (iterM f xs)"
  by (induction xs) (auto intro!: aborts_intros)

section \<open>Object stores\<close>

text \<open>
  The structs the extension allocates live in stores indexed by references, since several Ruby
  objects point to the same struct (every statement to its database). The locale states the
  laws of one such store inside the state of the whole extension; each store of the model is
  an interpretation.
\<close>

locale store =
  fixes get :: "'s \<Rightarrow> 'r \<Rightarrow> 'v"
    and upd :: "'r \<Rightarrow> ('v \<Rightarrow> 'v) \<Rightarrow> 's \<Rightarrow> 's"
  assumes get_upd: "get (upd r f s) q = (if q = r then f (get s r) else get s q)"
    and upd_upd: "upd r f (upd r g s) = upd r (f \<circ> g) s"
    and upd_id: "f (get s r) = get s r \<Longrightarrow> upd r f s = s"
begin

lemma get_upd_same: "get (upd r f s) r = f (get s r)"
  by (simp add: get_upd)

lemma get_upd_other: "q \<noteq> r \<Longrightarrow> get (upd r f s) q = get s q"
  by (simp add: get_upd)

lemma all_upd:
  "\<forall>q. P q (get s q) \<Longrightarrow> P r (f (get s r)) \<Longrightarrow> \<forall>q. P q (get (upd r f s) q)"
  by (simp add: get_upd)

lemma keeps_upd:
  "(\<And>v. P r v \<Longrightarrow> P r (f v)) \<Longrightarrow> keeps (\<lambda>s. \<forall>q. P q (get s q)) (modM (upd r f))"
  by (auto intro!: keeps_modM simp: get_upd)

end

end
