(* ===== verification/Ruby_Values.thy ===== *)
theory Ruby_Values
  imports Prelude
begin

unbundle bit_operations_syntax

text \<open>
  The part of Ruby that the extension uses: the values (\<open>VALUE\<close>) and their C-level types, the
  encodings, the exception classes, and the conversions of the C API between values and C
  integers, doubles and strings (\<open>NUM2INT\<close>, \<open>FIX2LONG\<close>, \<open>LL2NUM\<close>, \<open>NUM2DBL\<close>,
  \<open>StringValueCStr\<close>) on a 64-bit build of CRuby. Bytes of strings are the characters of HOL's
  \<open>string\<close> type, doubles are their 64 bits.
\<close>

section \<open>Exceptions\<close>

text \<open>The classes that the extension raises; the first group is \<open>lib/sqlite3/errors.rb\<close>.\<close>

datatype rb_class =
    SQLException | InternalException | PermissionException | AbortException | BusyException
  | LockedException | MemoryException | ReadOnlyException | InterruptException | IOException
  | CorruptException | NotFoundException | FullException | CantOpenException
  | ProtocolException | EmptyException | SchemaChangedException | TooBigException
  | ConstraintException | MismatchException | MisuseException | UnsupportedException
  | AuthorizationException | FormatException | RangeException | NotADatabaseException
  | SQLite3_Exception
  | RuntimeError | TypeError | ArgumentError | RangeError | FrozenError | FatalError
  | CompatibilityError | NoMethodError

text \<open>
  An exception made by the extension has a class, a message and the instance variables
  \<open>@code\<close>, \<open>@sql\<close> and \<open>@sql_offset\<close>. An exception raised by the user's Ruby code is
  opaque.
\<close>

datatype rb_exn =
    Exn (exn_class: rb_class) (exn_msg: string) (exn_code: "int option")
        (exn_sql: "string option") (exn_sql_offset: "int option")
  | UserExn nat

abbreviation rb_error :: "rb_class \<Rightarrow> string \<Rightarrow> rb_exn" where
  "rb_error c msg \<equiv> Exn c msg None None None"

text \<open>What ends an action early: a raised exception, or behaviour that C does not define.\<close>

datatype undefined_behaviour = NullDereference | NotAnArray | LoopBound | OutOfBounds | WrongArity

datatype abort = Raised rb_exn | Undefined undefined_behaviour

section \<open>Values\<close>

datatype rb_encoding = UTF_8 | US_ASCII | ASCII_8BIT | UTF_16LE | UTF_16BE | OtherEncoding nat

text \<open>
  \<open>RString b e s f\<close> is a string with the bytes \<open>s\<close> in encoding \<open>e\<close>, of the class
  \<open>SQLite3::Blob\<close> when \<open>b\<close>, frozen when \<open>f\<close>. \<open>RObject\<close> is any object of the user (a
  callable, a comparator, a handler class), \<open>RAw\<close> and \<open>RInst\<close> are the two internal
  classes of \<open>aggregator.c\<close>.
\<close>

datatype rb_value =
    RNil | RTrue | RFalse
  | RInteger int
  | RFloat i64
  | RString (rs_blob: bool) (rs_enc: rb_encoding) (rs_bytes: string) (rs_frozen: bool)
  | RSymbol string
  | RArray "rb_value list"
  | RHash "(rb_value \<times> rb_value) list"
  | RObject nat
  | RAw nat
  | RInst nat

datatype rb_type =
    T_NIL | T_TRUE | T_FALSE | T_FIXNUM | T_BIGNUM | T_FLOAT | T_STRING | T_SYMBOL
  | T_ARRAY | T_HASH | T_OBJECT

definition fixnum_p :: "int \<Rightarrow> bool" where
  "fixnum_p n \<longleftrightarrow> - (2 ^ 62) \<le> n \<and> n < 2 ^ 62"

fun rb_type_of :: "rb_value \<Rightarrow> rb_type" where
  "rb_type_of RNil = T_NIL"
| "rb_type_of RTrue = T_TRUE"
| "rb_type_of RFalse = T_FALSE"
| "rb_type_of (RInteger n) = (if fixnum_p n then T_FIXNUM else T_BIGNUM)"
| "rb_type_of (RFloat x) = T_FLOAT"
| "rb_type_of (RString b e s f) = T_STRING"
| "rb_type_of (RSymbol s) = T_SYMBOL"
| "rb_type_of (RArray vs) = T_ARRAY"
| "rb_type_of (RHash kvs) = T_HASH"
| "rb_type_of (RObject n) = T_OBJECT"
| "rb_type_of (RAw n) = T_OBJECT"
| "rb_type_of (RInst n) = T_OBJECT"

definition NIL_P :: "rb_value \<Rightarrow> bool" where
  "NIL_P v \<longleftrightarrow> v = RNil"

definition RTEST :: "rb_value \<Rightarrow> bool" where
  "RTEST v \<longleftrightarrow> v \<noteq> RNil \<and> v \<noteq> RFalse"

definition rb_bool :: "bool \<Rightarrow> rb_value" where
  "rb_bool b = (if b then RTrue else RFalse)"

section \<open>Integers\<close>

definition int_fits :: "nat \<Rightarrow> int \<Rightarrow> bool" where
  "int_fits w n \<longleftrightarrow> - (2 ^ (w - 1)) \<le> n \<and> n < 2 ^ (w - 1)"

definition LL2NUM :: "i64 \<Rightarrow> rb_value" where
  "LL2NUM x = RInteger (sint x)"

definition INT2NUM :: "cint \<Rightarrow> rb_value" where
  "INT2NUM x = RInteger (sint x)"

text \<open>\<open>FIX2LONG\<close> on a fixnum, whose value always fits in a 64-bit \<open>long\<close>.\<close>

definition FIX2LONG :: "int \<Rightarrow> i64" where
  "FIX2LONG n = word_of_int n"

lemma sint_word_of_int: "int_fits LENGTH('a) n \<Longrightarrow> sint (word_of_int n :: 'a::len word) = n"
  by (simp add: int_fits_def sint_sbintrunc' signed_take_bit_int_eq_self)

lemma int_fits_sint: "int_fits LENGTH('a) (sint (x :: 'a::len word))"
  using sint_greater_eq [of x] sint_less [of x] by (simp add: int_fits_def)

lemma fixnum_fits: "fixnum_p n \<Longrightarrow> int_fits 64 n"
  by (simp add: fixnum_p_def int_fits_def)

lemma cint_fixnum: "fixnum_p (sint (x :: cint))"
  using sint_greater_eq [of x] sint_less [of x] by (simp add: fixnum_p_def)

lemma sint_FIX2LONG [simp]: "fixnum_p n \<Longrightarrow> sint (FIX2LONG n) = n"
  unfolding FIX2LONG_def using sint_word_of_int [where 'a = 64] fixnum_fits by simp

lemma FIX2LONG_sint [simp]: "FIX2LONG (sint x) = x"
  by (simp add: FIX2LONG_def)

section \<open>Doubles\<close>

text \<open>The integer part of a double, \<open>None\<close> for an infinity or a NaN.\<close>

definition double_trunc :: "i64 \<Rightarrow> int option" where
  "double_trunc x =
     (let b = uint x;
          e = nat ((b div 2 ^ 52) mod 2 ^ 11);
          m = b mod 2 ^ 52;
          (mm, ee) = (if e = 0 then (m, 1) else (m + 2 ^ 52, e));
          mag = (if 1075 \<le> ee then mm * 2 ^ (ee - 1075) else mm div 2 ^ (1075 - ee))
      in if e = 2047 then None else Some (if b < 2 ^ 63 then mag else - mag))"

text \<open>
  \<open>NUM2DBL\<close> on an integer: the nearest double, halves to even, infinite beyond the range.
  \<open>bit_length n\<close> is the position of the highest bit of \<open>n\<close>, plus one.
\<close>

function bit_length :: "int \<Rightarrow> nat" where
  "bit_length n = (if n \<le> 0 then 0 else Suc (bit_length (n div 2)))"
  by pat_completeness auto
termination
  by (relation "measure nat") auto

declare bit_length.simps [simp del]

definition round_mantissa :: "int \<Rightarrow> nat \<Rightarrow> int" where
  "round_mantissa a k =
     (let q = a div 2 ^ k; r = a mod 2 ^ k; half = 2 ^ (k - 1)
      in if half < r \<or> (r = half \<and> odd q) then q + 1 else q)"

definition int_to_double :: "int \<Rightarrow> i64" where
  "int_to_double n =
     (let a = \<bar>n\<bar>;
          l = bit_length a;
          m0 = (if l \<le> 53 then a * 2 ^ (53 - l) else round_mantissa a (l - 53));
          (m, e) = (if m0 = 2 ^ 53 then (2 ^ 52, l + 1) else (m0, l));
          s = (if n < 0 then 2 ^ 63 else 0)
      in if n = 0 then 0
         else if 1024 < e then word_of_int (s + 2047 * 2 ^ 52)
         else word_of_int (s + (int e + 1022) * 2 ^ 52 + (m - 2 ^ 52)))"

definition NUM2DBL :: "rb_value \<Rightarrow> abort + i64" where
  "NUM2DBL v =
     (case v of
        RInteger n \<Rightarrow> Inr (int_to_double n)
      | RFloat x \<Rightarrow> Inr x
      | _ \<Rightarrow> Inl (Raised (rb_error TypeError ''can't convert to Float'')))"

text \<open>
  \<open>NUM2INT\<close>: the value as a C \<open>int\<close>. A float is truncated; a value outside the range is
  refused with RangeError and any other object with TypeError. (Objects of the user that
  define \<open>to_int\<close> are not modelled: they are refused here.)
\<close>

definition int_in_range :: "int \<Rightarrow> abort + cint" where
  "int_in_range n =
     (if int_fits 32 n then Inr (word_of_int n)
      else Inl (Raised (rb_error RangeError ''integer out of range of `int'')))"

definition NUM2INT :: "rb_value \<Rightarrow> abort + cint" where
  "NUM2INT v =
     (case v of
        RInteger n \<Rightarrow> int_in_range n
      | RFloat x \<Rightarrow>
          (case double_trunc x of
             None \<Rightarrow> Inl (Raised (rb_error RangeError ''float out of range of integer''))
           | Some n \<Rightarrow> int_in_range n)
      | _ \<Rightarrow> Inl (Raised (rb_error TypeError ''no implicit conversion into Integer'')))"

lemma int_in_range_sint [simp]: "int_in_range (sint x) = Inr x"
  using int_fits_sint [of x] by (simp add: int_in_range_def)

lemma int_in_range_Inr: "int_in_range n = Inr x \<Longrightarrow> sint x = n"
  using sint_word_of_int [where 'a = 32, of n]
  by (auto simp: int_in_range_def split: if_splits)

lemma NUM2INT_INT2NUM [simp]: "NUM2INT (INT2NUM x) = Inr x"
  by (simp add: NUM2INT_def INT2NUM_def)

lemma NUM2INT_Integer [simp]: "NUM2INT (RInteger n) = int_in_range n"
  by (simp add: NUM2INT_def)

section \<open>Strings\<close>

text \<open>A C string ends at its first NUL byte.\<close>

definition nul :: char where
  "nul = CHR 0x00"

definition cstr :: "string \<Rightarrow> string" where
  "cstr s = takeWhile (\<lambda>c. c \<noteq> nul) s"

lemma cstr_id: "nul \<notin> set s \<Longrightarrow> cstr s = s"
  by (auto simp: cstr_def takeWhile_eq_all_conv)

lemma cstr_no_nul: "nul \<notin> set (cstr s)"
  by (auto simp: cstr_def dest: set_takeWhileD)

lemma cstr_idem [simp]: "cstr (cstr s) = cstr s"
  by (simp add: cstr_id cstr_no_nul)

text \<open>
  \<open>StringValuePtr\<close> gives the bytes of a string and refuses any other object;
  \<open>StringValueCStr\<close> also refuses a string with a NUL byte inside.
\<close>

definition StringValue :: "rb_value \<Rightarrow> abort + string" where
  "StringValue v =
     (case v of
        RString b e s f \<Rightarrow> Inr s
      | _ \<Rightarrow> Inl (Raised (rb_error TypeError ''no implicit conversion into String'')))"

definition StringValueCStr :: "rb_value \<Rightarrow> abort + string" where
  "StringValueCStr v =
     (case StringValue v of
        Inl x \<Rightarrow> Inl x
      | Inr s \<Rightarrow> if nul \<in> set s
                then Inl (Raised (rb_error ArgumentError ''string contains null byte''))
                else Inr s)"

lemma StringValueCStr_no_nul: "StringValueCStr v = Inr s \<Longrightarrow> nul \<notin> set s"
  by (auto simp: StringValueCStr_def split: sum.splits if_splits)

text \<open>Strings the extension makes: from a buffer in UTF-8, in binary, from a C string.\<close>

definition rb_utf8_str_new :: "string \<Rightarrow> rb_value" where
  "rb_utf8_str_new s = RString False UTF_8 s False"

definition rb_str_new :: "string \<Rightarrow> rb_value" where
  "rb_str_new s = RString False ASCII_8BIT s False"

definition rb_utf8_str_new_cstr :: "string \<Rightarrow> rb_value" where
  "rb_utf8_str_new_cstr s = rb_utf8_str_new (cstr s)"

definition rb_str_new_cstr :: "string \<Rightarrow> rb_value" where
  "rb_str_new_cstr s = rb_str_new (cstr s)"

fun rb_obj_freeze :: "rb_value \<Rightarrow> rb_value" where
  "rb_obj_freeze (RString b e s f) = RString b e s True"
| "rb_obj_freeze v = v"

definition is_ascii_string :: "string \<Rightarrow> bool" where
  "is_ascii_string s \<longleftrightarrow> list_all (\<lambda>c. of_char c < (128 :: nat)) s"

fun ascii_compat :: "rb_encoding \<Rightarrow> bool" where
  "ascii_compat UTF_16LE = False"
| "ascii_compat UTF_16BE = False"
| "ascii_compat _ = True"

text \<open>The \<open>%d\<close> of a format string.\<close>

fun show_nat :: "nat \<Rightarrow> string" where
  "show_nat n = (if n < 10 then [char_of (48 + n)] else show_nat (n div 10) @ [char_of (48 + n mod 10)])"

declare show_nat.simps [simp del]

definition show_int :: "int \<Rightarrow> string" where
  "show_int n = (if n < 0 then CHR ''-'' # show_nat (nat (- n)) else show_nat (nat n))"

section \<open>The user's Ruby code and the encodings\<close>

text \<open>
  What the extension calls and does not define: the methods of the user's objects
  (\<open>u_call recv method args\<close>, on the user's own heap \<open>'u\<close>), whether an object responds
  to a method, the transcoding tables of Ruby, which strings are valid in their encoding
  (\<open>valid_encoding?\<close>), the default internal encoding and what \<open>to_s\<close>
  of a Database object shows (its class and address). All of it is a parameter of the model.
\<close>

record 'u rb_user =
  u_call :: "rb_value \<Rightarrow> string \<Rightarrow> rb_value list \<Rightarrow> 'u \<Rightarrow> (rb_exn + rb_value) \<times> 'u"
  u_respond_to :: "rb_value \<Rightarrow> string \<Rightarrow> bool"
  u_transcode :: "rb_encoding \<Rightarrow> rb_encoding \<Rightarrow> string \<Rightarrow> rb_exn + string"
  u_valid_encoding :: "rb_encoding \<Rightarrow> string \<Rightarrow> bool"
  u_default_internal :: "rb_encoding option"
  u_to_s :: "nat \<Rightarrow> string"

text \<open>
  \<open>rb_str_encode\<close> to UTF-8: a string already in UTF-8, and an ASCII-only string in an
  ASCII-compatible encoding, keeps its bytes; every other goes through the transcoder.
\<close>

definition rb_str_encode_utf8 :: "'u rb_user \<Rightarrow> rb_encoding \<Rightarrow> string \<Rightarrow> abort + string" where
  "rb_str_encode_utf8 U e s =
     (if e = UTF_8 \<or> (ascii_compat e \<and> is_ascii_string s) then Inr s
      else (case u_transcode U e UTF_8 s of Inl x \<Rightarrow> Inl (Raised x) | Inr t \<Rightarrow> Inr t))"

text \<open>
  \<open>rb_str_export_to_enc\<close> of a UTF-8 string; a string that cannot be converted is returned
  as it is.
\<close>

definition rb_str_export_to_enc :: "'u rb_user \<Rightarrow> rb_value \<Rightarrow> rb_encoding \<Rightarrow> rb_value" where
  "rb_str_export_to_enc U v enc =
     (case v of
        RString b e s f \<Rightarrow>
          if e = enc then v
          else if ascii_compat enc \<and> is_ascii_string s then RString b enc s f
          else (case u_transcode U e enc s of Inl x \<Rightarrow> v | Inr t \<Rightarrow> RString False enc t False)
      | _ \<Rightarrow> v)"

definition export_internal :: "'u rb_user \<Rightarrow> rb_value \<Rightarrow> rb_value" where
  "export_internal U v =
     (case u_default_internal U of None \<Rightarrow> v | Some enc \<Rightarrow> rb_str_export_to_enc U v enc)"

end
