(* ===== verification/Timespec.thy ===== *)
theory Timespec
  imports Prelude
begin

text \<open>
  \<open>ext/sqlite3/timespec.h\<close>: the macros over \<open>struct timespec\<close>, two signed 64-bit fields.
  The comparison is shown to be the lexicographic order, which makes the type a linear order;
  subtraction is shown exact, in nanoseconds, on valid times.
\<close>

datatype timespec = Timespec (tv_sec: i64) (tv_nsec: i64)

definition timespecclear :: timespec where
  "timespecclear = Timespec 0 0"

definition timespecisset :: "timespec \<Rightarrow> bool" where
  "timespecisset t \<longleftrightarrow> tv_sec t \<noteq> 0 \<or> tv_nsec t \<noteq> 0"

definition timespecisvalid :: "timespec \<Rightarrow> bool" where
  "timespecisvalid t \<longleftrightarrow> 0 \<le> sint (tv_nsec t) \<and> sint (tv_nsec t) < 1000000000"

definition timespeccmp :: "(int \<Rightarrow> int \<Rightarrow> bool) \<Rightarrow> timespec \<Rightarrow> timespec \<Rightarrow> bool" where
  "timespeccmp cmp t u =
     (if tv_sec t = tv_sec u then cmp (sint (tv_nsec t)) (sint (tv_nsec u))
      else cmp (sint (tv_sec t)) (sint (tv_sec u)))"

definition timespecsub :: "timespec \<Rightarrow> timespec \<Rightarrow> timespec" where
  "timespecsub t u =
     (let s = tv_sec t - tv_sec u; n = tv_nsec t - tv_nsec u
      in if sint n < 0 then Timespec (s - 1) (n + 1000000000) else Timespec s n)"

definition timespecafter :: "timespec \<Rightarrow> timespec \<Rightarrow> bool" where
  "timespecafter t u \<longleftrightarrow>
     sint (tv_sec u) < sint (tv_sec t) \<or>
     (tv_sec t = tv_sec u \<and> sint (tv_nsec u) < sint (tv_nsec t))"

section \<open>The order of times\<close>

lemma sint_inj: "sint (x :: 'a::len word) = sint y \<longleftrightarrow> x = y"
  by (auto intro: signed_word_eqI)

instantiation timespec :: linorder
begin

definition less_eq_timespec :: "timespec \<Rightarrow> timespec \<Rightarrow> bool" where
  "less_eq_timespec t u \<longleftrightarrow> timespeccmp (\<le>) t u"

definition less_timespec :: "timespec \<Rightarrow> timespec \<Rightarrow> bool" where
  "less_timespec t u \<longleftrightarrow> timespeccmp (<) t u"

instance
proof
  fix x y z :: timespec
  show "(x < y) = (x \<le> y \<and> \<not> y \<le> x)"
    by (auto simp: less_eq_timespec_def less_timespec_def timespeccmp_def)
  show "x \<le> x"
    by (simp add: less_eq_timespec_def timespeccmp_def)
  show "x \<le> y \<Longrightarrow> y \<le> z \<Longrightarrow> x \<le> z"
    by (auto simp: less_eq_timespec_def timespeccmp_def sint_inj dest: order_antisym
        split: if_splits)
  show "x \<le> y \<Longrightarrow> y \<le> x \<Longrightarrow> x = y"
    by (auto simp: less_eq_timespec_def timespeccmp_def sint_inj intro!: timespec.expand
        dest: order_antisym split: if_splits)
  show "x \<le> y \<or> y \<le> x"
    by (auto simp: less_eq_timespec_def timespeccmp_def)
qed

end

lemma timespecafter_less: "timespecafter t u \<longleftrightarrow> u < t"
  by (auto simp: timespecafter_def less_timespec_def timespeccmp_def)

lemma timespecafter_irrefl [simp]: "\<not> timespecafter t t"
  by (simp add: timespecafter_less)

lemma timespecafter_trans: "timespecafter t u \<Longrightarrow> timespecafter u v \<Longrightarrow> timespecafter t v"
  by (simp add: timespecafter_less)

lemma timespecisset_clear [simp]: "\<not> timespecisset timespecclear"
  by (simp add: timespecisset_def timespecclear_def)

lemma timespecisset_iff: "timespecisset t \<longleftrightarrow> t \<noteq> timespecclear"
  by (cases t) (simp add: timespecisset_def timespecclear_def)

section \<open>Subtraction\<close>

definition nanos :: "timespec \<Rightarrow> int" where
  "nanos t = sint (tv_sec t) * 1000000000 + sint (tv_nsec t)"

lemma sint_minus_exact:
  fixes x y :: i64
  assumes "- (2 ^ 63) \<le> sint x - sint y" "sint x - sint y < 2 ^ 63"
  shows "sint (x - y) = sint x - sint y"
  using assms by (simp add: sint_word_ariths signed_take_bit_int_eq_self)

lemma sint_plus_exact:
  fixes x y :: i64
  assumes "- (2 ^ 63) \<le> sint x + sint y" "sint x + sint y < 2 ^ 63"
  shows "sint (x + y) = sint x + sint y"
  using assms by (simp add: sint_word_ariths signed_take_bit_int_eq_self)

text \<open>\<open>timespecsub\<close> is exact: for two valid times whose seconds do not differ by the whole
  64-bit range, the difference is a valid time and, in nanoseconds, the difference of the two.\<close>

lemma timespecsub_exact:
  assumes "timespecisvalid t" and "timespecisvalid u"
    and "- (2 ^ 63) < sint (tv_sec t) - sint (tv_sec u)"
    and "sint (tv_sec t) - sint (tv_sec u) < 2 ^ 63"
  shows "timespecisvalid (timespecsub t u) \<and> nanos (timespecsub t u) = nanos t - nanos u"
proof -
  define n where "n = tv_nsec t - tv_nsec u"
  define d where "d = tv_sec t - tv_sec u"
  have n: "sint n = sint (tv_nsec t) - sint (tv_nsec u)"
    unfolding n_def using assms(1,2) by (intro sint_minus_exact) (auto simp: timespecisvalid_def)
  have s: "sint d = sint (tv_sec t) - sint (tv_sec u)"
    unfolding d_def using assms(3,4) by (intro sint_minus_exact) auto
  have range: "- 1000000000 < sint n" "sint n < 1000000000"
    using assms(1,2) by (auto simp: n timespecisvalid_def)
  have one: "sint (1 :: i64) = 1" and giga: "sint (1000000000 :: i64) = 1000000000" by simp_all
  have s1: "sint (d - 1) = sint d - 1"
    using assms(3,4) by (subst sint_minus_exact) (auto simp: s one)
  have n1: "sint (n + 1000000000) = sint n + 1000000000"
    using range by (subst sint_plus_exact) (auto simp: giga)
  show ?thesis
    using range n s
    by (auto simp: timespecsub_def Let_def timespecisvalid_def nanos_def n1 s1 n_def [symmetric] d_def [symmetric])
qed

end
