(* ===== verification/Sqlite_Api.thy ===== *)
theory Sqlite_Api
  imports Ruby_Values Timespec
begin

text \<open>
  The interface to the SQLite library, which is not part of the repository: its functions are
  a parameter of the model. A call is a value of \<open>sql_call\<close>, which names the function and
  its arguments; the record \<open>sqlite_lib\<close> holds the library's answers, one field per result
  type, each a function of the call and of the library's own state \<open>'e\<close> (its heap and the
  files). Handles are numbers and a C pointer to one is an option, \<open>None\<close> for NULL.

  A call during which SQLite may call back into the extension answers with a \<open>run\<close>: a tree
  whose inner nodes are the callbacks, in order, and whose continuations take what the callback
  returned. A theorem about every \<open>run\<close> is a theorem about every behaviour of the library.
\<close>

type_synonym dbh = nat
type_synonym sth = nat
type_synonym bkh = nat
type_synonym fileh = nat

section \<open>Result codes and values\<close>

abbreviation SQLITE_OK :: cint where "SQLITE_OK \<equiv> 0"
abbreviation SQLITE_ERROR :: cint where "SQLITE_ERROR \<equiv> 1"
abbreviation SQLITE_INTERNAL :: cint where "SQLITE_INTERNAL \<equiv> 2"
abbreviation SQLITE_PERM :: cint where "SQLITE_PERM \<equiv> 3"
abbreviation SQLITE_ABORT :: cint where "SQLITE_ABORT \<equiv> 4"
abbreviation SQLITE_BUSY :: cint where "SQLITE_BUSY \<equiv> 5"
abbreviation SQLITE_LOCKED :: cint where "SQLITE_LOCKED \<equiv> 6"
abbreviation SQLITE_NOMEM :: cint where "SQLITE_NOMEM \<equiv> 7"
abbreviation SQLITE_READONLY :: cint where "SQLITE_READONLY \<equiv> 8"
abbreviation SQLITE_INTERRUPT :: cint where "SQLITE_INTERRUPT \<equiv> 9"
abbreviation SQLITE_IOERR :: cint where "SQLITE_IOERR \<equiv> 10"
abbreviation SQLITE_CORRUPT :: cint where "SQLITE_CORRUPT \<equiv> 11"
abbreviation SQLITE_NOTFOUND :: cint where "SQLITE_NOTFOUND \<equiv> 12"
abbreviation SQLITE_FULL :: cint where "SQLITE_FULL \<equiv> 13"
abbreviation SQLITE_CANTOPEN :: cint where "SQLITE_CANTOPEN \<equiv> 14"
abbreviation SQLITE_PROTOCOL :: cint where "SQLITE_PROTOCOL \<equiv> 15"
abbreviation SQLITE_EMPTY :: cint where "SQLITE_EMPTY \<equiv> 16"
abbreviation SQLITE_SCHEMA :: cint where "SQLITE_SCHEMA \<equiv> 17"
abbreviation SQLITE_TOOBIG :: cint where "SQLITE_TOOBIG \<equiv> 18"
abbreviation SQLITE_CONSTRAINT :: cint where "SQLITE_CONSTRAINT \<equiv> 19"
abbreviation SQLITE_MISMATCH :: cint where "SQLITE_MISMATCH \<equiv> 20"
abbreviation SQLITE_MISUSE :: cint where "SQLITE_MISUSE \<equiv> 21"
abbreviation SQLITE_NOLFS :: cint where "SQLITE_NOLFS \<equiv> 22"
abbreviation SQLITE_AUTH :: cint where "SQLITE_AUTH \<equiv> 23"
abbreviation SQLITE_FORMAT :: cint where "SQLITE_FORMAT \<equiv> 24"
abbreviation SQLITE_RANGE :: cint where "SQLITE_RANGE \<equiv> 25"
abbreviation SQLITE_NOTADB :: cint where "SQLITE_NOTADB \<equiv> 26"
abbreviation SQLITE_ROW :: cint where "SQLITE_ROW \<equiv> 100"
abbreviation SQLITE_DONE :: cint where "SQLITE_DONE \<equiv> 101"

text \<open>The five datatypes, and the answers of an authorizer.\<close>

abbreviation SQLITE_INTEGER :: cint where "SQLITE_INTEGER \<equiv> 1"
abbreviation SQLITE_FLOAT :: cint where "SQLITE_FLOAT \<equiv> 2"
abbreviation SQLITE_TEXT :: cint where "SQLITE_TEXT \<equiv> 3"
abbreviation SQLITE_BLOB :: cint where "SQLITE_BLOB \<equiv> 4"
abbreviation SQLITE_NULL :: cint where "SQLITE_NULL \<equiv> 5"
abbreviation SQLITE_DENY :: cint where "SQLITE_DENY \<equiv> 1"
abbreviation SQLITE_IGNORE :: cint where "SQLITE_IGNORE \<equiv> 2"
abbreviation SQLITE_UTF8 :: cint where "SQLITE_UTF8 \<equiv> 1"
abbreviation SQLITE_OPEN_READONLY :: cint where "SQLITE_OPEN_READONLY \<equiv> 1"

text \<open>
  A value of SQLite, seen through the accessors of \<open>sqlite3_value_*\<close> and
  \<open>sqlite3_column_*\<close>: its type code and what each accessor returns for it.
\<close>

record sqlite3_value =
  v_type :: cint
  v_int64 :: i64
  v_double :: i64
  v_text :: string
  v_blob :: string

section \<open>Calls\<close>

datatype dbconfig = DQS_DDL | DQS_DML

datatype fcntl = FCNTL_FILE_POINTER | FCNTL_JOURNAL_POINTER

datatype func_kind = ScalarFunction | AggregateFunction

text \<open>
  Calls on a connection. Where a callback is registered its user data is part of the call: the
  reference of the struct for the callbacks that get \<open>ctx\<close>, the value itself for those that get
  a Ruby object.
\<close>

datatype db_op =
    Close_v2 | Db_release_memory | Db_name nat | File_control "string option" fcntl
  | Errmsg | Errcode | Error_offset | Db_config dbconfig cint
  | Total_changes | Changes | Last_insert_rowid | Interrupt | Get_autocommit
  | Trace "nat option" | Busy_handler "nat option" | Set_authorizer "nat option"
  | Progress_handler cint nat
  | Create_function string cint cint rb_value func_kind
  | Create_collation string cint rb_value bool
  | Busy_timeout cint | Extended_result_codes cint
  | Load_extension string | Enable_load_extension cint
  | Exec string bool nat | Db_filename string | Prepare_v2 string cint

datatype st_op =
    Finalize | Step | Reset | Clear_bindings | Db_handle | Sql | Expanded_sql
  | Column_count | Column nat | Column_name cint | Column_decltype cint
  | Column_database_name cint
  | Bind_parameter_index string | Bind_parameter_count | Bind_parameter_name cint
  | Bind_blob cint string | Bind_text cint string | Bind_text16 cint string
  | Bind_int64 cint i64 | Bind_double cint i64 | Bind_null cint
  | Stmt_status cint

datatype bk_op = Backup_step cint | Backup_finish | Backup_remaining | Backup_pagecount

datatype sql_call =
    DbCall "dbh option" db_op
  | StmtCall "sth option" st_op
  | BackupCall "bkh option" bk_op
  | Backup_init "dbh option" string "dbh option" string
  | Open_v2 string cint "string option"
  | Open16 string
  | XClose fileh
  | Complete string
  | Status cint cint
  | Initialize_library
  | Libversion
  | Libversion_number
  | Threadsafe

text \<open>
  A call on a NULL handle that the library does not define: \<open>sqlite3_errmsg\<close>,
  \<open>sqlite3_errcode\<close>, \<open>sqlite3_close_v2\<close> and \<open>sqlite3_finalize\<close> accept NULL.
\<close>

fun null_call :: "sql_call \<Rightarrow> bool" where
  "null_call (DbCall None Errmsg) = False"
| "null_call (DbCall None Errcode) = False"
| "null_call (DbCall None Close_v2) = False"
| "null_call (StmtCall None Finalize) = False"
| "null_call (DbCall None _) = True"
| "null_call (StmtCall None _) = True"
| "null_call (BackupCall None _) = True"
| "null_call (Backup_init None _ _ _) = True"
| "null_call (Backup_init _ _ None _) = True"
| "null_call _ = False"

section \<open>Callbacks\<close>

text \<open>
  The callbacks the extension registers, with what SQLite passes to them. For an aggregate the
  aggregate context is named by a number and the flag says whether SQLite could allocate its
  memory; the progress callback comes with the reading of the monotonic clock it will make.
\<close>

datatype cb_req =
    CB_func rb_value "sqlite3_value list"
  | CB_agg_step nat nat bool "sqlite3_value list"
  | CB_agg_final nat nat bool
  | CB_busy nat cint
  | CB_progress nat timespec
  | CB_auth nat cint "string option" "string option" "string option" "string option"
  | CB_trace nat string
  | CB_compare rb_value string string
  | CB_row nat bool "string option list" "string list"

text \<open>What a function leaves in its \<open>sqlite3_context\<close>.\<close>

datatype func_result =
    FR_none | FR_null | FR_int64 i64 | FR_double i64 | FR_text string | FR_blob string
  | FR_error string

datatype cb_res = CR_result func_result | CR_int cint | CR_void

datatype ('e, 'r) run = Return 'r 'e | Callback 'e cb_req "cb_res \<Rightarrow> ('e, 'r) run"

section \<open>The library\<close>

text \<open>
  The functions that may call back answer with a \<open>run\<close>: \<open>l_run\<close> for \<open>sqlite3_step\<close>,
  \<open>sqlite3_reset\<close> and \<open>sqlite3_finalize\<close> (these two end the aggregates in flight) and
  \<open>sqlite3_backup_step\<close> (which may wait for a lock), \<open>l_prepare\<close> for \<open>sqlite3_prepare_v2\<close>,
  \<open>l_exec\<close> for \<open>sqlite3_exec\<close> and \<open>sqlite3_load_extension\<close>.

  The fields \<open>l_has_*\<close> and \<open>l_little_endian\<close> are the configuration the extension is compiled
  with: whether \<open>sqlite3_db_name\<close>, \<open>sqlite3_error_offset\<close> and
  \<open>SQLITE_DBCONFIG_DQS_DDL\<close> exist, whether \<open>long\<close> has 64 bits and the byte order.
\<close>

record 'e sqlite_lib =
  l_int :: "sql_call \<Rightarrow> 'e \<Rightarrow> cint \<times> 'e"
  l_i64 :: "sql_call \<Rightarrow> 'e \<Rightarrow> i64 \<times> 'e"
  l_text :: "sql_call \<Rightarrow> 'e \<Rightarrow> string option \<times> 'e"
  l_column :: "sql_call \<Rightarrow> 'e \<Rightarrow> sqlite3_value \<times> 'e"
  l_open :: "sql_call \<Rightarrow> 'e \<Rightarrow> (cint \<times> dbh option) \<times> 'e"
  l_file :: "sql_call \<Rightarrow> 'e \<Rightarrow> (cint \<times> fileh \<times> bool) \<times> 'e"
  l_backup :: "sql_call \<Rightarrow> 'e \<Rightarrow> bkh option \<times> 'e"
  l_handle :: "sql_call \<Rightarrow> 'e \<Rightarrow> dbh option \<times> 'e"
  l_status :: "sql_call \<Rightarrow> 'e \<Rightarrow> (cint \<times> cint) \<times> 'e"
  l_run :: "sql_call \<Rightarrow> 'e \<Rightarrow> ('e, cint) run"
  l_prepare :: "sql_call \<Rightarrow> 'e \<Rightarrow> ('e, cint \<times> sth option \<times> string) run"
  l_exec :: "sql_call \<Rightarrow> 'e \<Rightarrow> ('e, cint \<times> string option) run"
  l_has_db_name :: bool
  l_has_error_offset :: bool
  l_has_dqs :: bool
  l_long64 :: bool
  l_little_endian :: bool

end
