(* ===== verification/World.thy ===== *)
theory World
  imports Sqlite_Api
begin

text \<open>
  The state of the extension inside one process: the structs it allocates for its Ruby objects
  (\<open>database.h\<close>, \<open>statement.h\<close>, \<open>backup.h\<close>), the Ruby arrays, hashes and hidden
  objects it keeps, the pending exception of the interpreter (\<open>rb_errinfo\<close>), the process id,
  the library's state and the user's. The field \<open>calls\<close> records every call made to SQLite; no
  code reads it.
\<close>

section \<open>Structs\<close>

text \<open>
  \<open>struct _sqlite3Ruby\<close>. A struct starts zeroed, and zero is \<open>Qfalse\<close> as a \<open>VALUE\<close>. The
  fields \<open>functions\<close>, \<open>collations\<close> and \<open>aggregators\<close> point to Ruby arrays and
  hashes (\<open>None\<close> when they hold \<open>Qfalse\<close> or \<open>Qnil\<close>).
\<close>

record sqlite3Ruby =
  d_db :: "dbh option"
  d_busy_handler :: rb_value
  d_functions :: "nat option"
  d_collations :: "nat option"
  d_aggregators :: "nat option"
  d_trace_handler :: rb_value
  d_authorizer :: rb_value
  d_stmt_timeout :: cint
  d_stmt_deadline :: timespec
  d_owner :: int
  d_flags :: cint

abbreviation SQLITE3_RB_DATABASE_READONLY :: cint where
  "SQLITE3_RB_DATABASE_READONLY \<equiv> 0x01"

abbreviation SQLITE3_RB_DATABASE_DISCARDED :: cint where
  "SQLITE3_RB_DATABASE_DISCARDED \<equiv> 0x02"

text \<open>\<open>struct _sqlite3StmtRuby\<close> and \<open>struct _sqlite3BackupRuby\<close>.\<close>

record sqlite3StmtRuby =
  s_st :: "sth option"
  s_db :: "nat option"
  s_done_p :: cint

record sqlite3BackupRuby =
  b_p :: "bkh option"

definition zero_sqlite3Ruby :: sqlite3Ruby where
  "zero_sqlite3Ruby =
     \<lparr>d_db = None, d_busy_handler = RFalse, d_functions = None, d_collations = None,
      d_aggregators = None, d_trace_handler = RFalse, d_authorizer = RFalse,
      d_stmt_timeout = 0, d_stmt_deadline = timespecclear, d_owner = 0, d_flags = 0\<rparr>"

definition zero_sqlite3StmtRuby :: sqlite3StmtRuby where
  "zero_sqlite3StmtRuby = \<lparr>s_st = None, s_db = None, s_done_p = 0\<rparr>"

definition zero_sqlite3BackupRuby :: sqlite3BackupRuby where
  "zero_sqlite3BackupRuby = \<lparr>b_p = None\<rparr>"

text \<open>
  The instance variables of a Database object (\<open>@functions\<close>, \<open>@collations\<close>, the hidden
  \<open>-aggregators\<close> and \<open>@results_as_hash\<close>), of a Statement object (\<open>@connection\<close>, \<open>@columns\<close> and \<open>@types\<close>,
  \<open>None\<close> for \<open>nil\<close>), of an AggregatorWrapper and of an AggregatorInstance.
\<close>

record db_ivars =
  iv_functions :: "nat option"
  iv_collations :: "nat option"
  iv_aggregators :: "nat option"
  iv_results_as_hash :: rb_value

record stmt_ivars =
  iv_connection :: "nat option"
  iv_columns :: "rb_value list option"
  iv_types :: "rb_value list option"

record aggregator_wrapper =
  handler_klass :: rb_value
  instances :: "nat option"

record aggregator_instance =
  handler_instance :: rb_value
  exc_status :: cint

text \<open>
  The word SQLite keeps in an aggregate context: still zero (\<open>Qfalse\<close>), an instance, or
  \<open>Qnil\<close> after the instance was destroyed. \<open>None\<close> stands for a context SQLite has not
  allocated yet.
\<close>

datatype agg_slot = SlotFalse | SlotInst nat | SlotNil

section \<open>The world\<close>

record ('e, 'u) world =
  env :: 'e
  usr :: 'u
  pid :: int
  errinfo :: "rb_exn option"
  calls :: "sql_call list"
  dbs :: "nat \<Rightarrow> sqlite3Ruby"
  ivars :: "nat \<Rightarrow> db_ivars"
  stmts :: "nat \<Rightarrow> sqlite3StmtRuby"
  sivars :: "nat \<Rightarrow> stmt_ivars"
  backups :: "nat \<Rightarrow> sqlite3BackupRuby"
  aws :: "nat \<Rightarrow> aggregator_wrapper"
  insts :: "nat \<Rightarrow> aggregator_instance"
  aggmem :: "nat \<Rightarrow> agg_slot option"
  arys :: "nat \<Rightarrow> rb_value list"
  hashes :: "nat \<Rightarrow> (rb_value \<times> rb_value) list"
  next_ref :: nat

type_synonym ('e, 'u, 'a) rb = "(abort, ('e, 'u) world, 'a) act"

definition upd_db :: "nat \<Rightarrow> (sqlite3Ruby \<Rightarrow> sqlite3Ruby) \<Rightarrow> ('e, 'u) world \<Rightarrow> ('e, 'u) world" where
  "upd_db r f w = w\<lparr>dbs := (dbs w)(r := f (dbs w r))\<rparr>"

definition upd_ivars :: "nat \<Rightarrow> (db_ivars \<Rightarrow> db_ivars) \<Rightarrow> ('e, 'u) world \<Rightarrow> ('e, 'u) world" where
  "upd_ivars r f w = w\<lparr>ivars := (ivars w)(r := f (ivars w r))\<rparr>"

definition upd_stmt :: "nat \<Rightarrow> (sqlite3StmtRuby \<Rightarrow> sqlite3StmtRuby) \<Rightarrow> ('e, 'u) world \<Rightarrow> ('e, 'u) world" where
  "upd_stmt r f w = w\<lparr>stmts := (stmts w)(r := f (stmts w r))\<rparr>"

definition upd_sivars :: "nat \<Rightarrow> (stmt_ivars \<Rightarrow> stmt_ivars) \<Rightarrow> ('e, 'u) world \<Rightarrow> ('e, 'u) world" where
  "upd_sivars r f w = w\<lparr>sivars := (sivars w)(r := f (sivars w r))\<rparr>"

definition upd_backup :: "nat \<Rightarrow> (sqlite3BackupRuby \<Rightarrow> sqlite3BackupRuby) \<Rightarrow> ('e, 'u) world \<Rightarrow> ('e, 'u) world" where
  "upd_backup r f w = w\<lparr>backups := (backups w)(r := f (backups w r))\<rparr>"

definition upd_aw :: "nat \<Rightarrow> (aggregator_wrapper \<Rightarrow> aggregator_wrapper) \<Rightarrow> ('e, 'u) world \<Rightarrow> ('e, 'u) world" where
  "upd_aw r f w = w\<lparr>aws := (aws w)(r := f (aws w r))\<rparr>"

definition upd_inst :: "nat \<Rightarrow> (aggregator_instance \<Rightarrow> aggregator_instance) \<Rightarrow> ('e, 'u) world \<Rightarrow> ('e, 'u) world" where
  "upd_inst r f w = w\<lparr>insts := (insts w)(r := f (insts w r))\<rparr>"

definition upd_slot :: "nat \<Rightarrow> (agg_slot option \<Rightarrow> agg_slot option) \<Rightarrow> ('e, 'u) world \<Rightarrow> ('e, 'u) world" where
  "upd_slot r f w = w\<lparr>aggmem := (aggmem w)(r := f (aggmem w r))\<rparr>"

definition upd_ary :: "nat \<Rightarrow> (rb_value list \<Rightarrow> rb_value list) \<Rightarrow> ('e, 'u) world \<Rightarrow> ('e, 'u) world" where
  "upd_ary r f w = w\<lparr>arys := (arys w)(r := f (arys w r))\<rparr>"

definition upd_hash :: "nat \<Rightarrow> ((rb_value \<times> rb_value) list \<Rightarrow> (rb_value \<times> rb_value) list) \<Rightarrow> ('e, 'u) world \<Rightarrow> ('e, 'u) world" where
  "upd_hash r f w = w\<lparr>hashes := (hashes w)(r := f (hashes w r))\<rparr>"

lemmas upd_defs =
  upd_db_def upd_ivars_def upd_stmt_def upd_sivars_def upd_backup_def upd_aw_def upd_inst_def upd_slot_def
  upd_ary_def upd_hash_def

text \<open>A fresh reference for a new object.\<close>

definition fresh_ref :: "('e, 'u, nat) rb" where
  "fresh_ref = (\<lambda>w. (Inr (next_ref w), w\<lparr>next_ref := Suc (next_ref w)\<rparr>))"

section \<open>The stores\<close>

interpretation db_store: store "dbs" "upd_db"
  by unfold_locales (auto simp: upd_defs fun_eq_iff)

interpretation ivars_store: store "ivars" "upd_ivars"
  by unfold_locales (auto simp: upd_defs fun_eq_iff)

interpretation stmt_store: store "stmts" "upd_stmt"
  by unfold_locales (auto simp: upd_defs fun_eq_iff)

interpretation sivars_store: store "sivars" "upd_sivars"
  by unfold_locales (auto simp: upd_defs fun_eq_iff)

interpretation backup_store: store "backups" "upd_backup"
  by unfold_locales (auto simp: upd_defs fun_eq_iff)

interpretation aw_store: store "aws" "upd_aw"
  by unfold_locales (auto simp: upd_defs fun_eq_iff)

interpretation inst_store: store "insts" "upd_inst"
  by unfold_locales (auto simp: upd_defs fun_eq_iff)

interpretation slot_store: store "aggmem" "upd_slot"
  by unfold_locales (auto simp: upd_defs fun_eq_iff)

interpretation ary_store: store "arys" "upd_ary"
  by unfold_locales (auto simp: upd_defs fun_eq_iff)

interpretation hash_store: store "hashes" "upd_hash"
  by unfold_locales (auto simp: upd_defs fun_eq_iff)

lemmas store_simps [simp] =
  db_store.get_upd ivars_store.get_upd stmt_store.get_upd sivars_store.get_upd backup_store.get_upd
  aw_store.get_upd inst_store.get_upd slot_store.get_upd ary_store.get_upd hash_store.get_upd

text \<open>An update of one store leaves every other part of the world as it is.\<close>

lemma upd_db_frame [simp]:
  "env (upd_db r f w) = env w" "usr (upd_db r f w) = usr w" "pid (upd_db r f w) = pid w"
  "errinfo (upd_db r f w) = errinfo w" "calls (upd_db r f w) = calls w" "ivars (upd_db r f w) = ivars w"
  "stmts (upd_db r f w) = stmts w" "backups (upd_db r f w) = backups w" "aws (upd_db r f w) = aws w"
  "insts (upd_db r f w) = insts w" "aggmem (upd_db r f w) = aggmem w" "arys (upd_db r f w) = arys w"
  "hashes (upd_db r f w) = hashes w" "sivars (upd_db r f w) = sivars w" "next_ref (upd_db r f w) = next_ref w"
  by (simp_all add: upd_db_def)

lemma upd_ivars_frame [simp]:
  "env (upd_ivars r f w) = env w" "usr (upd_ivars r f w) = usr w" "pid (upd_ivars r f w) = pid w"
  "errinfo (upd_ivars r f w) = errinfo w" "calls (upd_ivars r f w) = calls w" "dbs (upd_ivars r f w) = dbs w"
  "stmts (upd_ivars r f w) = stmts w" "backups (upd_ivars r f w) = backups w" "aws (upd_ivars r f w) = aws w"
  "insts (upd_ivars r f w) = insts w" "aggmem (upd_ivars r f w) = aggmem w" "arys (upd_ivars r f w) = arys w"
  "hashes (upd_ivars r f w) = hashes w" "sivars (upd_ivars r f w) = sivars w" "next_ref (upd_ivars r f w) = next_ref w"
  by (simp_all add: upd_ivars_def)

lemma upd_stmt_frame [simp]:
  "env (upd_stmt r f w) = env w" "usr (upd_stmt r f w) = usr w" "pid (upd_stmt r f w) = pid w"
  "errinfo (upd_stmt r f w) = errinfo w" "calls (upd_stmt r f w) = calls w" "dbs (upd_stmt r f w) = dbs w"
  "ivars (upd_stmt r f w) = ivars w" "backups (upd_stmt r f w) = backups w" "aws (upd_stmt r f w) = aws w"
  "insts (upd_stmt r f w) = insts w" "aggmem (upd_stmt r f w) = aggmem w" "arys (upd_stmt r f w) = arys w"
  "hashes (upd_stmt r f w) = hashes w" "sivars (upd_stmt r f w) = sivars w" "next_ref (upd_stmt r f w) = next_ref w"
  by (simp_all add: upd_stmt_def)

lemma upd_sivars_frame [simp]:
  "env (upd_sivars r f w) = env w" "usr (upd_sivars r f w) = usr w" "pid (upd_sivars r f w) = pid w"
  "errinfo (upd_sivars r f w) = errinfo w" "calls (upd_sivars r f w) = calls w" "dbs (upd_sivars r f w) = dbs w"
  "ivars (upd_sivars r f w) = ivars w" "stmts (upd_sivars r f w) = stmts w" "backups (upd_sivars r f w) = backups w"
  "aws (upd_sivars r f w) = aws w" "insts (upd_sivars r f w) = insts w" "aggmem (upd_sivars r f w) = aggmem w"
  "arys (upd_sivars r f w) = arys w" "hashes (upd_sivars r f w) = hashes w" "next_ref (upd_sivars r f w) = next_ref w"
  by (simp_all add: upd_sivars_def)

lemma upd_backup_frame [simp]:
  "env (upd_backup r f w) = env w" "usr (upd_backup r f w) = usr w" "pid (upd_backup r f w) = pid w"
  "errinfo (upd_backup r f w) = errinfo w" "calls (upd_backup r f w) = calls w" "dbs (upd_backup r f w) = dbs w"
  "ivars (upd_backup r f w) = ivars w" "stmts (upd_backup r f w) = stmts w" "aws (upd_backup r f w) = aws w"
  "insts (upd_backup r f w) = insts w" "aggmem (upd_backup r f w) = aggmem w" "arys (upd_backup r f w) = arys w"
  "hashes (upd_backup r f w) = hashes w" "sivars (upd_backup r f w) = sivars w" "next_ref (upd_backup r f w) = next_ref w"
  by (simp_all add: upd_backup_def)

lemma upd_aw_frame [simp]:
  "env (upd_aw r f w) = env w" "usr (upd_aw r f w) = usr w" "pid (upd_aw r f w) = pid w"
  "errinfo (upd_aw r f w) = errinfo w" "calls (upd_aw r f w) = calls w" "dbs (upd_aw r f w) = dbs w"
  "ivars (upd_aw r f w) = ivars w" "stmts (upd_aw r f w) = stmts w" "backups (upd_aw r f w) = backups w"
  "insts (upd_aw r f w) = insts w" "aggmem (upd_aw r f w) = aggmem w" "arys (upd_aw r f w) = arys w"
  "hashes (upd_aw r f w) = hashes w" "sivars (upd_aw r f w) = sivars w" "next_ref (upd_aw r f w) = next_ref w"
  by (simp_all add: upd_aw_def)

lemma upd_inst_frame [simp]:
  "env (upd_inst r f w) = env w" "usr (upd_inst r f w) = usr w" "pid (upd_inst r f w) = pid w"
  "errinfo (upd_inst r f w) = errinfo w" "calls (upd_inst r f w) = calls w" "dbs (upd_inst r f w) = dbs w"
  "ivars (upd_inst r f w) = ivars w" "stmts (upd_inst r f w) = stmts w" "backups (upd_inst r f w) = backups w"
  "aws (upd_inst r f w) = aws w" "aggmem (upd_inst r f w) = aggmem w" "arys (upd_inst r f w) = arys w"
  "hashes (upd_inst r f w) = hashes w" "sivars (upd_inst r f w) = sivars w" "next_ref (upd_inst r f w) = next_ref w"
  by (simp_all add: upd_inst_def)

lemma upd_slot_frame [simp]:
  "env (upd_slot r f w) = env w" "usr (upd_slot r f w) = usr w" "pid (upd_slot r f w) = pid w"
  "errinfo (upd_slot r f w) = errinfo w" "calls (upd_slot r f w) = calls w" "dbs (upd_slot r f w) = dbs w"
  "ivars (upd_slot r f w) = ivars w" "stmts (upd_slot r f w) = stmts w" "backups (upd_slot r f w) = backups w"
  "aws (upd_slot r f w) = aws w" "insts (upd_slot r f w) = insts w" "arys (upd_slot r f w) = arys w"
  "hashes (upd_slot r f w) = hashes w" "sivars (upd_slot r f w) = sivars w" "next_ref (upd_slot r f w) = next_ref w"
  by (simp_all add: upd_slot_def)

lemma upd_ary_frame [simp]:
  "env (upd_ary r f w) = env w" "usr (upd_ary r f w) = usr w" "pid (upd_ary r f w) = pid w"
  "errinfo (upd_ary r f w) = errinfo w" "calls (upd_ary r f w) = calls w" "dbs (upd_ary r f w) = dbs w"
  "ivars (upd_ary r f w) = ivars w" "stmts (upd_ary r f w) = stmts w" "backups (upd_ary r f w) = backups w"
  "aws (upd_ary r f w) = aws w" "insts (upd_ary r f w) = insts w" "aggmem (upd_ary r f w) = aggmem w"
  "hashes (upd_ary r f w) = hashes w" "sivars (upd_ary r f w) = sivars w" "next_ref (upd_ary r f w) = next_ref w"
  by (simp_all add: upd_ary_def)

lemma upd_hash_frame [simp]:
  "env (upd_hash r f w) = env w" "usr (upd_hash r f w) = usr w" "pid (upd_hash r f w) = pid w"
  "errinfo (upd_hash r f w) = errinfo w" "calls (upd_hash r f w) = calls w" "dbs (upd_hash r f w) = dbs w"
  "ivars (upd_hash r f w) = ivars w" "stmts (upd_hash r f w) = stmts w" "backups (upd_hash r f w) = backups w"
  "aws (upd_hash r f w) = aws w" "insts (upd_hash r f w) = insts w" "aggmem (upd_hash r f w) = aggmem w"
  "arys (upd_hash r f w) = arys w" "sivars (upd_hash r f w) = sivars w" "next_ref (upd_hash r f w) = next_ref w"
  by (simp_all add: upd_hash_def)

section \<open>Calls to the library\<close>

definition sqlite_call :: "(sql_call \<Rightarrow> 'e \<Rightarrow> 'r \<times> 'e) \<Rightarrow> sql_call \<Rightarrow> ('e, 'u, 'r) rb" where
  "sqlite_call answer c =
     (\<lambda>w. let (r, e) = answer c (env w) in (Inr r, w\<lparr>env := e, calls := calls w @ [c]\<rparr>))"

text \<open>
  A call with callbacks: each callback runs in the extension with the handler \<open>H\<close>. A callback
  that aborts (an exception that leaves it unwinds the C stack) ends the call there.
\<close>

primrec exec_run ::
  "(cb_req \<Rightarrow> ('e, 'u, cb_res) rb) \<Rightarrow> ('e, 'r) run \<Rightarrow> ('e, 'u, 'r) rb" where
  "exec_run H (Return r e) = (\<lambda>w. (Inr r, w\<lparr>env := e\<rparr>))"
| "exec_run H (Callback e q k) =
     bindM (modM (\<lambda>w. w\<lparr>env := e\<rparr>)) (\<lambda>_. bindM (H q) (\<lambda>p. exec_run H (k p)))"

definition sqlite_run ::
  "(cb_req \<Rightarrow> ('e, 'u, cb_res) rb) \<Rightarrow> (sql_call \<Rightarrow> 'e \<Rightarrow> ('e, 'r) run) \<Rightarrow> sql_call \<Rightarrow> ('e, 'u, 'r) rb"
where
  "sqlite_run H answer c =
     bindM (modM (\<lambda>w. w\<lparr>calls := calls w @ [c]\<rparr>)) (\<lambda>_ w. exec_run H (answer c (env w)) w)"

text \<open>All the callbacks of a run, whatever they return, satisfy \<open>P\<close>.\<close>

primrec requests_in :: "(cb_req \<Rightarrow> bool) \<Rightarrow> ('e, 'r) run \<Rightarrow> bool" where
  "requests_in P (Return r e) \<longleftrightarrow> True"
| "requests_in P (Callback e q k) \<longleftrightarrow> P q \<and> (\<forall>p. requests_in P (k p))"

lemma requests_in_True [simp]: "requests_in (\<lambda>_. True) t"
  by (induction t) auto

text \<open>
  What holds for every callback holds for a whole call: the client of the callbacks' contract
  below is the library, and the contract is interpreted by each invariant of the extension.
\<close>

locale callback_invariant =
  fixes P :: "cb_req \<Rightarrow> bool"
    and I :: "('e, 'u) world \<Rightarrow> bool"
    and H :: "cb_req \<Rightarrow> ('e, 'u, cb_res) rb"
  assumes handler_keeps: "P q \<Longrightarrow> keeps I (H q)"
    and env_irrelevant: "I w \<Longrightarrow> I (w\<lparr>env := e\<rparr>)"
begin

lemma exec_run_keeps: "requests_in P t \<Longrightarrow> keeps I (exec_run H t)"
proof (induction t)
  case (Return r e)
  show ?case by (auto simp: keeps_def env_irrelevant)
next
  case (Callback e q k)
  have "keeps I (exec_run H (k p))" for p
    using Callback.prems by (intro Callback.IH) auto
  then show ?case
    using Callback.prems
    unfolding exec_run.simps by (intro keeps_bindM keeps_modM handler_keeps env_irrelevant) auto
qed

lemma sqlite_run_keeps:
  assumes "\<And>e. requests_in P (answer c e)"
    and "\<And>w e. I w \<Longrightarrow> I (w\<lparr>env := e, calls := calls w @ [c]\<rparr>)"
  shows "keeps I (sqlite_run H answer c)"
proof (rule keepsI)
  fix w assume "I w"
  then have "I (w\<lparr>env := env w, calls := calls w @ [c]\<rparr>)" by (rule assms(2))
  then have "I (w\<lparr>calls := calls w @ [c]\<rparr>)" by simp
  then show "I (snd (sqlite_run H answer c w))"
    using assms(1) by (simp add: sqlite_run_def bindM_def keepsD [OF exec_run_keeps])
qed

end

lemma sqlite_call_returns:
  "sqlite_call f c w = (Inr (fst (f c (env w))), w\<lparr>env := snd (f c (env w)), calls := calls w @ [c]\<rparr>)"
  by (simp add: sqlite_call_def split: prod.splits)

text \<open>
  \<open>allows I c\<close>: the invariant survives that the library moves and the call is recorded. Every
  invariant of the structs allows every call; an invariant of the record of calls allows the
  calls it is about.
\<close>

definition allows :: "(('e, 'u) world \<Rightarrow> bool) \<Rightarrow> sql_call \<Rightarrow> bool" where
  "allows I c \<longleftrightarrow> (\<forall>w e. I w \<longrightarrow> I (w\<lparr>env := e, calls := calls w @ [c]\<rparr>))"

lemma allowsI: "(\<And>w e. I w \<Longrightarrow> I (w\<lparr>env := e, calls := calls w @ [c]\<rparr>)) \<Longrightarrow> allows I c"
  by (simp add: allows_def)

lemma keeps_sqlite_call [keeps_intros]: "allows I c \<Longrightarrow> keeps I (sqlite_call f c)"
  by (simp add: allows_def keeps_def sqlite_call_returns)

section \<open>The interpreter\<close>

text \<open>
  \<open>rb_funcall\<close> on a user's object: the method's value, or the exception it raised.
\<close>

definition rb_funcall ::
  "'u rb_user \<Rightarrow> rb_value \<Rightarrow> string \<Rightarrow> rb_value list \<Rightarrow> ('e, 'u, rb_value) rb" where
  "rb_funcall U recv meth args =
     (\<lambda>w. case u_call U recv meth args (usr w) of
        (Inl x, u) \<Rightarrow> (Inl (Raised x), w\<lparr>usr := u\<rparr>)
      | (Inr v, u) \<Rightarrow> (Inr v, w\<lparr>usr := u\<rparr>))"

text \<open>
  \<open>rb_protect\<close>: runs an action, catches the exception it raises, leaves it in \<open>rb_errinfo\<close>
  and returns the tag (\<open>TAG_RAISE\<close> is 6), 0 when nothing was raised.
\<close>

definition TAG_RAISE :: cint where
  "TAG_RAISE = 6"

definition rb_protect :: "('e, 'u, 'a) rb \<Rightarrow> ('e, 'u, 'a option \<times> cint) rb" where
  "rb_protect m =
     (\<lambda>w. case m w of
        (Inl (Raised x), w') \<Rightarrow> (Inr (None, TAG_RAISE), w'\<lparr>errinfo := Some x\<rparr>)
      | (Inl (Undefined u), w') \<Rightarrow> (Inl (Undefined u), w')
      | (Inr a, w') \<Rightarrow> (Inr (Some a, 0), w'))"

lemma keeps_rb_protect:
  assumes "keeps I m" and "\<And>w x. I w \<Longrightarrow> I (w\<lparr>errinfo := Some x\<rparr>)"
  shows "keeps I (rb_protect m)"
  using assms by (auto simp: keeps_def rb_protect_def split: prod.splits sum.splits abort.splits)

lemma keeps_rb_funcall:
  assumes "\<And>w u. I w \<Longrightarrow> I (w\<lparr>usr := u\<rparr>)"
  shows "keeps I (rb_funcall U recv meth args)"
  using assms by (auto simp: keeps_def rb_funcall_def split: prod.splits sum.splits)

text \<open>Never undefined: the action only aborts by raising. Never raising: the converse.\<close>

fun is_raised :: "abort \<Rightarrow> bool" where
  "is_raised (Raised x) = True"
| "is_raised (Undefined u) = False"

abbreviation well_defined :: "('e, 'u, 'a) rb \<Rightarrow> bool" where
  "well_defined m \<equiv> aborts_in is_raised m"

abbreviation never_raises :: "('e, 'u, 'a) rb \<Rightarrow> bool" where
  "never_raises m \<equiv> aborts_in (\<lambda>x. \<not> is_raised x) m"

lemma aborts_in_sqlite_call [aborts_intros, simp]: "aborts_in P (sqlite_call f c)"
  by (simp add: aborts_in_def sqlite_call_returns)

lemma well_defined_rb_funcall [aborts_intros]: "well_defined (rb_funcall U recv meth args)"
  by (auto simp: aborts_in_def rb_funcall_def split: prod.splits sum.splits)

lemma never_raises_rb_protect [aborts_intros]: "never_raises (rb_protect m)"
  by (auto simp: aborts_in_def rb_protect_def split: prod.splits sum.splits abort.splits)

lemma well_defined_rb_protect [aborts_intros]:
  "well_defined m \<Longrightarrow> aborts_in P (rb_protect m)"
  by (auto simp: aborts_in_def rb_protect_def split: prod.splits sum.splits abort.splits)
    (metis fst_conv is_raised.simps(2))+

lemma well_defined_run:
  "well_defined m \<Longrightarrow> m w \<noteq> (Inl (Undefined u), w')"
  by (auto dest: aborts_inD)

text \<open>
  \<open>rb_ary_push\<close> and \<open>rb_hash_aset\<close> on the object an instance variable holds; on
  \<open>nil\<close> the C function would read a pointer that is none. A string key is stored as a frozen
  copy.
\<close>

definition rb_ary_push :: "nat option \<Rightarrow> rb_value \<Rightarrow> ('e, 'u, unit) rb" where
  "rb_ary_push a v =
     (case a of None \<Rightarrow> fail (Undefined NotAnArray) | Some r \<Rightarrow> modM (upd_ary r (\<lambda>vs. vs @ [v])))"

fun hash_aset :: "rb_value \<Rightarrow> rb_value \<Rightarrow> (rb_value \<times> rb_value) list \<Rightarrow> (rb_value \<times> rb_value) list" where
  "hash_aset k v [] = [(k, v)]"
| "hash_aset k v ((k', v') # kvs) = (if k' = k then (k', v) # kvs else (k', v') # hash_aset k v kvs)"

definition rb_hash_aset :: "nat option \<Rightarrow> rb_value \<Rightarrow> rb_value \<Rightarrow> ('e, 'u, unit) rb" where
  "rb_hash_aset h k v =
     (case h of None \<Rightarrow> fail (Undefined NotAnArray)
      | Some r \<Rightarrow> modM (upd_hash r (hash_aset (rb_obj_freeze k) v)))"

lemma map_of_hash_aset: "map_of (hash_aset k v kvs) = (map_of kvs)(k \<mapsto> v)"
  by (induction kvs) auto

lemma hash_aset_values: "(k, v) \<in> set (hash_aset k v kvs)"
  by (induction kvs) auto

end
