(* ===== verification/Samples.thy ===== *)
theory Samples
  imports World
begin

text \<open>
  Concrete parameters for the witnesses: a library that answers every call with success, a user
  whose methods return \<open>nil\<close>, and a world with nothing in it. The witnesses override the
  answers they are about. No definition of the model uses them.
\<close>

definition sample_lib :: "unit sqlite_lib" where
  "sample_lib =
     \<lparr>l_int = (\<lambda>c e. (0, e)), l_i64 = (\<lambda>c e. (0, e)), l_text = (\<lambda>c e. (Some ''text'', e)),
      l_column = (\<lambda>c e. (\<lparr>v_type = SQLITE_NULL, v_int64 = 0, v_double = 0, v_text = [], v_blob = []\<rparr>, e)),
      l_open = (\<lambda>c e. ((SQLITE_OK, Some 7), e)), l_file = (\<lambda>c e. ((SQLITE_OK, 3, True), e)),
      l_backup = (\<lambda>c e. (Some 5, e)), l_handle = (\<lambda>c e. (Some 7, e)),
      l_status = (\<lambda>c e. ((0, 0), e)),
      l_run = (\<lambda>c e. Return SQLITE_OK e),
      l_prepare = (\<lambda>c e. Return (SQLITE_OK, Some 9, []) e),
      l_exec = (\<lambda>c e. Return (SQLITE_OK, None) e),
      l_has_db_name = True, l_has_error_offset = True, l_has_dqs = True, l_long64 = True,
      l_little_endian = True\<rparr>"

definition sample_user :: "unit rb_user" where
  "sample_user =
     \<lparr>u_call = (\<lambda>r m args u. (Inr RNil, u)), u_respond_to = (\<lambda>r m. False),
      u_transcode = (\<lambda>a b s. Inr s), u_valid_encoding = (\<lambda>e s. True), u_default_internal = None, u_to_s = (\<lambda>r. ''db'')\<rparr>"

definition sample_world :: "(unit, unit) world" where
  "sample_world =
     \<lparr>env = (), usr = (), pid = 1, errinfo = None, calls = [],
      dbs = (\<lambda>_. zero_sqlite3Ruby),
      ivars = (\<lambda>_. \<lparr>iv_functions = None, iv_collations = None, iv_aggregators = None, iv_results_as_hash = RNil\<rparr>),
      stmts = (\<lambda>_. zero_sqlite3StmtRuby),
      sivars = (\<lambda>_. \<lparr>iv_connection = None, iv_columns = None, iv_types = None\<rparr>), backups = (\<lambda>_. zero_sqlite3BackupRuby),
      aws = (\<lambda>_. \<lparr>handler_klass = RNil, instances = None\<rparr>),
      insts = (\<lambda>_. \<lparr>handler_instance = RNil, exc_status = 0\<rparr>),
      aggmem = (\<lambda>_. None), arys = (\<lambda>_. []), hashes = (\<lambda>_. []), next_ref = 0\<rparr>"

lemmas sample_defs = sample_lib_def sample_user_def sample_world_def zero_sqlite3Ruby_def
  zero_sqlite3StmtRuby_def zero_sqlite3BackupRuby_def

end
