(* ===== verification/Native_Module.thy ===== *)
theory Native_Module
  imports World
begin

text \<open>
  \<open>ext/sqlite3/sqlite3.c\<close>: the conversion of a Ruby bignum to a 64-bit integer, in both
  variants the preprocessor chooses from (with \<open>rb_integer_pack\<close>, and on the digits of the
  bignum), and the module functions. The locale \<open>int64_packer\<close> is the contract the callers of
  \<open>bignum_to_int64\<close> rely on; both variants are interpretations of it.
\<close>

section \<open>The contract\<close>

locale int64_packer =
  fixes pack :: "int \<Rightarrow> i64 option"
  assumes pack_fits: "int_fits 64 v \<Longrightarrow> pack v = Some (word_of_int v)"
    and pack_overflow: "\<not> int_fits 64 v \<Longrightarrow> pack v = None"
begin

lemma pack_Some_iff: "pack v = Some r \<longleftrightarrow> sint r = v"
proof
  assume "pack v = Some r"
  then have "int_fits 64 v" "r = word_of_int v"
    using pack_fits pack_overflow by (cases "int_fits 64 v"; force)+
  then show "sint r = v"
    using sint_word_of_int [where 'a = 64, of v] by simp
next
  assume "sint r = v"
  then show "pack v = Some r"
    using pack_fits [of v] int_fits_sint [of r] by auto
qed

lemma pack_sint: "pack (sint r) = Some r"
  by (simp add: pack_Some_iff)

lemma pack_None_iff: "pack v = None \<longleftrightarrow> v < - (2 ^ 63) \<or> 2 ^ 63 \<le> v"
  using pack_fits [of v] pack_overflow [of v] by (cases "int_fits 64 v") (auto simp: int_fits_def)

lemma pack_inj: "pack v = Some r \<Longrightarrow> pack u = Some r \<Longrightarrow> v = u"
  by (simp add: pack_Some_iff)

end

section \<open>With rb_integer_pack\<close>

text \<open>
  \<open>rb_integer_pack(value, result, 1, 8, 0, NATIVE | 2COMP)\<close>: writes the low 64 bits in two's
  complement and returns the sign, doubled on overflow. The code then refuses what does not
  fit in the signed type.
\<close>

definition rb_integer_pack :: "int \<Rightarrow> int \<times> i64" where
  "rb_integer_pack v =
     (if v < - (2 ^ 64) then - 2 else if v < 0 then - 1 else if v = 0 then 0
      else if v < 2 ^ 64 then 1 else 2, word_of_int v)"

definition bignum_to_int64 :: "int \<Rightarrow> i64 option" where
  "bignum_to_int64 value =
     (let (t, result) = rb_integer_pack value in
      if t = - 2 \<or> t = 2 then None
      else if t = 1 then (if sint result < 0 then None else Some result)
      else if t = - 1 then (if sint result \<ge> 0 then None else Some result)
      else Some result)"

lemma sint_word_of_int_wrap:
  assumes "int_fits 64 (v + k * 2 ^ 64)"
  shows "sint (word_of_int v :: i64) = v + k * 2 ^ 64"
proof -
  have "(word_of_int (v + k * 2 ^ 64) :: i64) = word_of_int v"
    by (rule word_of_int_eq_iff [THEN iffD2]) (simp add: take_bit_eq_mod)
  with sint_word_of_int [where 'a = 64, of "v + k * 2 ^ 64"] assms show ?thesis
    by simp
qed

lemma bignum_to_int64_fits: "int_fits 64 v \<Longrightarrow> bignum_to_int64 v = Some (word_of_int v)"
  using sint_word_of_int [where 'a = 64, of v]
  by (auto simp: bignum_to_int64_def rb_integer_pack_def Let_def int_fits_def)

lemma bignum_to_int64_overflow:
  assumes "\<not> int_fits 64 v"
  shows "bignum_to_int64 v = None"
proof -
  consider "v < - (2 ^ 64)" | "2 ^ 64 \<le> v" | "2 ^ 63 \<le> v" "v < 2 ^ 64"
    | "v < - (2 ^ 63)" "- (2 ^ 64) \<le> v"
    using assms by (fastforce simp: int_fits_def)
  then show ?thesis
  proof cases
    case 3
    then have "sint (word_of_int v :: i64) = v + (- 1) * 2 ^ 64"
      by (intro sint_word_of_int_wrap) (simp add: int_fits_def)
    with 3 show ?thesis
      by (simp add: bignum_to_int64_def rb_integer_pack_def)
  next
    case 4
    then have "sint (word_of_int v :: i64) = v + 1 * 2 ^ 64"
      by (intro sint_word_of_int_wrap) (simp add: int_fits_def)
    with 4 show ?thesis
      by (simp add: bignum_to_int64_def rb_integer_pack_def)
  qed (simp_all add: bignum_to_int64_def rb_integer_pack_def)
qed

interpretation packed: int64_packer bignum_to_int64
  by unfold_locales (auto intro: bignum_to_int64_fits bignum_to_int64_overflow)

section \<open>On the digits of the bignum\<close>

text \<open>
  The digits of a bignum, least significant first and without leading zeros, in base
  \<open>2 ^ b\<close> where \<open>b = SIZEOF_BDIGITS * CHAR_BIT\<close>.
\<close>

function bdigits :: "nat \<Rightarrow> nat \<Rightarrow> nat list" where
  "bdigits b n = (if n = 0 \<or> b = 0 then [] else n mod 2 ^ b # bdigits b (n div 2 ^ b))"
  by pat_completeness auto
termination
  by (relation "measure snd") (auto intro!: div_less_dividend one_less_power simp flip: One_nat_def)

declare bdigits.simps [simp del]

text \<open>The loop \<open>while (i) { if (digits[--i]) { return 0; } }\<close>.\<close>

fun low_digits_zero :: "nat list \<Rightarrow> nat \<Rightarrow> bool" where
  "low_digits_zero ds 0 = True"
| "low_digits_zero ds (Suc i) = (if ds ! i \<noteq> 0 then False else low_digits_zero ds i)"

definition bignum_to_int64_digits :: "nat \<Rightarrow> int \<Rightarrow> i64 option" where
  "bignum_to_int64_digits b value =
     (let digits = bdigits b (nat \<bar>value\<bar>);
          len = length digits;
          blast = digits ! (len - 1);
          bmax = 2 ^ (63 mod b)
      in if len = 0 then Some 0
         else if 63 div b + 1 < len then None
         else if len = 63 div b + 1 \<and> bmax < blast then None
         else if len = 63 div b + 1 \<and> blast = bmax \<and> (0 \<le> value \<or> \<not> low_digits_zero digits (len - 1))
              then None
         else Some (word_of_int value))"

lemma bdigits_0 [simp]: "bdigits b 0 = []"
  by (subst bdigits.simps) simp

lemma bdigits_step: "0 < n \<Longrightarrow> 0 < b \<Longrightarrow> bdigits b n = n mod 2 ^ b # bdigits b (n div 2 ^ b)"
  by (subst bdigits.simps) simp

lemma bdigits_nth: "i < length (bdigits b n) \<Longrightarrow> bdigits b n ! i = n div 2 ^ (b * i) mod 2 ^ b"
proof (induction b n arbitrary: i rule: bdigits.induct)
  case (1 b n)
  show ?case
  proof (cases "n = 0 \<or> b = 0")
    case True
    with 1 show ?thesis by (simp add: bdigits.simps [of b n])
  next
    case False
    then show ?thesis
      using "1.IH" [of "i - 1"] "1.prems"
      by (cases i) (simp_all add: bdigits_step div_mult2_eq power_add)
  qed
qed

lemma bdigits_upper: "0 < b \<Longrightarrow> n < 2 ^ (b * length (bdigits b n))"
proof (induction b n rule: bdigits.induct)
  case (1 b n)
  show ?case
  proof (cases "n = 0")
    case False
    with 1 have "n div 2 ^ b < 2 ^ (b * length (bdigits b (n div 2 ^ b)))" by simp
    then have "n < 2 ^ (b * length (bdigits b (n div 2 ^ b))) * 2 ^ b"
      by (simp add: less_mult_imp_div_less div_less_iff_less_mult)
    with False 1 show ?thesis by (simp add: bdigits_step power_add mult.commute)
  qed simp
qed

lemma bdigits_lower:
  "0 < b \<Longrightarrow> 0 < n \<Longrightarrow> bdigits b n \<noteq> [] \<and> 2 ^ (b * (length (bdigits b n) - 1)) \<le> n"
proof (induction b n rule: bdigits.induct)
  case (1 b n)
  let ?q = "n div 2 ^ b"
  show ?case
  proof (cases "?q = 0")
    case True
    with 1 show ?thesis by (simp add: bdigits_step)
  next
    case False
    with 1 have IH: "bdigits b ?q \<noteq> []" "2 ^ (b * (length (bdigits b ?q) - 1)) \<le> ?q" by auto
    then have "2 ^ (b * (length (bdigits b ?q) - 1)) * 2 ^ b \<le> n"
      by (metis div_times_less_eq_dividend mult_le_mono1 order_trans)
    moreover have "b * (length (bdigits b ?q) - 1) + b = b * length (bdigits b ?q)"
      using IH(1) by (cases "bdigits b ?q") simp_all
    ultimately show ?thesis using 1 by (simp add: bdigits_step flip: power_add)
  qed
qed

lemma low_digits_zero_iff: "low_digits_zero ds i \<longleftrightarrow> (\<forall>j<i. ds ! j = 0)"
  by (induction i) (auto simp: less_Suc_eq)

lemma low_digits_mod:
  "(\<forall>j<i. n div 2 ^ (b * j) mod 2 ^ b = 0) \<longleftrightarrow> n mod 2 ^ (b * i) = (0 :: nat)"
proof (induction i)
  case (Suc i)
  have "n mod 2 ^ (b * Suc i) = 2 ^ (b * i) * (n div 2 ^ (b * i) mod 2 ^ b) + n mod 2 ^ (b * i)"
    using mod_mult2_eq [of n "2 ^ (b * i)" "2 ^ b"] by (simp add: power_add mult.commute)
  with Suc show ?case by (auto simp: less_Suc_eq)
qed simp

text \<open>The range of \<open>sqlite3_int64\<close>, said of the magnitude and of its leading digit.\<close>

lemma int_fits_magnitude: "int_fits 64 v \<longleftrightarrow> nat \<bar>v\<bar> < 2 ^ 63 \<or> v < 0 \<and> nat \<bar>v\<bar> = 2 ^ 63"
  by (auto simp: int_fits_def)

lemma int_fits_leading:
  assumes "P * M = (2 :: nat) ^ 63"
  shows "int_fits 64 v \<longleftrightarrow>
    nat \<bar>v\<bar> div P < M \<or> nat \<bar>v\<bar> div P = M \<and> nat \<bar>v\<bar> mod P = 0 \<and> v < 0"
proof -
  let ?n = "nat \<bar>v\<bar>"
  have P: "0 < P" using assms by (cases P) simp_all
  have "?n < 2 ^ 63 \<longleftrightarrow> ?n div P < M"
    using P assms by (simp add: div_less_iff_less_mult mult.commute)
  moreover have "?n = 2 ^ 63 \<longleftrightarrow> ?n div P = M \<and> ?n mod P = 0"
    using P assms by (metis add.right_neutral div_mult_mod_eq mult.commute nonzero_mult_div_cancel_left mod_mult_self1_is_0
        less_numeral_extra(3))
  ultimately show ?thesis unfolding int_fits_magnitude by blast
qed

text \<open>With at most \<open>m - 1\<close> digits an integer fits, with more than \<open>m\<close> it does not.\<close>

lemma few_digits_fit:
  assumes "0 < b" and "length (bdigits b (nat \<bar>v\<bar>)) \<le> k" and "b * k \<le> 63"
  shows "int_fits 64 v"
proof -
  have "b * length (bdigits b (nat \<bar>v\<bar>)) \<le> 63"
    using assms(2,3) by (meson mult_le_mono2 order_trans)
  then have "(2 :: nat) ^ (b * length (bdigits b (nat \<bar>v\<bar>))) \<le> 2 ^ 63" by (intro power_increasing) simp_all
  with bdigits_upper [OF assms(1), of "nat \<bar>v\<bar>"] have "nat \<bar>v\<bar> < 2 ^ 63" by (rule less_le_trans)
  then show ?thesis by (simp only: int_fits_magnitude simp_thms)
qed

lemma many_digits_overflow:
  assumes "0 < b" and "m < length (bdigits b (nat \<bar>v\<bar>))" and "b * m = 64"
  shows "\<not> int_fits 64 v"
proof -
  let ?n = "nat \<bar>v\<bar>"
  have "0 < ?n" using assms(2) by (cases "?n = 0") auto
  moreover have "64 \<le> b * (length (bdigits b ?n) - 1)"
    using assms(2,3) mult_le_mono2 [of m "length (bdigits b ?n) - 1" b] by simp
  then have "(2 :: nat) ^ 64 \<le> 2 ^ (b * (length (bdigits b ?n) - 1))" by (intro power_increasing) simp_all
  ultimately have "2 ^ 64 \<le> ?n" using bdigits_lower [of b ?n] assms(1) by (meson order_trans)
  moreover have "(2 :: nat) ^ 63 < 2 ^ 64" by simp
  ultimately show ?thesis unfolding int_fits_magnitude by linarith
qed

text \<open>With exactly \<open>m\<close> digits the leading digit and the test of the others decide.\<close>

lemma leading_digit:
  assumes "0 < b" and "length (bdigits b n) = Suc k"
  shows "bdigits b n ! k = n div 2 ^ (b * k)"
proof -
  have "n < 2 ^ (b * k) * 2 ^ b"
    using bdigits_upper [OF assms(1), of n] assms(2) by (simp add: power_add mult.commute)
  then have "n div 2 ^ (b * k) < 2 ^ b" by (simp add: less_mult_imp_div_less mult.commute)
  then show ?thesis using bdigits_nth [of k b n] assms(2) by simp
qed

lemma other_digits:
  assumes "length (bdigits b n) = Suc k"
  shows "low_digits_zero (bdigits b n) k \<longleftrightarrow> n mod 2 ^ (b * k) = 0"
  using bdigits_nth [of _ b n] assms low_digits_mod [where n = n and b = b and i = k]
  by (simp add: low_digits_zero_iff)

text \<open>For digits that divide the 64 bits the digit test is the range test.\<close>

lemma bignum_to_int64_digits_spec:
  assumes b: "0 < b" "b dvd 64"
  shows "bignum_to_int64_digits b v = (if int_fits 64 v then Some (word_of_int v) else None)"
proof -
  obtain m where m: "64 = b * m" using b by (auto elim: dvdE)
  then obtain k where k: "m = Suc k" by (cases m) auto
  obtain c where c: "b = Suc c" using b by (cases b) auto
  have sixty3: "63 = b * k + c" using m k c by simp
  have "c < b" using c by simp
  then have dm: "63 div b = k" "63 mod b = c" unfolding sixty3 by simp_all
  define n where "n = nat \<bar>v\<bar>"
  define ds where "ds = bdigits b n"
  note code = bignum_to_int64_digits_def Let_def dm n_def [symmetric] ds_def [symmetric]
  consider "ds = []" | "ds \<noteq> []" "length ds \<le> k" | "length ds = Suc k" | "Suc k < length ds" by linarith
  then show ?thesis
  proof cases
    case 1
    then have "n = 0" using bdigits_lower [of b n] b by (auto simp: ds_def)
    then have "v = 0" by (simp add: n_def)
    then show ?thesis by (simp add: bignum_to_int64_digits_def int_fits_def)
  next
    case 2
    then have "int_fits 64 v" using few_digits_fit [of b v k] b sixty3 by (simp add: ds_def n_def)
    with 2 show ?thesis by (simp add: code)
  next
    case 3
    have "2 ^ (b * k) * 2 ^ c = (2 :: nat) ^ 63" by (subst sixty3) (simp only: power_add)
    moreover have "ds ! k = n div 2 ^ (b * k)" "low_digits_zero ds k \<longleftrightarrow> n mod 2 ^ (b * k) = 0"
      using leading_digit [of b n k] other_digits [of b n k] 3 b by (simp_all add: ds_def)
    ultimately show ?thesis
      using 3 int_fits_leading [of "2 ^ (b * k)" "2 ^ c" v] by (auto simp: code simp flip: n_def)
  next
    case 4
    then have "\<not> int_fits 64 v" using many_digits_overflow [of b m v] b m k by (simp add: ds_def n_def)
    with 4 show ?thesis by (auto simp: code)
  qed
qed

interpretation digits32: int64_packer "bignum_to_int64_digits 32"
  by unfold_locales (simp_all add: bignum_to_int64_digits_spec)

interpretation digits64: int64_packer "bignum_to_int64_digits 64"
  by unfold_locales (simp_all add: bignum_to_int64_digits_spec)

text \<open>C28: the two variants of \<open>bignum_to_int64\<close> the preprocessor chooses from are the same
  function, for every size of the digits, and both convert exactly the integers of the signed
  64-bit range: the result, read as a signed integer, is the bignum.\<close>

theorem bignum_variants_equal:
  assumes "0 < b" and "b dvd 64"
  shows "bignum_to_int64_digits b v = bignum_to_int64 v \<and>
    (bignum_to_int64 v = Some r \<longleftrightarrow> sint r = v) \<and>
    (bignum_to_int64 v = None \<longleftrightarrow> v < - (2 ^ 63) \<or> 2 ^ 63 \<le> v)"
proof -
  have "bignum_to_int64_digits b v = bignum_to_int64 v"
    using bignum_to_int64_digits_spec [OF assms, of v]
    by (simp add: packed.pack_fits packed.pack_overflow)
  then show ?thesis
    by (simp add: packed.pack_Some_iff packed.pack_None_iff)
qed

theorem bignum_variants_equal_witness:
  "bignum_to_int64_digits 16 (2 ^ 62) = bignum_to_int64 (2 ^ 62) \<and>
    (bignum_to_int64 (2 ^ 62) = Some (2 ^ 62) \<longleftrightarrow> sint (2 ^ 62 :: i64) = 2 ^ 62) \<and>
    (bignum_to_int64 (2 ^ 62) = None \<longleftrightarrow> (2 ^ 62 :: int) < - (2 ^ 63) \<or> (2 ^ 63 :: int) \<le> 2 ^ 62)"
  by (rule bignum_variants_equal) simp_all

section \<open>Module functions\<close>

definition libversion :: "'e sqlite_lib \<Rightarrow> ('e, 'u, rb_value) rb" where
  "libversion L = bindM (sqlite_call (l_int L) Libversion_number) (\<lambda>n. ret (INT2NUM n))"

definition using_sqlcipher :: "bool \<Rightarrow> rb_value" where
  "using_sqlcipher USING_SQLCIPHER = rb_bool USING_SQLCIPHER"

definition threadsafe_p :: "'e sqlite_lib \<Rightarrow> ('e, 'u, rb_value) rb" where
  "threadsafe_p L = bindM (sqlite_call (l_int L) Threadsafe) (\<lambda>n. ret (INT2NUM n))"

definition rb_sqlite3_status ::
  "'e sqlite_lib \<Rightarrow> rb_value \<Rightarrow> rb_value \<Rightarrow> ('e, 'u, rb_value) rb" where
  "rb_sqlite3_status L opArg resetFlagArg =
     bindM (liftE (NUM2INT opArg)) (\<lambda>op.
     bindM (sqlite_call (l_status L) (Status op (if RTEST resetFlagArg then 1 else 0)))
       (\<lambda>(pCurrent, pHighwater).
     ret (RHash [(RSymbol ''current'', INT2NUM pCurrent),
                 (RSymbol ''highwater'', INT2NUM pHighwater)])))"

end
