(* ===== verification/Conversion.thy ===== *)
theory Conversion
  imports Samples Native_Module
begin

text \<open>
  \<open>ext/sqlite3/database.c\<close>, the values at the border: \<open>sqlite3val2rb\<close> (an argument of SQLite
  for Ruby), \<open>set_sqlite3_func_result\<close> (a result of Ruby for SQLite) and the callback of a
  scalar function, which runs the user's block under \<open>rb_protect\<close>.

  The byte length of a string is passed to SQLite as an \<open>int\<close>; the model is for strings
  shorter than 2 GiB, for which the cast is exact.
\<close>

definition sqlite3val2rb :: "sqlite3_value \<Rightarrow> abort + rb_value" where
  "sqlite3val2rb val =
     (if v_type val = SQLITE_INTEGER then Inr (LL2NUM (v_int64 val))
      else if v_type val = SQLITE_FLOAT then Inr (RFloat (v_double val))
      else if v_type val = SQLITE_TEXT then Inr (rb_obj_freeze (rb_utf8_str_new (v_text val)))
      else if v_type val = SQLITE_BLOB then Inr (rb_obj_freeze (rb_str_new (v_blob val)))
      else if v_type val = SQLITE_NULL then Inr RNil
      else Inl (Raised (rb_error RuntimeError ''bad type'')))"

text \<open>The name of a value's class, for the messages.\<close>

fun rb_class2name :: "rb_value \<Rightarrow> string" where
  "rb_class2name RNil = ''NilClass''"
| "rb_class2name RTrue = ''TrueClass''"
| "rb_class2name RFalse = ''FalseClass''"
| "rb_class2name (RInteger n) = ''Integer''"
| "rb_class2name (RFloat x) = ''Float''"
| "rb_class2name (RString b e s f) = (if b then ''SQLite3::Blob'' else ''String'')"
| "rb_class2name (RSymbol s) = ''Symbol''"
| "rb_class2name (RArray vs) = ''Array''"
| "rb_class2name (RHash kvs) = ''Hash''"
| "rb_class2name _ = ''Object''"

text \<open>
  A bignum is converted with \<open>bignum_to_int64\<close> only where \<open>SIZEOF_LONG < 8\<close>; it falls
  through to the double otherwise.
\<close>

definition set_sqlite3_func_result :: "'e sqlite_lib \<Rightarrow> rb_value \<Rightarrow> abort + func_result" where
  "set_sqlite3_func_result L result =
     (case result of
        RNil \<Rightarrow> Inr FR_null
      | RInteger n \<Rightarrow>
          if fixnum_p n then Inr (FR_int64 (FIX2LONG n))
          else (case (if l_long64 L then None else bignum_to_int64 n) of
                  Some num64 \<Rightarrow> Inr (FR_int64 num64)
                | None \<Rightarrow> map_sum id FR_double (NUM2DBL result))
      | RFloat x \<Rightarrow> map_sum id FR_double (NUM2DBL result)
      | RString blob enc s frozen \<Rightarrow>
          if blob \<or> enc = ASCII_8BIT then Inr (FR_blob s) else Inr (FR_text s)
      | _ \<Rightarrow> Inl (Raised (rb_error RuntimeError (''can't return '' @ rb_class2name result))))"

section \<open>The callback of a scalar function\<close>

definition rb_sqlite3_func_protected ::
  "'e sqlite_lib \<Rightarrow> 'u rb_user \<Rightarrow> rb_value \<Rightarrow> sqlite3_value list \<Rightarrow> ('e, 'u, func_result) rb" where
  "rb_sqlite3_func_protected L U callable argv =
     bindM (mapM (\<lambda>a. liftE (sqlite3val2rb a)) argv) (\<lambda>params.
     bindM (rb_funcall U callable ''call'' params) (\<lambda>result.
     liftE (set_sqlite3_func_result L result)))"

definition rb_sqlite3_func ::
  "'e sqlite_lib \<Rightarrow> 'u rb_user \<Rightarrow> rb_value \<Rightarrow> sqlite3_value list \<Rightarrow> ('e, 'u, func_result) rb" where
  "rb_sqlite3_func L U callable argv =
     bindM (rb_protect (rb_sqlite3_func_protected L U callable argv)) (\<lambda>(r, exc_status).
     ret (if exc_status \<noteq> 0 then FR_error ''Ruby Exception occurred''
          else case r of Some x \<Rightarrow> x | None \<Rightarrow> FR_none))"

section \<open>Round trips\<close>

text \<open>What SQLite should get back when a function returns its argument unchanged.\<close>

definition value_result :: "sqlite3_value \<Rightarrow> func_result" where
  "value_result v =
     (if v_type v = SQLITE_INTEGER then FR_int64 (v_int64 v)
      else if v_type v = SQLITE_FLOAT then FR_double (v_double v)
      else if v_type v = SQLITE_TEXT then FR_text (v_text v)
      else if v_type v = SQLITE_BLOB then FR_blob (v_blob v)
      else FR_null)"

definition valid_type :: "cint \<Rightarrow> bool" where
  "valid_type t \<longleftrightarrow> t \<in> {SQLITE_INTEGER, SQLITE_FLOAT, SQLITE_TEXT, SQLITE_BLOB, SQLITE_NULL}"

lemma sqlite3val2rb_total: "valid_type (v_type v) \<longleftrightarrow> (\<exists>r. sqlite3val2rb v = Inr r)"
  by (auto simp: sqlite3val2rb_def valid_type_def)

lemma set_result_integer:
  "set_sqlite3_func_result L (LL2NUM x) =
     Inr (if fixnum_p (sint x) \<or> \<not> l_long64 L then FR_int64 x
          else FR_double (int_to_double (sint x)))"
  by (simp add: set_sqlite3_func_result_def LL2NUM_def NUM2DBL_def packed.pack_sint)

text \<open>C30: a value that SQLite passes to a Ruby function and the function returns unchanged
  comes back with its type and its content, for every text, blob, float, null and every integer
  in the fixnum range, from \<open>-2^62\<close> to \<open>2^62 - 1\<close>. (What becomes of the larger ones is C40.)\<close>

theorem function_value_roundtrip:
  assumes "valid_type (v_type v)"
    and "v_type v = SQLITE_INTEGER \<longrightarrow> fixnum_p (sint (v_int64 v))"
    and "sqlite3val2rb v = Inr r"
  shows "set_sqlite3_func_result L r = Inr (value_result v)"
  using assms
  by (auto simp: sqlite3val2rb_def valid_type_def value_result_def set_result_integer
      set_sqlite3_func_result_def [of L "RFloat _"] set_sqlite3_func_result_def [of L RNil]
      set_sqlite3_func_result_def [of L "RString _ _ _ _"]
      rb_utf8_str_new_def rb_str_new_def NUM2DBL_def split: if_splits)

theorem function_value_roundtrip_witness:
  "set_sqlite3_func_result sample_lib (RString False UTF_8 ''ab'' True) =
     Inr (value_result \<lparr>v_type = SQLITE_TEXT, v_int64 = 0, v_double = 0, v_text = ''ab'', v_blob = ''''\<rparr>)"
  by (rule function_value_roundtrip)
    (simp_all add: valid_type_def sqlite3val2rb_def rb_utf8_str_new_def)

text \<open>C40: on a build whose \<open>long\<close> has 64 bits an integer of SQLite outside the fixnum range
  is returned as a double, although it fits in the 64-bit integer that \<open>bind_param\<close> would
  bind: distinct integers come back equal.\<close>

theorem function_result_large_integer:
  assumes "l_long64 L" and "\<not> fixnum_p (sint x)"
  shows "set_sqlite3_func_result L (LL2NUM x) = Inr (FR_double (int_to_double (sint x))) \<and>
    bignum_to_int64 (sint x) = Some x"
  using assms by (simp add: set_result_integer packed.pack_sint)

theorem function_result_large_integer_witness:
  "set_sqlite3_func_result sample_lib (LL2NUM (2 ^ 62)) =
      Inr (FR_double (int_to_double (sint (2 ^ 62 :: i64)))) \<and>
    bignum_to_int64 (sint (2 ^ 62 :: i64)) = Some (2 ^ 62)"
  by (rule function_result_large_integer) (simp_all add: fixnum_p_def sample_lib_def)

section \<open>No exception crosses SQLite in a scalar function\<close>

lemma sqlite3val2rb_aborts: "sqlite3val2rb v = Inl x \<Longrightarrow> is_raised x"
  by (auto simp: sqlite3val2rb_def split: if_splits)

lemma set_sqlite3_func_result_aborts: "set_sqlite3_func_result L v = Inl x \<Longrightarrow> is_raised x"
  by (auto simp: set_sqlite3_func_result_def NUM2DBL_def
      split: rb_value.splits if_splits option.splits)

lemma well_defined_func_protected [aborts_intros]:
  "well_defined (rb_sqlite3_func_protected L U callable argv)"
  unfolding rb_sqlite3_func_protected_def
  by (intro aborts_intros) (auto dest: sqlite3val2rb_aborts set_sqlite3_func_result_aborts)

text \<open>C29: the callback of a scalar function never unwinds through the frames of SQLite:
  whatever the block does, the callback returns a result to SQLite. It returns the error value
  exactly when something was raised, and then the exception is the pending one of the
  interpreter, for \<open>Statement#step\<close> to raise again.\<close>

theorem scalar_function_contained:
  "\<exists>r w'. rb_sqlite3_func L U callable argv w = (Inr r, w') \<and>
     (case rb_sqlite3_func_protected L U callable argv w of
        (Inl (Raised x), w1) \<Rightarrow> r = FR_error ''Ruby Exception occurred'' \<and> w' = w1\<lparr>errinfo := Some x\<rparr>
      | (Inl (Undefined u), w1) \<Rightarrow> False
      | (Inr v, w1) \<Rightarrow> r = v \<and> w' = w1)"
  using well_defined_run [OF well_defined_func_protected, of L U callable argv w]
  by (auto simp: rb_sqlite3_func_def rb_protect_def bindM_def TAG_RAISE_def
      split: prod.splits sum.splits abort.splits)

lemma keeps_rb_sqlite3_func [keeps_intros]:
  assumes "\<And>w u. I w \<Longrightarrow> I (w\<lparr>usr := u\<rparr>)" and "\<And>w x. I w \<Longrightarrow> I (w\<lparr>errinfo := Some x\<rparr>)"
  shows "keeps I (rb_sqlite3_func L U callable argv)"
  unfolding rb_sqlite3_func_def rb_sqlite3_func_protected_def
  using assms by (intro keeps_intros keeps_rb_protect keeps_rb_funcall)

end
