(* ===== verification/Exceptions.thy ===== *)
theory Exceptions
  imports World
begin

unbundle bit_operations_syntax

text \<open>
  \<open>ext/sqlite3/exception.c\<close>: from the result codes of SQLite to the exception classes of the
  gem, and the three functions behind the macros \<open>CHECK\<close>, \<open>CHECK_MSG\<close> and
  \<open>CHECK_PREPARE\<close>.
\<close>

definition status2klass :: "cint \<Rightarrow> rb_class option" where
  "status2klass status =
     (let c = status AND 0xff in
      if c = SQLITE_OK then None
      else if c = SQLITE_ERROR then Some SQLException
      else if c = SQLITE_INTERNAL then Some InternalException
      else if c = SQLITE_PERM then Some PermissionException
      else if c = SQLITE_ABORT then Some AbortException
      else if c = SQLITE_BUSY then Some BusyException
      else if c = SQLITE_LOCKED then Some LockedException
      else if c = SQLITE_NOMEM then Some MemoryException
      else if c = SQLITE_READONLY then Some ReadOnlyException
      else if c = SQLITE_INTERRUPT then Some InterruptException
      else if c = SQLITE_IOERR then Some IOException
      else if c = SQLITE_CORRUPT then Some CorruptException
      else if c = SQLITE_NOTFOUND then Some NotFoundException
      else if c = SQLITE_FULL then Some FullException
      else if c = SQLITE_CANTOPEN then Some CantOpenException
      else if c = SQLITE_PROTOCOL then Some ProtocolException
      else if c = SQLITE_EMPTY then Some EmptyException
      else if c = SQLITE_SCHEMA then Some SchemaChangedException
      else if c = SQLITE_TOOBIG then Some TooBigException
      else if c = SQLITE_CONSTRAINT then Some ConstraintException
      else if c = SQLITE_MISMATCH then Some MismatchException
      else if c = SQLITE_MISUSE then Some MisuseException
      else if c = SQLITE_NOLFS then Some UnsupportedException
      else if c = SQLITE_AUTH then Some AuthorizationException
      else if c = SQLITE_FORMAT then Some FormatException
      else if c = SQLITE_RANGE then Some RangeException
      else if c = SQLITE_NOTADB then Some NotADatabaseException
      else Some SQLite3_Exception)"

text \<open>
  \<open>rb_exc_new2\<close> on a message that is NULL raises ArgumentError in Ruby's own code.
\<close>

definition rb_exc_new2 :: "string option \<Rightarrow> ('e, 'u, string) rb" where
  "rb_exc_new2 msg =
     (case msg of
        None \<Rightarrow> fail (Raised (rb_error ArgumentError ''NULL pointer given''))
      | Some m \<Rightarrow> ret (cstr m))"

definition rb_sqlite3_raise :: "'e sqlite_lib \<Rightarrow> dbh option \<Rightarrow> cint \<Rightarrow> ('e, 'u, unit) rb" where
  "rb_sqlite3_raise L db status =
     (case status2klass status of
        None \<Rightarrow> ret ()
      | Some klass \<Rightarrow>
          bindM (sqlite_call (l_text L) (DbCall db Errmsg)) (\<lambda>errmsg.
          bindM (rb_exc_new2 errmsg) (\<lambda>msg.
          fail (Raised (Exn klass msg (Some (sint status)) None None)))))"

definition rb_sqlite3_raise_msg :: "cint \<Rightarrow> string option \<Rightarrow> ('e, 'u, unit) rb" where
  "rb_sqlite3_raise_msg status msg =
     (case status2klass status of
        None \<Rightarrow> ret ()
      | Some klass \<Rightarrow>
          bindM (rb_exc_new2 msg) (\<lambda>m.
          fail (Raised (Exn klass m (Some (sint status)) None None))))"

definition rb_sqlite3_raise_with_sql ::
  "'e sqlite_lib \<Rightarrow> dbh option \<Rightarrow> cint \<Rightarrow> string option \<Rightarrow> ('e, 'u, unit) rb" where
  "rb_sqlite3_raise_with_sql L db status sql =
     (case status2klass status of
        None \<Rightarrow> ret ()
      | Some klass \<Rightarrow>
          bindM (sqlite_call (l_text L) (DbCall db Errmsg)) (\<lambda>error_msg.
          bindM (if l_has_error_offset L then sqlite_call (l_int L) (DbCall db Error_offset)
                 else ret (- 1)) (\<lambda>error_offset.
          bindM (rb_exc_new2 error_msg) (\<lambda>msg.
          fail (Raised (case sql of
              None \<Rightarrow> Exn klass msg (Some (sint status)) None None
            | Some q \<Rightarrow> Exn klass msg (Some (sint status)) (Some (cstr q))
                         (Some (sint error_offset))))))))"

section \<open>The classes\<close>

text \<open>The classes of \<open>lib/sqlite3/errors.rb\<close> in the order of SQLite's primary codes 1 to 26.\<close>

definition class_table :: "rb_class list" where
  "class_table =
     [SQLException, InternalException, PermissionException, AbortException, BusyException,
      LockedException, MemoryException, ReadOnlyException, InterruptException, IOException,
      CorruptException, NotFoundException, FullException, CantOpenException,
      ProtocolException, EmptyException, SchemaChangedException, TooBigException,
      ConstraintException, MismatchException, MisuseException, UnsupportedException,
      AuthorizationException, FormatException, RangeException, NotADatabaseException]"

definition status_class :: "nat \<Rightarrow> rb_class option" where
  "status_class c =
     (if c = 0 then None
      else if c \<le> length class_table then Some (class_table ! (c - 1))
      else Some SQLite3_Exception)"

lemma low_byte_less: "unat ((x :: cint) AND 0xff) < 256"
proof -
  have "x AND 0xff = take_bit 8 x"
    by (simp add: take_bit_eq_mask mask_numeral)
  moreover have "unat (take_bit 8 x) < 2 ^ 8"
    using take_bit_nat_less_exp [of 8 "unat x"] by (simp add: unsigned_take_bit_eq)
  ultimately show ?thesis by simp
qed

lemma status2klass_chain:
  "status2klass status = (let k = unat (status AND 0xff) in
     if k = 0 then None else if k \<le> 26 then Some (class_table ! (k - 1))
     else Some SQLite3_Exception)"
proof -
  define k where "k = unat (status AND 0xff)"
  have low: "status AND 0xff = word_of_nat k"
    by (simp add: k_def)
  consider "k \<in> set [0..<27]" | "26 < k" "k < 256"
    using low_byte_less [of status] by (fastforce simp: k_def)
  then show ?thesis
  proof cases
    case 1
    then show ?thesis
      unfolding status2klass_def low k_def [symmetric]
      by (auto simp: class_table_def upt_rec)
  next
    case 2
    have "unat (word_of_nat k :: cint) = k"
      by (metis low k_def)
    with 2 show ?thesis
      unfolding status2klass_def low k_def [symmetric]
      by (simp add: word_unat_eq_iff)
  qed
qed

lemma length_class_table: "length class_table = 26"
  by (simp add: class_table_def)

lemma distinct_class_table: "distinct class_table" "SQLite3_Exception \<notin> set class_table"
  by (simp_all add: class_table_def)

lemma status2klass_status_class: "status2klass status = status_class (unat (status AND 0xff))"
  by (simp add: status2klass_chain status_class_def length_class_table Let_def)

section \<open>The raising functions\<close>

lemma keeps_rb_exc_new2 [keeps_intros]: "keeps I (rb_exc_new2 msg)"
  by (simp add: rb_exc_new2_def split: option.splits)

lemma keeps_rb_sqlite3_raise [keeps_intros]:
  "allows I (DbCall db Errmsg) \<Longrightarrow> keeps I (rb_sqlite3_raise L db status)"
  unfolding rb_sqlite3_raise_def by (intro keeps_intros)

lemma keeps_rb_sqlite3_raise_msg [keeps_intros]: "keeps I (rb_sqlite3_raise_msg status msg)"
  unfolding rb_sqlite3_raise_msg_def by (intro keeps_intros)

lemma keeps_rb_sqlite3_raise_with_sql [keeps_intros]:
  "allows I (DbCall db Errmsg) \<Longrightarrow> allows I (DbCall db Error_offset) \<Longrightarrow>
     keeps I (rb_sqlite3_raise_with_sql L db status sql)"
  unfolding rb_sqlite3_raise_with_sql_def by (intro keeps_intros)

lemma rb_exc_new2_run:
  "rb_exc_new2 msg w =
     (case msg of None \<Rightarrow> Inl (Raised (rb_error ArgumentError ''NULL pointer given''))
      | Some m \<Rightarrow> Inr (cstr m), w)"
  by (simp add: rb_exc_new2_def split: option.splits)

text \<open>Each of the three returns exactly when the low byte of the status is zero, and then it
  has done nothing.\<close>

lemma status_ok_iff: "status2klass status = None \<longleftrightarrow> status AND 0xff = 0"
  by (auto simp: status2klass_status_class status_class_def unat_eq_0)

lemma rb_sqlite3_raise_ok: "status AND 0xff = 0 \<Longrightarrow> rb_sqlite3_raise L db status = ret ()"
  by (simp add: rb_sqlite3_raise_def status_ok_iff [THEN iffD2])

lemma rb_sqlite3_raise_OK [simp]: "rb_sqlite3_raise L db 0 = ret ()"
  by (simp add: rb_sqlite3_raise_ok)

lemma rb_sqlite3_raise_msg_OK [simp]: "rb_sqlite3_raise_msg 0 msg = ret ()"
  by (simp add: rb_sqlite3_raise_msg_def status_ok_iff [THEN iffD2])

lemma rb_sqlite3_raise_with_sql_OK [simp]: "rb_sqlite3_raise_with_sql L db 0 sql = ret ()"
  by (simp add: rb_sqlite3_raise_with_sql_def status_ok_iff [THEN iffD2])

lemma rb_sqlite3_raise_returns_iff:
  "rb_sqlite3_raise L db status w = (Inr u, w') \<longleftrightarrow> status AND 0xff = 0 \<and> w' = w"
  using status_ok_iff [of status]
  by (auto simp: rb_sqlite3_raise_def bindM_returns_iff split: option.splits)

lemma rb_sqlite3_raise_msg_returns_iff:
  "rb_sqlite3_raise_msg status msg w = (Inr u, w') \<longleftrightarrow> status AND 0xff = 0 \<and> w' = w"
  using status_ok_iff [of status]
  by (auto simp: rb_sqlite3_raise_msg_def bindM_returns_iff split: option.splits)

lemma rb_sqlite3_raise_with_sql_returns_iff:
  "rb_sqlite3_raise_with_sql L db status sql w = (Inr u, w') \<longleftrightarrow>
     status AND 0xff = 0 \<and> w' = w"
  using status_ok_iff [of status]
  by (auto simp: rb_sqlite3_raise_with_sql_def bindM_returns_iff split: option.splits)

lemmas raise_returns_iff =
  rb_sqlite3_raise_returns_iff rb_sqlite3_raise_msg_returns_iff
  rb_sqlite3_raise_with_sql_returns_iff

text \<open>C27: \<open>rb_sqlite3_raise_with_sql\<close> turns a failed prepare into the exception of the status:
  the class is the one that \<open>errors.rb\<close> lists for the primary code (the low byte), whatever
  the extended bits; \<open>@code\<close> keeps the whole extended code; the message, the SQL up to its
  first NUL byte and the error offset come along. A status whose low byte is zero raises
  nothing.\<close>

theorem raise_with_sql_spec:
  "fst (rb_sqlite3_raise_with_sql L db status (Some sql) w) =
    (let c = unat (status AND 0xff);
         (msg, e) = l_text L (DbCall db Errmsg) (env w);
         off = (if l_has_error_offset L then fst (l_int L (DbCall db Error_offset) e) else - 1)
     in if c = 0 then Inr ()
        else case msg of
          None \<Rightarrow> Inl (Raised (rb_error ArgumentError ''NULL pointer given''))
        | Some m \<Rightarrow>
            Inl (Raised (Exn (if c \<le> 26 then class_table ! (c - 1) else SQLite3_Exception)
                             (cstr m) (Some (sint status)) (Some (cstr sql)) (Some (sint off)))))"
  by (simp add: rb_sqlite3_raise_with_sql_def status2klass_chain sqlite_call_returns bindM_def
      rb_exc_new2_run Let_def split: prod.splits option.splits)

text \<open>The class distinguishes the primary result codes: two statuses with primary codes 1
  to 26 raise the same class only when the codes are equal, and none of them raises the
  fallback class \<open>SQLite3::Exception\<close>.\<close>

lemma status2klass_injective:
  assumes "unat (s AND 0xff) \<in> {1..26}" and "unat (t AND 0xff) \<in> {1..26}"
  shows "(status2klass s = status2klass t \<longleftrightarrow> s AND 0xff = t AND 0xff) \<and>
    status2klass s \<noteq> Some SQLite3_Exception"
proof -
  let ?i = "unat (s AND 0xff) - 1" and ?j = "unat (t AND 0xff) - 1"
  have "status2klass s = Some (class_table ! ?i)" "status2klass t = Some (class_table ! ?j)"
    using assms by (simp_all add: status2klass_chain Let_def)
  moreover have "class_table ! ?i = class_table ! ?j \<longleftrightarrow> ?i = ?j"
    using assms by (intro nth_eq_iff_index_eq distinct_class_table)
      (auto simp: length_class_table)
  moreover have "class_table ! ?i \<in> set class_table"
    using assms by (intro nth_mem) (auto simp: length_class_table)
  moreover have "?i = ?j \<longleftrightarrow> s AND 0xff = t AND 0xff"
    using assms by (auto simp: word_unat_eq_iff)
  ultimately show ?thesis
    using distinct_class_table(2) by auto
qed

end
