(* ===== verification/Aggregator.thy ===== *)
theory Aggregator
  imports Conversion Exceptions
begin

text \<open>
  \<open>ext/sqlite3/aggregator.c\<close>: aggregate functions whose handler is a Ruby class. An
  AggregatorWrapper holds the handler class and the array of the instances in flight; SQLite
  keeps one instance per aggregate context, in memory it hands out zeroed.
\<close>

section \<open>Instances\<close>

text \<open>\<open>rb_sqlite3_protected_funcall\<close>: \<open>rb_protect\<close> around one method call; \<open>Qnil\<close> if it raised.\<close>

definition rb_sqlite3_protected_funcall ::
  "'u rb_user \<Rightarrow> rb_value \<Rightarrow> string \<Rightarrow> rb_value list \<Rightarrow> ('e, 'u, rb_value \<times> cint) rb" where
  "rb_sqlite3_protected_funcall U self meth params =
     bindM (rb_protect (rb_funcall U self meth params)) (\<lambda>(r, exc_status).
     ret (case r of Some v \<Rightarrow> v | None \<Rightarrow> RNil, exc_status))"

text \<open>
  \<open>sqlite3_aggregate_context(ctx, size)\<close> with a size: the context's memory, zeroed when it is
  first asked for, or NULL when SQLite cannot allocate it (\<open>ok\<close> is the library's answer).
\<close>

definition aggregate_context :: "nat \<Rightarrow> bool \<Rightarrow> ('e, 'u, bool) rb" where
  "aggregate_context cid ok =
     (\<lambda>w. if aggmem w cid = None \<and> \<not> ok then (Inr False, w)
          else (Inr True, upd_slot cid (\<lambda>s. if s = None then Some SlotFalse else s) w))"

abbreviation fatal_out_of_memory :: abort where
  "fatal_out_of_memory \<equiv> Raised (rb_error FatalError ''SQLite is out-of-memory'')"

abbreviation fatal_destroyed :: abort where
  "fatal_destroyed \<equiv> Raised (rb_error FatalError
     ''SQLite called us back on an already destroyed aggregate instance'')"

abbreviation fatal_destroyed_twice :: abort where
  "fatal_destroyed_twice \<equiv> Raised (rb_error FatalError
     ''attempt to destroy aggregate instance twice'')"

abbreviation fatal_not_in_instances :: abort where
  "fatal_not_in_instances \<equiv> Raised (rb_error FatalError
     ''must be in instances at that point'')"

definition new_aggregate_instance :: "'u rb_user \<Rightarrow> nat \<Rightarrow> nat \<Rightarrow> ('e, 'u, nat) rb" where
  "new_aggregate_instance U aw cid =
     bindM (getM (\<lambda>w. handler_klass (aws w aw))) (\<lambda>klass.
     bindM (getM (\<lambda>w. instances (aws w aw))) (\<lambda>instances.
     bindM fresh_ref (\<lambda>inst.
     bindM (rb_sqlite3_protected_funcall U klass ''new'' []) (\<lambda>(h, exc).
     bindM (modM (upd_inst inst (\<lambda>_. \<lparr>handler_instance = h, exc_status = exc\<rparr>))) (\<lambda>_.
     bindM (rb_ary_push instances (RInst inst)) (\<lambda>_.
     bindM (modM (upd_slot cid (\<lambda>_. Some (SlotInst inst)))) (\<lambda>_.
     ret inst)))))))"

definition rb_sqlite3_aggregate_instance ::
  "'u rb_user \<Rightarrow> nat \<Rightarrow> nat \<Rightarrow> bool \<Rightarrow> ('e, 'u, nat) rb" where
  "rb_sqlite3_aggregate_instance U aw cid ok =
     bindM (aggregate_context cid ok) (\<lambda>inst_ptr.
     if \<not> inst_ptr then fail fatal_out_of_memory
     else bindM (getM (\<lambda>w. aggmem w cid)) (\<lambda>slot.
       case slot of
         Some (SlotInst inst) \<Rightarrow> ret inst
       | Some SlotNil \<Rightarrow> fail fatal_destroyed
       | _ \<Rightarrow> new_aggregate_instance U aw cid))"

text \<open>\<open>rb_ary_delete\<close>: removes the equal elements, \<open>nil\<close> when there is none.\<close>

definition rb_ary_delete :: "nat option \<Rightarrow> rb_value \<Rightarrow> ('e, 'u, rb_value) rb" where
  "rb_ary_delete a v =
     (case a of
        None \<Rightarrow> fail (Undefined NotAnArray)
      | Some r \<Rightarrow> (\<lambda>w. if v \<in> set (arys w r) then (Inr v, upd_ary r (filter (\<lambda>x. x \<noteq> v)) w)
                       else (Inr RNil, w)))"

definition rb_sqlite3_aggregate_instance_destroy :: "nat \<Rightarrow> nat \<Rightarrow> ('e, 'u, unit) rb" where
  "rb_sqlite3_aggregate_instance_destroy aw cid =
     bindM (getM (\<lambda>w. instances (aws w aw))) (\<lambda>instances.
     bindM (getM (\<lambda>w. aggmem w cid)) (\<lambda>slot.
     case slot of
       None \<Rightarrow> ret ()
     | Some SlotFalse \<Rightarrow> ret ()
     | Some SlotNil \<Rightarrow> fail fatal_destroyed_twice
     | Some (SlotInst inst) \<Rightarrow>
         bindM (modM (upd_inst inst (\<lambda>i. i\<lparr>handler_instance := RNil\<rparr>))) (\<lambda>_.
         bindM (rb_ary_delete instances (RInst inst)) (\<lambda>d.
         if d = RNil then fail fatal_not_in_instances
         else modM (upd_slot cid (\<lambda>_. Some SlotNil))))))"

section \<open>The callbacks\<close>

definition rb_sqlite3_aggregator_step ::
  "'u rb_user \<Rightarrow> nat \<Rightarrow> nat \<Rightarrow> bool \<Rightarrow> sqlite3_value list \<Rightarrow> ('e, 'u, unit) rb" where
  "rb_sqlite3_aggregator_step U aw cid ok argv =
     bindM (rb_sqlite3_aggregate_instance U aw cid ok) (\<lambda>inst.
     bindM (getM (\<lambda>w. insts w inst)) (\<lambda>i.
     if exc_status i \<noteq> 0 then ret ()
     else
       bindM (mapM (\<lambda>a. liftE (sqlite3val2rb a)) argv) (\<lambda>params.
       bindM (rb_sqlite3_protected_funcall U (handler_instance i) ''step'' params) (\<lambda>(r, exc).
       modM (upd_inst inst (\<lambda>i. i\<lparr>exc_status := exc\<rparr>))))))"

definition rb_sqlite3_aggregator_final ::
  "'e sqlite_lib \<Rightarrow> 'u rb_user \<Rightarrow> nat \<Rightarrow> nat \<Rightarrow> bool \<Rightarrow> ('e, 'u, func_result) rb" where
  "rb_sqlite3_aggregator_final L U aw cid ok =
     bindM (rb_sqlite3_aggregate_instance U aw cid ok) (\<lambda>inst.
     bindM (getM (\<lambda>w. insts w inst)) (\<lambda>i.
     bindM
       (if exc_status i \<noteq> 0 then ret (FR_none, exc_status i)
        else bindM (rb_sqlite3_protected_funcall U (handler_instance i) ''finalize'' [])
               (\<lambda>(result, exc).
             if exc \<noteq> 0 then ret (FR_none, exc)
             else bindM (liftE (set_sqlite3_func_result L result)) (\<lambda>r. ret (r, exc))))
       (\<lambda>(r, exc).
     bindM (rb_sqlite3_aggregate_instance_destroy aw cid) (\<lambda>_.
     ret (if exc \<noteq> 0 then FR_error ''Ruby Exception occurred'' else r)))))"

section \<open>Definition of an aggregate\<close>

definition rb_ary_new :: "('e, 'u, nat) rb" where
  "rb_ary_new = bindM fresh_ref (\<lambda>r. bindM (modM (upd_ary r (\<lambda>_. []))) (\<lambda>_. ret r))"

text \<open>The array of the wrappers, made on first use, and a new wrapper for a handler.\<close>

definition ensure_aggregators :: "nat \<Rightarrow> ('e, 'u, nat option) rb" where
  "ensure_aggregators self =
     bindM (getM (\<lambda>w. iv_aggregators (ivars w self))) (\<lambda>defined.
     bindM (if defined = None
            then bindM rb_ary_new (\<lambda>a. modM (upd_ivars self (\<lambda>v. v\<lparr>iv_aggregators := Some a\<rparr>)))
            else ret ()) (\<lambda>_.
     getM (\<lambda>w. iv_aggregators (ivars w self))))"

definition new_wrapper :: "rb_value \<Rightarrow> ('e, 'u, nat) rb" where
  "new_wrapper aggregator =
     bindM fresh_ref (\<lambda>aw.
     bindM (modM (upd_aw aw (\<lambda>v. v\<lparr>handler_klass := aggregator\<rparr>))) (\<lambda>_.
     bindM rb_ary_new (\<lambda>instances.
     bindM (modM (upd_aw aw (\<lambda>v. v\<lparr>instances := Some instances\<rparr>))) (\<lambda>_.
     ret aw))))"

definition rb_sqlite3_define_aggregator2 ::
  "'e sqlite_lib \<Rightarrow> 'u rb_user \<Rightarrow> nat \<Rightarrow> rb_value \<Rightarrow> rb_value \<Rightarrow> ('e, 'u, nat) rb" where
  "rb_sqlite3_define_aggregator2 L U self aggregator ruby_name =
     bindM (getM (\<lambda>w. d_db (dbs w self))) (\<lambda>db.
     bindM (require (db \<noteq> None) (Raised (rb_error SQLite3_Exception ''cannot use a closed database''))) (\<lambda>_.
     bindM (if u_respond_to U aggregator ''arity''
            then bindM (rb_funcall U aggregator ''arity'' []) (\<lambda>v. liftE (NUM2INT v))
            else ret (- 1)) (\<lambda>arity.
     bindM (require (\<not> (sint arity < - 1 \<or> 127 < sint arity))
       (Raised (rb_error ArgumentError
         (u_to_s U self @ '' arity='' @ show_int (sint arity) @ '' out of range -1..127'')))) (\<lambda>_.
     bindM (ensure_aggregators self) (\<lambda>aggregators.
     bindM (new_wrapper aggregator) (\<lambda>aw.
     bindM (liftE (StringValueCStr ruby_name)) (\<lambda>name.
     bindM (sqlite_call (l_int L)
              (DbCall db (Create_function name arity SQLITE_UTF8 (RAw aw) AggregateFunction)))
       (\<lambda>status.
     bindM (rb_sqlite3_raise L db status) (\<lambda>_.
     bindM (rb_ary_push aggregators (RAw aw)) (\<lambda>_.
     bindM (modM (upd_db self (\<lambda>d. d\<lparr>d_aggregators := aggregators\<rparr>))) (\<lambda>_.
     ret self)))))))))))"

section \<open>What the operations do\<close>

lemma rb_protect_funcall_run:
  "rb_sqlite3_protected_funcall U self meth params w =
     (case u_call U self meth params (usr w) of
        (Inl x, u) \<Rightarrow> (Inr (RNil, TAG_RAISE), w\<lparr>usr := u, errinfo := Some x\<rparr>)
      | (Inr v, u) \<Rightarrow> (Inr (v, 0), w\<lparr>usr := u\<rparr>))"
  by (simp add: rb_sqlite3_protected_funcall_def rb_protect_def rb_funcall_def bindM_def
      split: prod.splits sum.splits)

lemma TAG_RAISE_neq_0 [simp]: "TAG_RAISE \<noteq> 0"
  by (simp add: TAG_RAISE_def)

text \<open>The world after a new instance was made for a context.\<close>

definition instance_world :: "'u rb_user \<Rightarrow> nat \<Rightarrow> nat \<Rightarrow> nat \<Rightarrow> ('e, 'u) world \<Rightarrow> ('e, 'u) world" where
  "instance_world U aw cid r w =
     (case u_call U (handler_klass (aws w aw)) ''new'' [] (usr w) of
        (Inl x, u) \<Rightarrow>
          upd_slot cid (\<lambda>_. Some (SlotInst (next_ref w)))
            (upd_ary r (\<lambda>vs. vs @ [RInst (next_ref w)])
              (upd_inst (next_ref w) (\<lambda>_. \<lparr>handler_instance = RNil, exc_status = TAG_RAISE\<rparr>)
                (w\<lparr>next_ref := Suc (next_ref w), usr := u, errinfo := Some x\<rparr>)))
      | (Inr h, u) \<Rightarrow>
          upd_slot cid (\<lambda>_. Some (SlotInst (next_ref w)))
            (upd_ary r (\<lambda>vs. vs @ [RInst (next_ref w)])
              (upd_inst (next_ref w) (\<lambda>_. \<lparr>handler_instance = h, exc_status = 0\<rparr>)
                (w\<lparr>next_ref := Suc (next_ref w), usr := u\<rparr>))))"

lemma new_aggregate_instance_run:
  assumes "instances (aws w aw) = Some r"
  shows "new_aggregate_instance U aw cid w = (Inr (next_ref w), instance_world U aw cid r w)"
  using assms
  by (auto simp: new_aggregate_instance_def instance_world_def bindM_def fresh_ref_def
      rb_protect_funcall_run rb_ary_push_def split: prod.splits sum.splits)

lemma instance_world_alloc:
  "instance_world U aw cid r (upd_slot cid f w) = instance_world U aw cid r w"
  by (simp add: instance_world_def upd_defs split: prod.splits sum.splits)

lemma aggregate_instance_run:
  assumes "instances (aws w aw) = Some r"
  shows "rb_sqlite3_aggregate_instance U aw cid ok w =
    (case aggmem w cid of
       Some (SlotInst i) \<Rightarrow> (Inr i, w)
     | Some SlotNil \<Rightarrow> (Inl fatal_destroyed, w)
     | Some SlotFalse \<Rightarrow> (Inr (next_ref w), instance_world U aw cid r w)
     | None \<Rightarrow> if ok then (Inr (next_ref w), instance_world U aw cid r w)
               else (Inl fatal_out_of_memory, w))"
proof -
  have new: "new_aggregate_instance U aw cid (upd_slot cid f w) =
      (Inr (next_ref w), instance_world U aw cid r w)" for f
    using new_aggregate_instance_run [of "upd_slot cid f w" aw r U cid] assms
    by (simp add: instance_world_alloc)
  show ?thesis
    using new new_aggregate_instance_run [OF assms]
    by (auto simp: rb_sqlite3_aggregate_instance_def aggregate_context_def bindM_def
        slot_store.upd_id split: option.splits agg_slot.splits)
qed

text \<open>The world after an instance was destroyed.\<close>

definition destroyed_world :: "nat \<Rightarrow> nat \<Rightarrow> nat \<Rightarrow> ('e, 'u) world \<Rightarrow> ('e, 'u) world" where
  "destroyed_world r cid i w =
     upd_slot cid (\<lambda>_. Some SlotNil)
       (upd_ary r (filter (\<lambda>x. x \<noteq> RInst i))
         (upd_inst i (\<lambda>i. i\<lparr>handler_instance := RNil\<rparr>) w))"

lemma destroy_run:
  assumes "instances (aws w aw) = Some r" and "aggmem w cid = Some (SlotInst i)"
    and "RInst i \<in> set (arys w r)"
  shows "rb_sqlite3_aggregate_instance_destroy aw cid w = (Inr (), destroyed_world r cid i w)"
  using assms
  by (simp add: rb_sqlite3_aggregate_instance_destroy_def rb_ary_delete_def destroyed_world_def
      bindM_def upd_inst_def)

section \<open>The invariant of the instances in flight\<close>

text \<open>
  SQLite ties an aggregate context to one function, so to one wrapper: \<open>A cid\<close> is the wrapper
  of context \<open>cid\<close>. The instances that live contexts hold and the instances in the arrays of
  the wrappers are the same, each once; this is what keeps the objects SQLite points to alive,
  and what frees them.
\<close>

definition live :: "(nat \<Rightarrow> nat) \<Rightarrow> ('e, 'u) world \<Rightarrow> nat \<Rightarrow> nat set" where
  "live A w a = {i. \<exists>cid. A cid = a \<and> aggmem w cid = Some (SlotInst i)}"

definition slots_bounded :: "('e, 'u) world \<Rightarrow> bool" where
  "slots_bounded w \<longleftrightarrow> (\<forall>c i. aggmem w c = Some (SlotInst i) \<longrightarrow> i < next_ref w)"

definition slots_injective :: "('e, 'u) world \<Rightarrow> bool" where
  "slots_injective w \<longleftrightarrow>
     (\<forall>c d i. aggmem w c = Some (SlotInst i) \<longrightarrow> aggmem w d = Some (SlotInst i) \<longrightarrow> c = d)"

definition arrays_owned :: "('e, 'u) world \<Rightarrow> bool" where
  "arrays_owned w \<longleftrightarrow>
     (\<forall>a b r. instances (aws w a) = Some r \<longrightarrow> instances (aws w b) = Some r \<longrightarrow> a = b)"

definition arrays_live :: "(nat \<Rightarrow> nat) \<Rightarrow> ('e, 'u) world \<Rightarrow> bool" where
  "arrays_live A w \<longleftrightarrow>
     (\<forall>a r. instances (aws w a) = Some r \<longrightarrow>
        distinct (arys w r) \<and> set (arys w r) = RInst ` live A w a)"

definition arrays_exist :: "(nat \<Rightarrow> nat) \<Rightarrow> ('e, 'u) world \<Rightarrow> bool" where
  "arrays_exist A w \<longleftrightarrow> (\<forall>a. instances (aws w a) = None \<longrightarrow> live A w a = {})"

text \<open>
  The arrays of the wrappers are none of the arrays the Database objects hold in their own
  instance variables, and everything is below the next reference.
\<close>

definition ivar_arrays :: "('e, 'u) world \<Rightarrow> nat \<Rightarrow> nat set" where
  "ivar_arrays w s = set_option (iv_functions (ivars w s)) \<union> set_option (iv_aggregators (ivars w s))"

definition refs_bounded :: "('e, 'u) world \<Rightarrow> bool" where
  "refs_bounded w \<longleftrightarrow>
     (\<forall>a r. instances (aws w a) = Some r \<longrightarrow> a < next_ref w \<and> r < next_ref w) \<and>
     (\<forall>s. \<forall>b \<in> ivar_arrays w s. b < next_ref w)"

definition arrays_separate :: "('e, 'u) world \<Rightarrow> bool" where
  "arrays_separate w \<longleftrightarrow> (\<forall>a r s. instances (aws w a) = Some r \<longrightarrow> r \<notin> ivar_arrays w s)"

definition agg_inv :: "(nat \<Rightarrow> nat) \<Rightarrow> ('e, 'u) world \<Rightarrow> bool" where
  "agg_inv A w \<longleftrightarrow>
     slots_bounded w \<and> slots_injective w \<and> arrays_owned w \<and> arrays_live A w \<and> arrays_exist A w \<and>
     refs_bounded w \<and> arrays_separate w"

lemma agg_inv_less: "agg_inv A w \<Longrightarrow> aggmem w c = Some (SlotInst i) \<Longrightarrow> i < next_ref w"
  by (simp add: agg_inv_def slots_bounded_def)

lemma agg_inv_inj:
  "agg_inv A w \<Longrightarrow> aggmem w c = Some (SlotInst i) \<Longrightarrow> aggmem w d = Some (SlotInst i) \<Longrightarrow> c = d"
  unfolding agg_inv_def slots_injective_def by blast

lemma agg_inv_owner:
  "agg_inv A w \<Longrightarrow> instances (aws w a) = Some r \<Longrightarrow> instances (aws w b) = Some r \<Longrightarrow> a = b"
  unfolding agg_inv_def arrays_owned_def by blast

lemma agg_inv_distinct: "agg_inv A w \<Longrightarrow> instances (aws w a) = Some r \<Longrightarrow> distinct (arys w r)"
  by (simp add: agg_inv_def arrays_live_def)

lemma agg_inv_array:
  "agg_inv A w \<Longrightarrow> instances (aws w a) = Some r \<Longrightarrow> set (arys w r) = RInst ` live A w a"
  by (simp add: agg_inv_def arrays_live_def)

lemma agg_inv_none: "agg_inv A w \<Longrightarrow> instances (aws w a) = None \<Longrightarrow> live A w a = {}"
  by (simp add: agg_inv_def arrays_exist_def)

lemma agg_invI:
  assumes "\<And>c i. aggmem w c = Some (SlotInst i) \<Longrightarrow> i < next_ref w"
    and "\<And>c d i. aggmem w c = Some (SlotInst i) \<Longrightarrow> aggmem w d = Some (SlotInst i) \<Longrightarrow> c = d"
    and "\<And>a b r. instances (aws w a) = Some r \<Longrightarrow> instances (aws w b) = Some r \<Longrightarrow> a = b"
    and "\<And>a r. instances (aws w a) = Some r \<Longrightarrow> distinct (arys w r) \<and> set (arys w r) = RInst ` live A w a"
    and "\<And>a. instances (aws w a) = None \<Longrightarrow> live A w a = {}"
    and "refs_bounded w" and "arrays_separate w"
  shows "agg_inv A w"
proof -
  have "slots_bounded w" unfolding slots_bounded_def using assms(1) by blast
  moreover have "slots_injective w" unfolding slots_injective_def using assms(2) by blast
  moreover have "arrays_owned w" unfolding arrays_owned_def using assms(3) by blast
  moreover have "arrays_live A w" unfolding arrays_live_def using assms(4) by blast
  moreover have "arrays_exist A w" unfolding arrays_exist_def using assms(5) by blast
  ultimately show ?thesis using assms(6,7) by (simp add: agg_inv_def)
qed

lemma agg_inv_refs: "agg_inv A w \<Longrightarrow> refs_bounded w \<and> arrays_separate w"
  by (simp add: agg_inv_def)

text \<open>The invariant depends on four parts of the world only.\<close>

lemma agg_inv_cong:
  assumes inv: "agg_inv A w"
    and slots: "\<And>c i. aggmem w' c = Some (SlotInst i) \<longleftrightarrow> aggmem w c = Some (SlotInst i)"
    and eq: "aws w' = aws w" "arys w' = arys w" "ivars w' = ivars w"
    and le: "next_ref w \<le> next_ref w'"
  shows "agg_inv A w'"
proof -
  have live: "live A w' a = live A w a" for a by (simp add: live_def slots)
  show ?thesis
  proof (rule agg_invI)
    show "aggmem w' c = Some (SlotInst i) \<Longrightarrow> i < next_ref w'" for c i
      using agg_inv_less [OF inv, of c i] le by (simp add: slots)
    show "aggmem w' c = Some (SlotInst i) \<Longrightarrow> aggmem w' d = Some (SlotInst i) \<Longrightarrow> c = d" for c d i
      unfolding slots by (rule agg_inv_inj [OF inv])
    show "instances (aws w' a) = Some r \<Longrightarrow> instances (aws w' b) = Some r \<Longrightarrow> a = b" for a b r
      unfolding eq by (rule agg_inv_owner [OF inv])
    show "instances (aws w' a) = Some r \<Longrightarrow>
        distinct (arys w' r) \<and> set (arys w' r) = RInst ` live A w' a" for a r
      by (simp add: eq live agg_inv_distinct [OF inv] agg_inv_array [OF inv])
    show "instances (aws w' a) = None \<Longrightarrow> live A w' a = {}" for a
      unfolding eq live by (rule agg_inv_none [OF inv])
    have iv: "ivar_arrays w' = ivar_arrays w" by (simp add: ivar_arrays_def eq fun_eq_iff)
    have "b < next_ref w \<Longrightarrow> b < next_ref w'" for b using le by simp
    then show "refs_bounded w'" "arrays_separate w'"
      using agg_inv_refs [OF inv] by (auto simp: refs_bounded_def arrays_separate_def iv eq)
  qed
qed

lemma agg_inv_live:
  assumes "agg_inv A w" and "aggmem w cid = Some (SlotInst i)"
  shows "\<exists>r. instances (aws w (A cid)) = Some r \<and> RInst i \<in> set (arys w r)"
proof -
  have "i \<in> live A w (A cid)" using assms(2) by (auto simp: live_def)
  with assms(1) agg_inv_none [of A w "A cid"] agg_inv_array [of A w "A cid"] show ?thesis
    by (cases "instances (aws w (A cid))") auto
qed

lemma instance_world_fields:
  "aggmem (instance_world U aw cid r w) = (aggmem w)(cid := Some (SlotInst (next_ref w)))"
  "aws (instance_world U aw cid r w) = aws w" "ivars (instance_world U aw cid r w) = ivars w"
  "arys (instance_world U aw cid r w) = (arys w)(r := arys w r @ [RInst (next_ref w)])"
  "next_ref (instance_world U aw cid r w) = Suc (next_ref w)"
  by (simp_all add: instance_world_def upd_defs split: prod.splits sum.splits)

lemma live_instance_world:
  assumes "aggmem w cid = None \<or> aggmem w cid = Some SlotFalse"
  shows "live A (instance_world U (A cid) cid r w) a =
    (if a = A cid then insert (next_ref w) (live A w a) else live A w a)"
proof -
  have "aggmem (instance_world U (A cid) cid r w) c = Some (SlotInst x) \<longleftrightarrow>
      (c = cid \<and> x = next_ref w) \<or> aggmem w c = Some (SlotInst x)" for c x
    using assms by (cases "c = cid") (auto simp: instance_world_fields)
  then show ?thesis by (auto simp: live_def)
qed

lemma agg_inv_instance_world:
  assumes inv: "agg_inv A w" and r: "instances (aws w (A cid)) = Some r"
    and slot: "aggmem w cid = None \<or> aggmem w cid = Some SlotFalse"
  shows "agg_inv A (instance_world U (A cid) cid r w)" (is "agg_inv A ?v")
proof -
  note v = instance_world_fields [where U = U and aw = "A cid" and cid = cid and r = r and w = w]
  note live = live_instance_world [OF slot]
  have fresh: "aggmem w c \<noteq> Some (SlotInst (next_ref w))" for c
    using agg_inv_less [OF inv] by blast
  have notin: "RInst (next_ref w) \<notin> set (arys w r)"
    using agg_inv_array [OF inv r] fresh by (auto simp: live_def)
  show ?thesis
  proof (rule agg_invI)
    fix c i assume "aggmem ?v c = Some (SlotInst i)"
    then show "i < next_ref ?v"
      using agg_inv_less [OF inv, of c i] by (auto simp: v split: if_splits)
  next
    fix c d i assume "aggmem ?v c = Some (SlotInst i)" "aggmem ?v d = Some (SlotInst i)"
    then show "c = d"
      using agg_inv_inj [OF inv, of c i d] fresh by (auto simp: v split: if_splits)
  next
    fix a s assume "instances (aws ?v a) = Some s"
    then show "distinct (arys ?v s) \<and> set (arys ?v s) = RInst ` live A ?v a"
      using agg_inv_array [OF inv, of a s] agg_inv_distinct [OF inv, of a s] notin r
        agg_inv_owner [OF inv, of a s "A cid"]
      by (cases "s = r") (auto simp: v live)
  next
    show "instances (aws ?v a) = Some s \<Longrightarrow> instances (aws ?v b) = Some s \<Longrightarrow> a = b" for a b s
      using agg_inv_owner [OF inv, of a s b] by (simp add: v)
  next
    show "instances (aws ?v a) = None \<Longrightarrow> live A ?v a = {}" for a
      using agg_inv_none [OF inv, of a] r by (auto simp: v live)
  next
    have "ivar_arrays ?v = ivar_arrays w" by (simp add: ivar_arrays_def v fun_eq_iff)
    then show "refs_bounded ?v" "arrays_separate ?v"
      using agg_inv_refs [OF inv]
      by (simp_all add: refs_bounded_def arrays_separate_def v less_Suc_eq)
  qed
qed

lemma agg_inv_destroyed_world:
  assumes inv: "agg_inv A w" and r: "instances (aws w (A cid)) = Some r"
    and slot: "aggmem w cid = Some (SlotInst i)"
  shows "agg_inv A (destroyed_world r cid i w)" (is "agg_inv A ?v")
proof -
  have v: "aggmem ?v = (aggmem w)(cid := Some SlotNil)" "aws ?v = aws w"
      "arys ?v = (arys w)(r := filter (\<lambda>x. x \<noteq> RInst i) (arys w r))" "next_ref ?v = next_ref w"
      "ivars ?v = ivars w"
    by (simp_all add: destroyed_world_def upd_defs)
  have only: "aggmem w c = Some (SlotInst i) \<Longrightarrow> c = cid" for c
    using agg_inv_inj [OF inv _ slot] .
  have live: "live A ?v a = (if a = A cid then live A w a - {i} else live A w a)" for a
  proof -
    have "aggmem ?v c = Some (SlotInst x) \<longleftrightarrow> aggmem w c = Some (SlotInst x) \<and> x \<noteq> i" for c x
      using slot only [of c] by (cases "c = cid") (auto simp: v)
    then show ?thesis using only by (auto simp: live_def)
  qed
  show ?thesis
  proof (rule agg_invI)
    fix c j assume "aggmem ?v c = Some (SlotInst j)"
    then show "j < next_ref ?v"
      using agg_inv_less [OF inv, of c j] by (auto simp: v split: if_splits)
  next
    fix c d j assume "aggmem ?v c = Some (SlotInst j)" "aggmem ?v d = Some (SlotInst j)"
    then show "c = d"
      using agg_inv_inj [OF inv, of c j d] by (auto simp: v split: if_splits)
  next
    fix a s assume "instances (aws ?v a) = Some s"
    then show "distinct (arys ?v s) \<and> set (arys ?v s) = RInst ` live A ?v a"
      using agg_inv_array [OF inv, of a s] agg_inv_distinct [OF inv, of a s] r
        agg_inv_owner [OF inv, of a s "A cid"]
      by (cases "s = r") (auto simp: v live)
  next
    show "instances (aws ?v a) = Some s \<Longrightarrow> instances (aws ?v b) = Some s \<Longrightarrow> a = b" for a b s
      using agg_inv_owner [OF inv, of a s b] by (simp add: v)
  next
    show "instances (aws ?v a) = None \<Longrightarrow> live A ?v a = {}" for a
      using agg_inv_none [OF inv, of a] by (auto simp: v live)
  next
    show "refs_bounded ?v" "arrays_separate ?v"
      using agg_inv_refs [OF inv]
      by (auto simp: refs_bounded_def arrays_separate_def ivar_arrays_def v)
  qed
qed

text \<open>
  What the invariant does not read: the user's heap, the pending exception, the fields of the
  instances, the library and the record of calls, and zeroed context memory.
\<close>

lemma agg_inv_irrelevant [simp]:
  "agg_inv A (w\<lparr>usr := u\<rparr>) = agg_inv A w"
  "agg_inv A (w\<lparr>errinfo := x\<rparr>) = agg_inv A w"
  "agg_inv A (w\<lparr>env := e\<rparr>) = agg_inv A w"
  "agg_inv A (w\<lparr>calls := cs\<rparr>) = agg_inv A w"
  "agg_inv A (upd_inst i f w) = agg_inv A w"
  "agg_inv A (upd_db r g w) = agg_inv A w"
  "agg_inv A (upd_stmt r h w) = agg_inv A w"
  by (simp_all add: agg_inv_def slots_bounded_def slots_injective_def arrays_owned_def
      arrays_live_def arrays_exist_def live_def refs_bounded_def arrays_separate_def
      ivar_arrays_def upd_defs)

lemma agg_inv_alloc:
  assumes "agg_inv A w" and "aggmem w cid = None \<or> aggmem w cid = Some SlotFalse"
    and "f (aggmem w cid) = Some SlotFalse"
  shows "agg_inv A (upd_slot cid f w)"
  using assms by (elim agg_inv_cong) (auto simp: upd_slot_def)

lemma new_aggregate_instance_no_array:
  assumes "instances (aws w aw) = None"
  shows "\<exists>v. new_aggregate_instance U aw cid w = (Inl (Undefined NotAnArray), v) \<and>
    aggmem v = aggmem w \<and> aws v = aws w \<and> arys v = arys w \<and> ivars v = ivars w \<and>
    next_ref v = Suc (next_ref w)"
  using assms
  by (auto simp: new_aggregate_instance_def bindM_def fresh_ref_def rb_protect_funcall_run
      rb_ary_push_def upd_inst_def split: prod.splits sum.splits)

lemma keeps_new_aggregate_instance:
  assumes "agg_inv A w" and "aggmem w cid = None \<or> aggmem w cid = Some SlotFalse"
  shows "agg_inv A (snd (new_aggregate_instance U (A cid) cid w))"
proof (cases "instances (aws w (A cid))")
  case None
  from new_aggregate_instance_no_array [OF this, of U cid] obtain v
    where "new_aggregate_instance U (A cid) cid w = (Inl (Undefined NotAnArray), v)"
      "aggmem v = aggmem w" "aws v = aws w" "arys v = arys w" "ivars v = ivars w"
      "next_ref v = Suc (next_ref w)"
    by blast
  with assms(1) show ?thesis by (auto elim: agg_inv_cong)
next
  case (Some r)
  with assms show ?thesis
    by (simp add: new_aggregate_instance_run agg_inv_instance_world)
qed

lemma keeps_aggregate_instance [keeps_intros]:
  "keeps (agg_inv A) (rb_sqlite3_aggregate_instance U (A cid) cid ok)"
  by (rule keepsI)
    (auto simp: rb_sqlite3_aggregate_instance_def aggregate_context_def bindM_def
      slot_store.upd_id agg_inv_alloc intro!: keeps_new_aggregate_instance
      split: option.splits agg_slot.splits)

lemma keeps_destroy [keeps_intros]:
  "keeps (agg_inv A) (rb_sqlite3_aggregate_instance_destroy (A cid) cid)"
proof (rule keepsI)
  fix w :: "('e, 'u) world"
  assume inv: "agg_inv A w"
  show "agg_inv A (snd (rb_sqlite3_aggregate_instance_destroy (A cid) cid w))"
  proof (cases "\<exists>i. aggmem w cid = Some (SlotInst i)")
    case True
    then obtain i where i: "aggmem w cid = Some (SlotInst i)" by blast
    with agg_inv_live [OF inv] obtain r
      where r: "instances (aws w (A cid)) = Some r" "RInst i \<in> set (arys w r)" by blast
    show ?thesis
      by (simp add: destroy_run [OF r(1) i r(2)] agg_inv_destroyed_world [OF inv r(1) i])
  next
    case False
    then show ?thesis
      using inv by (auto simp: rb_sqlite3_aggregate_instance_destroy_def bindM_def
          split: option.splits agg_slot.splits)
  qed
qed

lemma keeps_protected_funcall [keeps_intros]:
  "keeps (agg_inv A) (rb_sqlite3_protected_funcall U self meth params)"
  by (rule keepsI) (auto simp: rb_protect_funcall_run split: prod.splits sum.splits)

lemma keeps_agg_inv_upd_inst [keeps_intros]: "keeps (agg_inv A) (modM (upd_inst i f))"
  by (rule keeps_modM) simp

lemma keeps_aggregator_step [keeps_intros]:
  "keeps (agg_inv A) (rb_sqlite3_aggregator_step U (A cid) cid ok argv)"
  unfolding rb_sqlite3_aggregator_step_def by (intro keeps_intros)

lemma keeps_aggregator_final [keeps_intros]:
  "keeps (agg_inv A) (rb_sqlite3_aggregator_final L U (A cid) cid ok)"
  unfolding rb_sqlite3_aggregator_final_def by (intro keeps_intros)

section \<open>A new aggregate\<close>

lemma ensure_aggregators_run:
  "ensure_aggregators self w =
     (case iv_aggregators (ivars w self) of
        Some a \<Rightarrow> (Inr (Some a), w)
      | None \<Rightarrow> (Inr (Some (next_ref w)),
          upd_ivars self (\<lambda>v. v\<lparr>iv_aggregators := Some (next_ref w)\<rparr>)
            (upd_ary (next_ref w) (\<lambda>_. []) (w\<lparr>next_ref := Suc (next_ref w)\<rparr>))))"
  by (simp add: ensure_aggregators_def rb_ary_new_def fresh_ref_def bindM_def split: option.splits)

lemma agg_inv_upd_ary_other:
  assumes inv: "agg_inv A w" and other: "\<And>a. instances (aws w a) \<noteq> Some q"
  shows "agg_inv A (upd_ary q f w)" (is "agg_inv A ?v")
proof -
  have v: "aggmem ?v = aggmem w" "aws ?v = aws w" "next_ref ?v = next_ref w" "ivars ?v = ivars w"
    "arys ?v = (arys w)(q := f (arys w q))"
    by (simp_all add: upd_ary_def)
  have live: "live A ?v a = live A w a" for a by (simp add: live_def v)
  have iv: "ivar_arrays ?v = ivar_arrays w" by (simp add: ivar_arrays_def v fun_eq_iff)
  show ?thesis
  proof (rule agg_invI)
    fix a r assume r: "instances (aws ?v a) = Some r"
    then have "r \<noteq> q" using other [of a] by (auto simp: v)
    with r show "distinct (arys ?v r) \<and> set (arys ?v r) = RInst ` live A ?v a"
      using agg_inv_distinct [OF inv, of a r] agg_inv_array [OF inv, of a r] by (simp add: v live)
  next
    show "refs_bounded ?v" "arrays_separate ?v"
      using agg_inv_refs [OF inv] by (simp_all add: refs_bounded_def arrays_separate_def iv v)
  qed (use agg_inv_less [OF inv] agg_inv_inj [OF inv] agg_inv_owner [OF inv] agg_inv_none [OF inv]
        in \<open>simp_all add: v live\<close>)
qed

lemma agg_inv_instances_bound: "agg_inv A w \<Longrightarrow> instances (aws w a) = Some r \<Longrightarrow> a < next_ref w \<and> r < next_ref w"
  by (simp add: agg_inv_def refs_bounded_def)

lemma agg_inv_next_ref: "agg_inv A w \<Longrightarrow> next_ref w \<le> n \<Longrightarrow> agg_inv A (w\<lparr>next_ref := n\<rparr>)"
  by (erule agg_inv_cong) auto

lemma agg_inv_new_array:
  assumes inv: "agg_inv A w"
  defines "v \<equiv> upd_ary (next_ref w) (\<lambda>_. []) (w\<lparr>next_ref := Suc (next_ref w)\<rparr>)"
  shows "agg_inv A v" and "instances (aws v a) \<noteq> Some (next_ref w)"
proof -
  have fresh: "instances (aws w a) \<noteq> Some (next_ref w)" for a
    using agg_inv_instances_bound [OF inv, of a] by auto
  with inv show "agg_inv A v"
    unfolding v_def by (intro agg_inv_upd_ary_other) (simp_all add: agg_inv_next_ref)
  show "instances (aws v a) \<noteq> Some (next_ref w)" using fresh by (simp add: v_def)
qed

text \<open>Instance variables may get arrays that exist and are not those of a wrapper.\<close>

lemma agg_inv_upd_ivars:
  assumes inv: "agg_inv A w" and iv: "ivar_arrays (upd_ivars s f w) s \<subseteq> R \<union> ivar_arrays w s"
    and new: "\<And>r. r \<in> R \<Longrightarrow> r < next_ref w" "\<And>r a. r \<in> R \<Longrightarrow> instances (aws w a) \<noteq> Some r"
  shows "agg_inv A (upd_ivars s f w)"
proof -
  let ?v = "upd_ivars s f w"
  have iv: "ivar_arrays ?v q \<subseteq> R \<union> ivar_arrays w q" for q
    using iv by (cases "q = s") (auto simp: ivar_arrays_def)
  have "refs_bounded ?v" "arrays_separate ?v"
    using agg_inv_refs [OF inv] iv new unfolding refs_bounded_def arrays_separate_def by (simp_all; blast)+
  then show ?thesis
    using inv by (simp add: agg_inv_def slots_bounded_def slots_injective_def arrays_owned_def arrays_live_def
        arrays_exist_def live_def upd_ivars_def)
qed

lemma agg_inv_ensure:
  assumes inv: "agg_inv A w"
  shows "agg_inv A (snd (ensure_aggregators self w))"
proof (cases "iv_aggregators (ivars w self)")
  case None
  let ?u = "upd_ary (next_ref w) (\<lambda>_. []) (w\<lparr>next_ref := Suc (next_ref w)\<rparr>)"
  have "agg_inv A (upd_ivars self (\<lambda>v. v\<lparr>iv_aggregators := Some (next_ref w)\<rparr>) ?u)"
    using agg_inv_new_array [OF inv]
    by (intro agg_inv_upd_ivars [where R = "{next_ref w}"]) (auto simp: ivar_arrays_def None)
  then show ?thesis by (simp add: ensure_aggregators_run None)
qed (simp add: ensure_aggregators_run inv)

text \<open>The world with a new wrapper for a handler.\<close>

definition wrapper_world :: "rb_value \<Rightarrow> ('e, 'u) world \<Rightarrow> ('e, 'u) world" where
  "wrapper_world aggregator w =
     w\<lparr>next_ref := Suc (Suc (next_ref w)), arys := (arys w)(Suc (next_ref w) := []),
       aws := (aws w)(next_ref w := \<lparr>handler_klass = aggregator, instances = Some (Suc (next_ref w))\<rparr>)\<rparr>"

lemma new_wrapper_run: "new_wrapper aggregator w = (Inr (next_ref w), wrapper_world aggregator w)"
  by (simp add: new_wrapper_def wrapper_world_def rb_ary_new_def fresh_ref_def bindM_def upd_defs
      fun_eq_iff)

lemma agg_inv_wrapper_world:
  assumes inv: "agg_inv A w"
  shows "agg_inv A (wrapper_world aggregator w)" (is "agg_inv A ?v")
proof -
  have v: "aggmem ?v = aggmem w" "next_ref ?v = Suc (Suc (next_ref w))" "ivars ?v = ivars w"
    "arys ?v = (arys w)(Suc (next_ref w) := [])"
    "\<And>a. instances (aws ?v a) = (if a = next_ref w then Some (Suc (next_ref w)) else instances (aws w a))"
    by (simp_all add: wrapper_world_def)
  have live: "live A ?v a = live A w a" for a by (simp add: live_def v)
  have iv: "ivar_arrays ?v = ivar_arrays w" by (simp add: ivar_arrays_def v fun_eq_iff)
  note bound = agg_inv_instances_bound [OF inv]
  have none: "live A w (next_ref w) = {}"
    by (rule agg_inv_none [OF inv]) (use bound [of "next_ref w"] in \<open>cases "instances (aws w (next_ref w))", auto\<close>)
  have fresh: "Suc (next_ref w) \<notin> ivar_arrays w s" for s
    using agg_inv_refs [OF inv] unfolding refs_bounded_def by (meson Suc_n_not_le_n less_imp_le)
  show ?thesis
  proof (rule agg_invI)
    fix c i assume "aggmem ?v c = Some (SlotInst i)"
    then show "i < next_ref ?v" using agg_inv_less [OF inv, of c i] by (simp add: v)
  next
    fix a b r assume "instances (aws ?v a) = Some r" "instances (aws ?v b) = Some r"
    then show "a = b"
      using agg_inv_owner [OF inv, of a r b] bound [of a r] bound [of b r]
      by (auto simp: v split: if_splits)
  next
    fix a r assume "instances (aws ?v a) = Some r"
    then show "distinct (arys ?v r) \<and> set (arys ?v r) = RInst ` live A ?v a"
      using agg_inv_distinct [OF inv, of a r] agg_inv_array [OF inv, of a r] bound [of a r] none
      by (auto simp: v live split: if_splits)
  next
    show "refs_bounded ?v" "arrays_separate ?v"
      using agg_inv_refs [OF inv] unfolding refs_bounded_def arrays_separate_def
      by (auto simp: iv v less_Suc_eq fresh)
  qed (use agg_inv_inj [OF inv] agg_inv_none [OF inv] in \<open>auto simp: v live split: if_splits\<close>)
qed

text \<open>
  From the array of the wrappers on, the variable of the Database object points to that array.
\<close>

definition agg_inv_ivar :: "(nat \<Rightarrow> nat) \<Rightarrow> nat \<Rightarrow> nat option \<Rightarrow> ('e, 'u) world \<Rightarrow> bool" where
  "agg_inv_ivar A self a w \<longleftrightarrow> agg_inv A w \<and> iv_aggregators (ivars w self) = a"

lemma keeps_wrapper_push:
  "keeps (agg_inv_ivar A self a) (bindM (rb_ary_push a v) (\<lambda>_. bindM (modM (upd_db self f)) (\<lambda>_. ret self)))"
proof (rule keepsI)
  fix w :: "('e, 'u) world" assume I: "agg_inv_ivar A self a w"
  have "agg_inv A (upd_ary r (\<lambda>vs. vs @ [v]) w)" if "a = Some r" for r
  proof (rule agg_inv_upd_ary_other)
    show "agg_inv A w" using I by (simp add: agg_inv_ivar_def)
    fix b show "instances (aws w b) \<noteq> Some r"
      using I that by (auto simp: agg_inv_ivar_def agg_inv_def arrays_separate_def ivar_arrays_def)
  qed
  then show "agg_inv_ivar A self a (snd (bindM (rb_ary_push a v) (\<lambda>_. bindM (modM (upd_db self f)) (\<lambda>_. ret self)) w))"
    using I by (auto simp: agg_inv_ivar_def rb_ary_push_def bindM_def split: option.splits)
qed

lemma allows_agg_inv [simp]: "allows (agg_inv A) c"
  by (rule allowsI) (rule agg_inv_cong, auto)

lemma allows_agg_inv_ivar [simp]: "allows (agg_inv_ivar A self a) c"
  using allows_agg_inv [of A c] by (simp add: allows_def agg_inv_ivar_def)

lemma keeps_new_wrapper [keeps_intros]: "keeps (agg_inv_ivar A self a) (new_wrapper aggregator)"
  by (rule keepsI) (simp add: new_wrapper_run agg_inv_ivar_def agg_inv_wrapper_world,
      simp add: wrapper_world_def)

lemma keeps_from_ensure:
  fixes m :: "nat option \<Rightarrow> ('e, 'u, 'a) rb"
  assumes "\<And>a. keeps (agg_inv_ivar A self a) (m a)"
  shows "keeps (agg_inv A) (bindM (ensure_aggregators self) m)"
proof (rule keepsI)
  fix w :: "('e, 'u) world" assume inv: "agg_inv A w"
  obtain a v where e: "ensure_aggregators self w = (Inr a, v)" "iv_aggregators (ivars v self) = a"
    by (cases "iv_aggregators (ivars w self)") (simp_all add: ensure_aggregators_run upd_ivars_def)
  then have "agg_inv_ivar A self a v"
    using agg_inv_ensure [OF inv, of self] by (simp add: agg_inv_ivar_def)
  then have "agg_inv_ivar A self a (snd (m a v))" by (rule keepsD [OF assms])
  then show "agg_inv A (snd (bindM (ensure_aggregators self) m w))"
    by (simp add: e agg_inv_ivar_def)
qed

lemma keeps_define_aggregator2 [keeps_intros]:
  "keeps (agg_inv A) (rb_sqlite3_define_aggregator2 L U self aggregator ruby_name)"
  unfolding rb_sqlite3_define_aggregator2_def
  by (intro keeps_intros keeps_from_ensure keeps_wrapper_push keeps_rb_funcall allows_agg_inv_ivar) simp_all

end
