(* ===== verification/Aggregation.thy ===== *)
theory Aggregation
  imports Aggregator
begin

text \<open>
  Properties of aggregates (\<open>ext/sqlite3/aggregator.c\<close>): the invariant of the instances in
  flight, the refinement of one whole aggregation to what the user's handler should see, and
  what the fatal errors of the C code guard against.
\<close>

lemma bindM_same_start: "m s = m t \<Longrightarrow> bindM m f s = bindM m f t"
  by (simp add: bindM_def)

section \<open>One aggregation, seen by the user\<close>

text \<open>
  The abstract aggregation: a handler object, the exception that is pending, the user's heap.
  \<open>new\<close>, then \<open>step\<close> for every row until one raises, then \<open>finalize\<close>.
\<close>

type_synonym 'u aggregation = "rb_value \<times> rb_exn option \<times> 'u"

definition spec_new :: "'u rb_user \<Rightarrow> rb_value \<Rightarrow> 'u \<Rightarrow> 'u aggregation" where
  "spec_new U klass u =
     (case u_call U klass ''new'' [] u of (Inl x, u') \<Rightarrow> (RNil, Some x, u') | (Inr h, u') \<Rightarrow> (h, None, u'))"

fun spec_step :: "'u rb_user \<Rightarrow> rb_value list \<Rightarrow> 'u aggregation \<Rightarrow> 'u aggregation" where
  "spec_step U vs (h, Some x, u) = (h, Some x, u)"
| "spec_step U vs (h, None, u) =
     (case u_call U h ''step'' vs u of (Inl x, u') \<Rightarrow> (h, Some x, u') | (Inr _, u') \<Rightarrow> (h, None, u'))"

fun spec_final :: "'u rb_user \<Rightarrow> 'u aggregation \<Rightarrow> (rb_exn + rb_value) \<times> 'u" where
  "spec_final U (h, Some x, u) = (Inl x, u)"
| "spec_final U (h, None, u) = u_call U h ''finalize'' [] u"

definition spec_aggregate :: "'u rb_user \<Rightarrow> rb_value \<Rightarrow> rb_value list list \<Rightarrow> 'u \<Rightarrow> (rb_exn + rb_value) \<times> 'u" where
  "spec_aggregate U klass rows u = spec_final U (fold (spec_step U) rows (spec_new U klass u))"

text \<open>How SQLite drives one context: a step for every row, then the final callback, once.\<close>

definition aggregation ::
  "'e sqlite_lib \<Rightarrow> 'u rb_user \<Rightarrow> nat \<Rightarrow> nat \<Rightarrow> sqlite3_value list list \<Rightarrow> ('e, 'u, func_result) rb" where
  "aggregation L U aw cid argvs =
     bindM (iterM (rb_sqlite3_aggregator_step U aw cid True) argvs) (\<lambda>_.
     rb_sqlite3_aggregator_final L U aw cid True)"

text \<open>The arguments as the callbacks see them.\<close>

definition rb_args :: "sqlite3_value list \<Rightarrow> rb_value list" where
  "rb_args argv = map (\<lambda>v. projr (sqlite3val2rb v)) argv"

abbreviation valid_args :: "sqlite3_value list \<Rightarrow> bool" where
  "valid_args argv \<equiv> list_all (\<lambda>v. valid_type (v_type v)) argv"

lemma mapM_args: "valid_args argv \<Longrightarrow> mapM (\<lambda>a. liftE (sqlite3val2rb a)) argv w = (Inr (rb_args argv), w)"
proof (induction argv)
  case (Cons v argv)
  then obtain r where "sqlite3val2rb v = Inr r" using sqlite3val2rb_total [of v] by auto
  with Cons show ?case by (simp add: rb_args_def)
qed (simp add: rb_args_def)

text \<open>
  The world of the extension while the aggregation is in the abstract state \<open>(h, p, u)\<close>: the
  context points to the new instance, which is in the wrapper's array and holds the handler and
  whether an exception is pending.
\<close>

fun running_world :: "nat \<Rightarrow> nat \<Rightarrow> ('e, 'u) world \<Rightarrow> 'u aggregation \<Rightarrow> ('e, 'u) world" where
  "running_world r cid w (h, p, u) =
     upd_slot cid (\<lambda>_. Some (SlotInst (next_ref w)))
       (upd_ary r (\<lambda>vs. vs @ [RInst (next_ref w)])
         (upd_inst (next_ref w)
           (\<lambda>_. \<lparr>handler_instance = h, exc_status = (if p = None then 0 else TAG_RAISE)\<rparr>)
           (w\<lparr>next_ref := Suc (next_ref w), usr := u,
              errinfo := (case p of None \<Rightarrow> errinfo w | Some x \<Rightarrow> Some x)\<rparr>)))"

lemma instance_world_running:
  "instance_world U aw cid r w = running_world r cid w (spec_new U (handler_klass (aws w aw)) (usr w))"
  by (simp add: instance_world_def spec_new_def split: prod.splits sum.splits)

lemma running_world_simps:
  "aggmem (running_world r cid w s) cid = Some (SlotInst (next_ref w))"
  "aws (running_world r cid w s) = aws w"
  "insts (running_world r cid w s) (next_ref w) =
     \<lparr>handler_instance = fst s, exc_status = (if fst (snd s) = None then 0 else TAG_RAISE)\<rparr>"
  "arys (running_world r cid w s) r = arys w r @ [RInst (next_ref w)]"
  "usr (running_world r cid w s) = snd (snd s)"
  by (cases s; simp add: upd_defs)+

lemma running_world_ok:
  "upd_inst (next_ref w) (\<lambda>i. i\<lparr>exc_status := 0\<rparr>) ((running_world r cid w (h, None, u))\<lparr>usr := u'\<rparr>) =
     running_world r cid w (h, None, u')"
  by (rule world.equality) (auto simp: upd_defs fun_eq_iff)

lemma running_world_raise:
  "upd_inst (next_ref w) (\<lambda>i. i\<lparr>exc_status := TAG_RAISE\<rparr>)
      ((running_world r cid w (h, None, u))\<lparr>usr := u', errinfo := Some x\<rparr>) =
     running_world r cid w (h, Some x, u')"
  by (rule world.equality) (auto simp: upd_defs fun_eq_iff)

declare running_world.simps [simp del]

lemma aggregate_instance_running:
  assumes "instances (aws w aw) = Some r"
  shows "rb_sqlite3_aggregate_instance U aw cid ok (running_world r cid w s) =
      (Inr (next_ref w), running_world r cid w s)"
  using assms by (simp add: aggregate_instance_run running_world_simps)

lemma step_running:
  assumes "instances (aws w aw) = Some r" and "valid_args argv"
  shows "rb_sqlite3_aggregator_step U aw cid ok argv (running_world r cid w s) =
    (Inr (), running_world r cid w (spec_step U (rb_args argv) s))"
proof -
  obtain h p u where s: "s = (h, p, u)" by (cases s) auto
  show ?thesis
  proof (cases p)
    case None
    then show ?thesis
      unfolding rb_sqlite3_aggregator_step_def s
      by (simp add: aggregate_instance_running [OF assms(1)] running_world_simps mapM_args [OF assms(2)]
          bindM_def rb_protect_funcall_run running_world_ok running_world_raise
          split: prod.splits sum.splits)
  next
    case (Some x)
    then show ?thesis
      unfolding rb_sqlite3_aggregator_step_def s
      by (simp add: aggregate_instance_running [OF assms(1)] running_world_simps bindM_def)
  qed
qed

lemma steps_running:
  assumes "instances (aws w aw) = Some r" and "list_all valid_args argvs"
  shows "iterM (rb_sqlite3_aggregator_step U aw cid ok) argvs (running_world r cid w s) =
    (Inr (), running_world r cid w (fold (spec_step U) (map rb_args argvs) s))"
  using assms(2) by (induction argvs arbitrary: s) (simp_all add: step_running [OF assms(1)])

text \<open>A fresh context: the first callback makes the instance.\<close>

lemma aggregate_instance_fresh:
  assumes "instances (aws w aw) = Some r" and "aggmem w cid = None \<or> aggmem w cid = Some SlotFalse"
  shows "rb_sqlite3_aggregate_instance U aw cid True w =
      rb_sqlite3_aggregate_instance U aw cid True
        (running_world r cid w (spec_new U (handler_klass (aws w aw)) (usr w)))"
  using assms by (auto simp: aggregate_instance_run aggregate_instance_running instance_world_running)

lemma aggregation_fresh:
  assumes "instances (aws w aw) = Some r" and "aggmem w cid = None \<or> aggmem w cid = Some SlotFalse"
  shows "aggregation L U aw cid argvs w =
      aggregation L U aw cid argvs
        (running_world r cid w (spec_new U (handler_klass (aws w aw)) (usr w)))"
  unfolding aggregation_def rb_sqlite3_aggregator_final_def
  by (cases argvs)
    (auto simp: rb_sqlite3_aggregator_step_def
      intro!: bindM_same_start aggregate_instance_fresh [OF assms])

text \<open>The world after the final callback of an aggregation that has destroyed its instance.\<close>

lemma destroy_running:
  assumes "instances (aws w aw) = Some r"
  shows "rb_sqlite3_aggregate_instance_destroy aw cid (running_world r cid w s) =
    (Inr (), destroyed_world r cid (next_ref w) (running_world r cid w s))"
  using assms by (intro destroy_run) (simp_all add: running_world_simps)

definition finished_like :: "nat \<Rightarrow> ('e, 'u) world \<Rightarrow> ('e, 'u) world \<Rightarrow> bool" where
  "finished_like cid w w' \<longleftrightarrow>
     aggmem w' = (aggmem w)(cid := Some SlotNil) \<and> arys w' = arys w \<and> aws w' = aws w \<and>
     dbs w' = dbs w \<and> stmts w' = stmts w \<and> calls w' = calls w"

lemma finished_like_destroyed:
  assumes "RInst (next_ref w) \<notin> set (arys w r)"
  shows "finished_like cid w (destroyed_world r cid (next_ref w) (running_world r cid w s))"
proof -
  have "filter (\<lambda>x. x \<noteq> RInst (next_ref w)) (arys w r) = arys w r"
    using assms by (auto simp: filter_id_conv)
  then show ?thesis
    by (cases s) (auto simp: finished_like_def destroyed_world_def running_world.simps upd_defs fun_eq_iff)
qed

lemma running_world_usr:
  "(running_world r cid w (h, None, u))\<lparr>usr := u'\<rparr> = running_world r cid w (h, None, u')"
  "(running_world r cid w (h, None, u))\<lparr>errinfo := Some x\<rparr> =
     running_world r cid (w\<lparr>errinfo := Some x\<rparr>) (h, None, u)"
  by (rule world.equality; simp add: running_world.simps upd_defs)+

lemma final_running:
  assumes "instances (aws w aw) = Some r"
  shows "rb_sqlite3_aggregator_final L U aw cid ok (running_world r cid w (h, p, u)) =
    (let done = \<lambda>v u'. destroyed_world r cid (next_ref w) (running_world r cid v (h, p, u')) in
     case p of
       Some x \<Rightarrow> (Inr (FR_error ''Ruby Exception occurred''), done w u)
     | None \<Rightarrow>
       (case u_call U h ''finalize'' [] u of
          (Inl x, u') \<Rightarrow> (Inr (FR_error ''Ruby Exception occurred''), done (w\<lparr>errinfo := Some x\<rparr>) u')
        | (Inr v, u') \<Rightarrow>
            (case set_sqlite3_func_result L v of
               Inl e \<Rightarrow> (Inl e, running_world r cid w (h, None, u'))
             | Inr res \<Rightarrow> (Inr res, done w u'))))"
proof -
  have d: "rb_sqlite3_aggregate_instance_destroy aw cid (running_world r cid v s) =
      (Inr (), destroyed_world r cid (next_ref w) (running_world r cid v s))"
    if "aws v = aws w" "next_ref v = next_ref w" for v :: "('c, 'b) world" and s
    using destroy_running [of v aw r cid s] assms that by simp
  show ?thesis
    unfolding rb_sqlite3_aggregator_final_def
    by (cases p) (simp_all add: aggregate_instance_running [OF assms] running_world_simps
        bindM_def rb_protect_funcall_run d running_world_usr split: prod.splits sum.splits)
qed

lemma finished_like_errinfo [simp]: "finished_like cid (w\<lparr>errinfo := x\<rparr>) w' = finished_like cid w w'"
  by (simp add: finished_like_def)

lemma destroyed_running_simps:
  "usr (destroyed_world r cid i (running_world r cid w (h, p, u))) = u"
  "errinfo (destroyed_world r cid i (running_world r cid w (h, p, u))) =
     (case p of None \<Rightarrow> errinfo w | Some x \<Rightarrow> Some x)"
  "errinfo (running_world r cid w (h, p, u)) = (case p of None \<Rightarrow> errinfo w | Some x \<Rightarrow> Some x)"
  by (simp_all add: destroyed_world_def running_world.simps upd_defs)

text \<open>C13: an aggregation refines its abstract specification. SQLite steps a fresh context with
  any rows and finalizes it; the user's handler sees one \<open>new\<close>, one \<open>step\<close> per row until
  one of the calls raises (and none after that), and one \<open>finalize\<close> if nothing has raised.
  The callback leaves the converted result of \<open>finalize\<close>, or, when a call has raised, the error
  value with the exception pending in the interpreter. Either way the instance is gone from the
  array that kept it alive and the context is marked as destroyed; nothing else of the extension
  has changed. If SQLite cannot represent the result the conversion's exception leaves the
  callback and the instance stays.\<close>

theorem aggregation_refines:
  assumes inv: "agg_inv A w" and r: "instances (aws w aw) = Some r"
    and slot: "aggmem w cid = None \<or> aggmem w cid = Some SlotFalse"
    and args: "list_all valid_args argvs"
  shows "\<exists>w'. case spec_aggregate U (handler_klass (aws w aw)) (map rb_args argvs) (usr w) of
      (Inl x, u) \<Rightarrow>
        aggregation L U aw cid argvs w = (Inr (FR_error ''Ruby Exception occurred''), w') \<and>
        errinfo w' = Some x \<and> usr w' = u \<and> finished_like cid w w'
    | (Inr v, u) \<Rightarrow>
        errinfo w' = errinfo w \<and> usr w' = u \<and>
        (case set_sqlite3_func_result L v of
           Inr res \<Rightarrow> aggregation L U aw cid argvs w = (Inr res, w') \<and> finished_like cid w w'
         | Inl e \<Rightarrow> aggregation L U aw cid argvs w = (Inl e, w') \<and>
             aggmem w' cid = Some (SlotInst (next_ref w)) \<and>
             arys w' r = arys w r @ [RInst (next_ref w)])"
proof -
  obtain h p u where s: "fold (spec_step U) (map rb_args argvs) (spec_new U (handler_klass (aws w aw)) (usr w)) = (h, p, u)"
    by (metis prod_cases3)
  have notin: "RInst (next_ref w) \<notin> set (arys w r)"
    using agg_inv_array [OF inv r] agg_inv_less [OF inv] by (auto simp: live_def)
  have run: "aggregation L U aw cid argvs w = rb_sqlite3_aggregator_final L U aw cid True (running_world r cid w (h, p, u))"
    unfolding aggregation_fresh [OF r slot]
    by (simp add: aggregation_def steps_running [OF r args] s)
  have fin: "finished_like cid w (destroyed_world r cid (next_ref w) (running_world r cid w q))"
    "finished_like cid w (destroyed_world r cid (next_ref w) (running_world r cid (w\<lparr>errinfo := Some x\<rparr>) q))"
    for x q
    using finished_like_destroyed [OF notin] finished_like_destroyed [of "w\<lparr>errinfo := Some x\<rparr>" r cid q] notin
    by simp_all
  note facts = Let_def fin destroyed_running_simps running_world_simps
  show ?thesis
  proof (cases p)
    case (Some x)
    then show ?thesis unfolding run final_running [OF r] spec_aggregate_def s by (simp add: facts)
  next
    case None
    show ?thesis
    proof (cases "u_call U h ''finalize'' [] u")
      case (Pair res u')
      show ?thesis
      proof (cases res)
        case (Inl x)
        with None Pair show ?thesis
          unfolding run final_running [OF r] spec_aggregate_def s by (simp add: facts)
      next
        case (Inr v)
        with None Pair show ?thesis
          unfolding run final_running [OF r] spec_aggregate_def s
          by (cases "set_sqlite3_func_result L v") (auto simp: facts)
      qed
    qed
  qed
qed

definition sample_agg_world :: "(unit, unit) world" where
  "sample_agg_world =
     sample_world\<lparr>next_ref := 3, aws := (\<lambda>_. \<lparr>handler_klass = RNil, instances = None\<rparr>)
       (1 := \<lparr>handler_klass = RObject 4, instances = Some 2\<rparr>)\<rparr>"

lemma sample_agg_inv: "agg_inv (\<lambda>_. 1) sample_agg_world"
  by (rule agg_invI)
    (auto simp: sample_agg_world_def sample_world_def live_def refs_bounded_def arrays_separate_def
      ivar_arrays_def split: if_splits)

theorem aggregation_refines_witness:
  "\<exists>w'. aggregation sample_lib sample_user 1 0 [[]] sample_agg_world = (Inr FR_null, w') \<and>
     finished_like 0 sample_agg_world w'"
proof -
  have "instances (aws sample_agg_world 1) = Some 2" "aggmem sample_agg_world 0 = None"
    by (simp_all add: sample_agg_world_def sample_world_def)
  from aggregation_refines [OF sample_agg_inv this(1) disjI1 [OF this(2)],
      of "[[]]" sample_lib sample_user]
  show ?thesis
    by (auto simp: spec_aggregate_def spec_new_def sample_user_def rb_args_def
        set_sqlite3_func_result_def)
qed

text \<open>A result of \<open>finalize\<close> that SQLite cannot represent (an array, a symbol, \<open>true\<close>) is
  converted outside \<open>rb_protect\<close>: the RuntimeError leaves the callback through the frames of
  SQLite, the pending exception is not set, and the instance is left behind in the array, alive
  for as long as the connection.\<close>

lemma unsupported_finalize_result:
  assumes "instances (aws w aw) = Some r" and "aggmem w cid = Some (SlotInst i)"
    and "exc_status (insts w i) = 0"
    and "u_call U (handler_instance (insts w i)) ''finalize'' [] (usr w) = (Inr v, u)"
    and "set_sqlite3_func_result L v = Inl e"
  shows "rb_sqlite3_aggregator_final L U aw cid ok w = (Inl e, w\<lparr>usr := u\<rparr>)"
  using assms
  by (simp add: rb_sqlite3_aggregator_final_def aggregate_instance_run bindM_def
      rb_protect_funcall_run)

text \<open>The fatal errors of \<open>aggregator.c\<close>.\<close>

definition fatal :: "abort \<Rightarrow> bool" where
  "fatal x \<longleftrightarrow> x \<in> {fatal_out_of_memory, fatal_destroyed, fatal_destroyed_twice, fatal_not_in_instances}"

lemma class_table_not_fatal: "FatalError \<notin> set class_table"
  by (simp add: class_table_def)

lemma conversion_not_fatal:
  "sqlite3val2rb v = Inl x \<Longrightarrow> \<not> fatal x"
  "set_sqlite3_func_result L r = Inl x \<Longrightarrow> \<not> fatal x"
  by (auto simp: sqlite3val2rb_def fatal_def set_sqlite3_func_result_def NUM2DBL_def
      split: if_splits rb_value.splits option.splits)

lemma not_fatal_funcall [aborts_intros]: "aborts_in P (rb_sqlite3_protected_funcall U s m ps)"
  by (auto simp: aborts_in_def rb_protect_funcall_run split: prod.splits sum.splits)

lemma aggregate_instance_returns:
  assumes "agg_inv A w" and "instances (aws w (A cid)) = Some r" and "aggmem w cid \<noteq> Some SlotNil"
  shows "\<exists>i v. rb_sqlite3_aggregate_instance U (A cid) cid True w = (Inr i, v) \<and>
    agg_inv A v \<and> aggmem v cid = Some (SlotInst i) \<and> aws v = aws w"
proof (cases "\<exists>i. aggmem w cid = Some (SlotInst i)")
  case True
  then show ?thesis using assms by (auto simp: aggregate_instance_run)
next
  case False
  then have "aggmem w cid = None \<or> aggmem w cid = Some SlotFalse"
    using assms(3) by (cases "aggmem w cid") (auto, metis agg_slot.exhaust)
  moreover have "aggmem (instance_world U (A cid) cid r w) cid = Some (SlotInst (next_ref w))"
    "aws (instance_world U (A cid) cid r w) = aws w"
    by (simp_all add: instance_world_def upd_defs split: prod.splits sum.splits)
  ultimately show ?thesis
    using assms agg_inv_instance_world [OF assms(1,2)] by (auto simp: aggregate_instance_run)
qed

lemma step_not_fatal:
  assumes "rb_sqlite3_aggregate_instance U aw cid True w = (Inr i, v)"
    and "fst (rb_sqlite3_aggregator_step U aw cid True argv w) = Inl x"
  shows "\<not> fatal x"
proof -
  have "aborts_in (\<lambda>x. \<not> fatal x) (bindM (mapM (\<lambda>a. liftE (sqlite3val2rb a)) argv) (\<lambda>params.
      bindM (rb_sqlite3_protected_funcall U h ''step'' params) (\<lambda>(r, exc).
      modM (upd_inst i (\<lambda>i. i\<lparr>exc_status := exc\<rparr>)))))" for h
    by (intro aborts_intros) (auto dest: conversion_not_fatal)
  then show ?thesis
    using assms by (auto simp: rb_sqlite3_aggregator_step_def aborts_in_def split: if_splits)
qed

lemma final_not_fatal:
  fixes w v :: "('e, 'u) world"
  assumes "rb_sqlite3_aggregate_instance U aw cid True w = (Inr i, v)" and "aggmem v cid = Some (SlotInst i)"
    and s: "instances (aws v aw) = Some s" "RInst i \<in> set (arys v s)"
    and abort: "fst (rb_sqlite3_aggregator_final L U aw cid True w) = Inl x"
  shows "\<not> fatal x"
proof -
  define J where "J w' \<longleftrightarrow> aws w' = aws v \<and> arys w' = arys v \<and> aggmem w' = aggmem v" for w' :: "('e, 'u) world"
  define m :: "('e, 'u, func_result \<times> cint) rb" where "m = (if exc_status (insts v i) \<noteq> 0 then ret (FR_none, exc_status (insts v i))
      else bindM (rb_sqlite3_protected_funcall U (handler_instance (insts v i)) ''finalize'' [])
             (\<lambda>(result, exc).
           if exc \<noteq> 0 then ret (FR_none, exc)
           else bindM (liftE (set_sqlite3_func_result L result)) (\<lambda>r. ret (r, exc))))"
  have "keeps J (rb_sqlite3_protected_funcall U h meth ps)" for h meth ps
    by (rule keepsI) (auto simp: J_def rb_protect_funcall_run split: prod.splits sum.splits)
  then have J: "keeps J m" unfolding m_def by (intro keeps_intros)
  have m: "aborts_in (\<lambda>x. \<not> fatal x) m"
    unfolding m_def by (intro aborts_intros) (auto dest: conversion_not_fatal)
  have "fst (bindM m (\<lambda>(r, exc). bindM (rb_sqlite3_aggregate_instance_destroy aw cid)
      (\<lambda>_. ret (if exc \<noteq> 0 then FR_error ''Ruby Exception occurred'' else r))) v) = Inl x"
    using abort by (simp add: rb_sqlite3_aggregator_final_def assms(1) m_def)
  moreover have "J w' \<Longrightarrow> rb_sqlite3_aggregate_instance_destroy aw cid w' = (Inr (), destroyed_world s cid i w')" for w'
    using destroy_run [of w' aw s cid i] s assms(2) by (simp add: J_def)
  moreover have "J v" by (simp add: J_def)
  ultimately show "\<not> fatal x"
    using aborts_inD [OF m, of v x] keepsD [OF J, of v]
    by (cases "m v"; cases "fst (m v)") (auto split: prod.splits)
qed

text \<open>C26: the three fatal errors of \<open>aggregator.c\<close> guard against what cannot happen: whatever
  SQLite asks of a context of a wrapper that \<open>define_aggregator2\<close> made, as long as it has memory
  and does not call a context again after its final callback, no callback ends in a fatal error;
  a call after the final one does, and changes nothing.\<close>

theorem aggregate_callbacks_not_fatal:
  fixes w :: "('e, 'u) world"
  assumes inv: "agg_inv A w" and r: "instances (aws w (A cid)) = Some r"
  shows "(if aggmem w cid = Some SlotNil
     then rb_sqlite3_aggregator_step U (A cid) cid True argv w = (Inl fatal_destroyed, w) \<and>
          rb_sqlite3_aggregator_final L U (A cid) cid True w = (Inl fatal_destroyed, w)
     else (\<forall>x. fst (rb_sqlite3_aggregator_step U (A cid) cid True argv w) = Inl x \<longrightarrow> \<not> fatal x) \<and>
          (\<forall>x. fst (rb_sqlite3_aggregator_final L U (A cid) cid True w) = Inl x \<longrightarrow> \<not> fatal x))"
proof (cases "aggmem w cid = Some SlotNil")
  case True
  with r show ?thesis
    by (simp add: rb_sqlite3_aggregator_step_def rb_sqlite3_aggregator_final_def
        aggregate_instance_run bindM_def)
next
  case False
  from aggregate_instance_returns [OF inv r this] obtain i v
    where v: "rb_sqlite3_aggregate_instance U (A cid) cid True w = (Inr i, v)" "agg_inv A v"
      "aggmem v cid = Some (SlotInst i)" "aws v = aws w" by blast
  obtain s where "instances (aws v (A cid)) = Some s" "RInst i \<in> set (arys v s)"
    using agg_inv_live [OF v(2,3)] by blast
  with step_not_fatal [OF v(1)] final_not_fatal [OF v(1,3)] False show ?thesis by auto
qed

theorem aggregate_callbacks_not_fatal_witness:
  "(case fst (rb_sqlite3_aggregator_step sample_user 1 0 True [] sample_agg_world) of
      Inl x \<Rightarrow> \<not> fatal x | Inr _ \<Rightarrow> True) \<and>
   (case fst (rb_sqlite3_aggregator_final sample_lib sample_user 1 0 True sample_agg_world) of
      Inl x \<Rightarrow> \<not> fatal x | Inr _ \<Rightarrow> True)"
proof -
  have r: "instances (aws sample_agg_world 1) = Some 2" and "aggmem sample_agg_world 0 \<noteq> Some SlotNil"
    by (simp_all add: sample_agg_world_def sample_world_def)
  then show ?thesis
    using aggregate_callbacks_not_fatal [OF sample_agg_inv r, of 0 sample_user "[]" sample_lib]
    by (simp split: sum.splits)
qed

text \<open>C15: the bookkeeping of the instances in flight is an invariant of every operation on
  aggregates, whatever the handler's methods and the library answer, and however the operation
  ends: distinct live contexts hold distinct instances, distinct wrappers have distinct arrays,
  and the array of a wrapper holds exactly the instances of its live contexts, each once, so
  every object that SQLite's memory refers to is reachable from the Database object.\<close>

theorem aggregator_invariant:
  "keeps (agg_inv A) (rb_sqlite3_aggregator_step U (A cid) cid ok argv) \<and>
   keeps (agg_inv A) (rb_sqlite3_aggregator_final L U (A cid) cid ok) \<and>
   keeps (agg_inv A) (rb_sqlite3_define_aggregator2 L U self aggregator ruby_name)"
  by (intro conjI keeps_intros)

end
