(* ===== verification/Callbacks.thy ===== *)
theory Callbacks
  imports Aggregator
begin

text \<open>
  The functions of \<open>ext/sqlite3/database.c\<close> that SQLite calls: the tracer, the busy handler,
  the progress handler of the statement timeout, the authorizer, the comparator of a collation
  and the two row callbacks of \<open>exec_batch\<close>; and the handler of all callbacks, with the
  invariants it keeps. Only the scalar functions and the aggregates run the user's code under
  \<open>rb_protect\<close>; an exception of the others unwinds the frames of SQLite.
\<close>

section \<open>The callbacks\<close>

definition tracefunc :: "'u rb_user \<Rightarrow> nat \<Rightarrow> string \<Rightarrow> ('e, 'u, unit) rb" where
  "tracefunc U data sql =
     bindM (getM (\<lambda>w. d_trace_handler (dbs w data))) (\<lambda>handler.
     bindM (rb_funcall U handler ''call'' [rb_str_new_cstr sql]) (\<lambda>_. ret ()))"

definition rb_sqlite3_busy_handler :: "'u rb_user \<Rightarrow> nat \<Rightarrow> cint \<Rightarrow> ('e, 'u, cint) rb" where
  "rb_sqlite3_busy_handler U context count =
     bindM (getM (\<lambda>w. d_busy_handler (dbs w context))) (\<lambda>handle.
     bindM (rb_funcall U handle ''call'' [INT2NUM count]) (\<lambda>result.
     ret (if result = RFalse then 0 else 1)))"

definition rb_sqlite3_statement_timeout :: "nat \<Rightarrow> timespec \<Rightarrow> ('e, 'u, cint) rb" where
  "rb_sqlite3_statement_timeout context currentTime =
     bindM (getM (\<lambda>w. d_stmt_deadline (dbs w context))) (\<lambda>deadline.
     if \<not> timespecisset deadline
     then bindM (modM (upd_db context (\<lambda>d. d\<lparr>d_stmt_deadline := currentTime\<rparr>))) (\<lambda>_. ret 0)
     else if timespecafter currentTime deadline then ret 1
     else ret 0)"

definition cstr_or_nil :: "string option \<Rightarrow> rb_value" where
  "cstr_or_nil s = (case s of None \<Rightarrow> RNil | Some t \<Rightarrow> rb_str_new_cstr t)"

definition rb_sqlite3_auth ::
  "'u rb_user \<Rightarrow> nat \<Rightarrow> cint \<Rightarrow> string option \<Rightarrow> string option \<Rightarrow> string option \<Rightarrow> string option \<Rightarrow>
    ('e, 'u, cint) rb" where
  "rb_sqlite3_auth U ctx action a b c d =
     bindM (getM (\<lambda>w. d_authorizer (dbs w ctx))) (\<lambda>authorizer.
     bindM (rb_funcall U authorizer ''call''
              [INT2NUM action, cstr_or_nil a, cstr_or_nil b, cstr_or_nil c, cstr_or_nil d])
       (\<lambda>result.
     if rb_type_of result = T_FIXNUM then liftE (NUM2INT result)
     else if result = RTrue then ret SQLITE_OK
     else if result = RFalse then ret SQLITE_DENY
     else ret SQLITE_IGNORE))"

text \<open>The strings to compare come in UTF-8 and are exported to the default internal encoding.\<close>

definition rb_comparator_func :: "'u rb_user \<Rightarrow> rb_value \<Rightarrow> string \<Rightarrow> string \<Rightarrow> ('e, 'u, cint) rb" where
  "rb_comparator_func U comparator a b =
     bindM (rb_funcall U comparator ''compare''
              [export_internal U (rb_utf8_str_new a), export_internal U (rb_utf8_str_new b)])
       (\<lambda>comparison. liftE (NUM2INT comparison))"

text \<open>
  The row callbacks of \<open>exec_batch\<close>: \<open>data\<close> and \<open>columns\<close> have \<open>count\<close> entries, and a
  repeated column name overwrites the earlier entry of the hash.
\<close>

definition hash_callback_function :: "nat \<Rightarrow> string option list \<Rightarrow> string list \<Rightarrow> ('e, 'u, cint) rb" where
  "hash_callback_function callback_ary data columns =
     (let new_hash = fold (\<lambda>(c, d). hash_aset (rb_obj_freeze (rb_str_new_cstr c)) (cstr_or_nil d)) (zip columns data) []
      in bindM (modM (upd_ary callback_ary (\<lambda>vs. vs @ [RHash new_hash]))) (\<lambda>_. ret 0))"

definition regular_callback_function :: "nat \<Rightarrow> string option list \<Rightarrow> string list \<Rightarrow> ('e, 'u, cint) rb" where
  "regular_callback_function callback_ary data columns =
     bindM (modM (upd_ary callback_ary (\<lambda>vs. vs @ [RArray (map cstr_or_nil data)]))) (\<lambda>_. ret 0)"

section \<open>All callbacks\<close>

fun callback_handler :: "'e sqlite_lib \<Rightarrow> 'u rb_user \<Rightarrow> cb_req \<Rightarrow> ('e, 'u, cb_res) rb" where
  "callback_handler L U (CB_func callable argv) =
     bindM (rb_sqlite3_func L U callable argv) (\<lambda>r. ret (CR_result r))"
| "callback_handler L U (CB_agg_step aw cid ok argv) =
     bindM (rb_sqlite3_aggregator_step U aw cid ok argv) (\<lambda>_. ret CR_void)"
| "callback_handler L U (CB_agg_final aw cid ok) =
     bindM (rb_sqlite3_aggregator_final L U aw cid ok) (\<lambda>r. ret (CR_result r))"
| "callback_handler L U (CB_busy self count) =
     bindM (rb_sqlite3_busy_handler U self count) (\<lambda>n. ret (CR_int n))"
| "callback_handler L U (CB_progress self now) =
     bindM (rb_sqlite3_statement_timeout self now) (\<lambda>n. ret (CR_int n))"
| "callback_handler L U (CB_auth self action a b c d) =
     bindM (rb_sqlite3_auth U self action a b c d) (\<lambda>n. ret (CR_int n))"
| "callback_handler L U (CB_trace self sql) =
     bindM (tracefunc U self sql) (\<lambda>_. ret CR_void)"
| "callback_handler L U (CB_compare comparator a b) =
     bindM (rb_comparator_func U comparator a b) (\<lambda>n. ret (CR_int n))"
| "callback_handler L U (CB_row ary as_hash data columns) =
     bindM (if as_hash then hash_callback_function ary data columns
            else regular_callback_function ary data columns) (\<lambda>n. ret (CR_int n))"

lemmas callback_defs =
  tracefunc_def rb_sqlite3_busy_handler_def rb_sqlite3_statement_timeout_def rb_sqlite3_auth_def
  rb_comparator_func_def hash_callback_function_def regular_callback_function_def

section \<open>What callbacks keep\<close>

text \<open>
  A callback touches the user's heap, the pending exception, the aggregates' objects and
  contexts, the result arrays of \<open>exec_batch\<close> and the deadline of a database; an array grows or
  loses an aggregate instance. An invariant that
  these steps keep is kept by every callback.
\<close>

locale callback_frame =
  fixes I :: "('e, 'u) world \<Rightarrow> bool"
  assumes usr: "I w \<Longrightarrow> I (w\<lparr>usr := u\<rparr>)"
    and errinfo: "I w \<Longrightarrow> I (w\<lparr>errinfo := Some x\<rparr>)"
    and inst: "I w \<Longrightarrow> I (upd_inst i f w)"
    and slot: "I w \<Longrightarrow> I (upd_slot c g w)"
    and push: "I w \<Longrightarrow> I (upd_ary r (\<lambda>vs. vs @ [v]) w)"
    and delete: "I w \<Longrightarrow> I (upd_ary r (filter (\<lambda>x. x \<noteq> RInst i)) w)"
    and ref: "I w \<Longrightarrow> I (w\<lparr>next_ref := Suc (next_ref w)\<rparr>)"
    and deadline: "I w \<Longrightarrow> I (upd_db s (\<lambda>d. d\<lparr>d_stmt_deadline := t\<rparr>) w)"
    and env: "I w \<Longrightarrow> I (w\<lparr>env := e\<rparr>)"
begin

lemma keeps_funcall: "keeps I (rb_funcall U recv meth args)"
  by (rule keeps_rb_funcall) (rule usr)

lemma keeps_protected: "keeps I (rb_sqlite3_protected_funcall U recv meth args)"
  unfolding rb_sqlite3_protected_funcall_def
  by (intro keeps_intros keeps_rb_protect keeps_funcall errinfo)

lemma keeps_steps:
  "keeps I (modM (upd_inst i f))" "keeps I (modM (upd_slot c g))"
  "keeps I (modM (upd_ary r (\<lambda>vs. vs @ [v])))"
  "keeps I (modM (upd_db s (\<lambda>d. d\<lparr>d_stmt_deadline := t\<rparr>)))" "keeps I fresh_ref"
  "keeps I (rb_ary_push a v)" "keeps I (rb_ary_delete a (RInst i))" "keeps I (aggregate_context c ok)"
  by (auto intro!: keeps_modM inst slot push delete deadline keepsI ref
      simp: fresh_ref_def rb_ary_push_def rb_ary_delete_def aggregate_context_def split: option.splits)

lemma keeps_instance: "keeps I (rb_sqlite3_aggregate_instance U aw cid ok)"
  unfolding rb_sqlite3_aggregate_instance_def new_aggregate_instance_def
  by (auto intro!: keeps_intros keeps_protected keeps_steps split: option.splits agg_slot.splits)

lemma keeps_instance_destroy: "keeps I (rb_sqlite3_aggregate_instance_destroy aw cid)"
  unfolding rb_sqlite3_aggregate_instance_destroy_def
  by (auto intro!: keeps_intros keeps_steps split: option.splits agg_slot.splits)

lemma keeps_callback: "keeps I (callback_handler L U q)"
proof (cases q)
  case (CB_func callable argv)
  then show ?thesis
    by (auto intro!: keeps_bindM keeps_rb_sqlite3_func usr errinfo)
next
  case (CB_agg_step aw cid ok argv)
  then show ?thesis
    by (auto simp: rb_sqlite3_aggregator_step_def
        intro!: keeps_intros keeps_protected keeps_steps keeps_instance)
next
  case (CB_agg_final aw cid ok)
  then show ?thesis
    by (auto simp: rb_sqlite3_aggregator_final_def
        intro!: keeps_intros keeps_protected keeps_instance keeps_instance_destroy)
qed (auto simp: callback_defs Let_def intro!: keeps_intros keeps_funcall keeps_steps)

sublocale callback_invariant "\<lambda>_. True" I "callback_handler L U" for L U
  by unfold_locales (auto intro: keeps_callback env)

end

text \<open>The structs of the statements and backups, the handles, the owners and the flags.\<close>

definition db_handles_same :: "('e, 'u) world \<Rightarrow> ('e, 'u) world \<Rightarrow> bool" where
  "db_handles_same v w \<longleftrightarrow>
     (\<forall>r. d_db (dbs w r) = d_db (dbs v r) \<and> d_owner (dbs w r) = d_owner (dbs v r) \<and>
          d_flags (dbs w r) = d_flags (dbs v r))"

definition structs_same :: "('e, 'u) world \<Rightarrow> ('e, 'u) world \<Rightarrow> bool" where
  "structs_same v w \<longleftrightarrow>
     db_handles_same v w \<and> stmts w = stmts v \<and> backups w = backups v \<and> pid w = pid v \<and>
     calls w = calls v"

interpretation structs: callback_frame "structs_same v" for v
  by unfold_locales (simp_all add: structs_same_def db_handles_same_def upd_defs)

interpretation pending: callback_frame "\<lambda>w. errinfo w \<noteq> None"
  by unfold_locales (simp_all add: upd_defs)

text \<open>The bookkeeping of the aggregates, when SQLite ties every context to one wrapper.\<close>

fun owned_request :: "(nat \<Rightarrow> nat) \<Rightarrow> nat set \<Rightarrow> cb_req \<Rightarrow> bool" where
  "owned_request A R (CB_agg_step aw cid ok argv) \<longleftrightarrow> aw = A cid"
| "owned_request A R (CB_agg_final aw cid ok) \<longleftrightarrow> aw = A cid"
| "owned_request A R (CB_row ary as_hash data columns) \<longleftrightarrow> ary \<in> R"
| "owned_request A R _ \<longleftrightarrow> True"

definition agg_rows_inv :: "(nat \<Rightarrow> nat) \<Rightarrow> nat set \<Rightarrow> ('e, 'u) world \<Rightarrow> bool" where
  "agg_rows_inv A R w \<longleftrightarrow> agg_inv A w \<and> (\<forall>a r. instances (aws w a) = Some r \<longrightarrow> r \<notin> R)"

lemma keeps_conj: "keeps I m \<Longrightarrow> keeps J m \<Longrightarrow> keeps (\<lambda>w. I w \<and> J w) m"
  by (simp add: keeps_def)

interpretation wrappers: callback_frame "\<lambda>w. aws w = a" for a
  by unfold_locales (simp_all add: upd_defs)

lemma keeps_wrappers_callback: "keeps (\<lambda>w. P (aws w)) (callback_handler L U q)"
proof (rule keepsI)
  fix w :: "('a, 'b) world" assume "P (aws w)"
  moreover have "aws (snd (callback_handler L U q w)) = aws w"
    using keepsD [OF wrappers.keeps_callback, of w] by simp
  ultimately show "P (aws (snd (callback_handler L U q w)))" by simp
qed

lemma keeps_agg_rows_callback:
  assumes "owned_request A R q"
  shows "keeps (agg_rows_inv A R) (callback_handler L U q)"
proof (cases "\<exists>ary h d c. q = CB_row ary h d c")
  case True
  then obtain ary h d c where q: "q = CB_row ary h d c" by blast
  have "keeps (agg_rows_inv A R) (modM (upd_ary ary f))" for f
    using assms q agg_inv_upd_ary_other [of A _ ary f]
    by (intro keeps_modM) (auto simp: agg_rows_inv_def upd_ary_def)
  then show ?thesis
    by (auto simp: q hash_callback_function_def regular_callback_function_def Let_def
        intro!: keeps_bindM)
next
  case False
  have usr: "agg_inv A w \<Longrightarrow> agg_inv A (w\<lparr>usr := u\<rparr>)" for w :: "('a, 'b) world" and u by simp
  have "keeps (agg_inv A) (callback_handler L U q)"
    using assms False
    by (cases q) (auto simp: tracefunc_def rb_sqlite3_busy_handler_def
        rb_sqlite3_statement_timeout_def rb_sqlite3_auth_def rb_comparator_func_def
        intro!: keeps_intros keeps_rb_funcall keeps_rb_sqlite3_func)
  from keeps_conj [OF this keeps_wrappers_callback, of "\<lambda>a. \<forall>b r. instances (a b) = Some r \<longrightarrow> r \<notin> R"]
  show ?thesis by (simp add: agg_rows_inv_def [abs_def])
qed

interpretation agg_rows: callback_invariant "owned_request A R" "agg_rows_inv A R" "callback_handler L U"
  for A R L U
  by unfold_locales (auto intro: keeps_agg_rows_callback simp: agg_rows_inv_def)

section \<open>The callbacks' answers\<close>

text \<open>The statement timeout, polled with a sequence of readings of the clock.\<close>

text \<open>C38: a query is interrupted at the first poll that reads a later time than the first poll
  read: the first poll after a prepare takes its own reading as the deadline, and every
  later one answers whether its reading is after that. The number of milliseconds that the user
  has set is not consulted.\<close>

theorem statement_timeout_polls:
  assumes "\<not> timespecisset (d_stmt_deadline (dbs w s))" and "timespecisset t"
  shows "mapM (rb_sqlite3_statement_timeout s) (t # ts) w =
    (Inr (0 # map (\<lambda>now. if t < now then 1 else 0) ts),
     upd_db s (\<lambda>d. d\<lparr>d_stmt_deadline := t\<rparr>) w)"
proof -
  have later: "mapM (rb_sqlite3_statement_timeout s) ts v =
      (Inr (map (\<lambda>now. if t < now then 1 else 0) ts), v)"
    if "d_stmt_deadline (dbs v s) = t" for v :: "('a, 'b) world" and ts
    using that assms(2)
    by (induction ts) (auto simp: rb_sqlite3_statement_timeout_def bindM_def timespecafter_less)
  have "rb_sqlite3_statement_timeout s t w = (Inr 0, upd_db s (\<lambda>d. d\<lparr>d_stmt_deadline := t\<rparr>) w)"
    using assms(1) by (simp add: rb_sqlite3_statement_timeout_def bindM_def)
  then show ?thesis by (simp add: later)
qed

theorem statement_timeout_polls_witness:
  "mapM (rb_sqlite3_statement_timeout 0) [Timespec 5 0, Timespec 5 0, Timespec 5 1]
     (upd_db 0 (\<lambda>d. d\<lparr>d_stmt_timeout := 60000\<rparr>) sample_world) =
   (Inr [0, 0, 1], upd_db 0 (\<lambda>d. d\<lparr>d_stmt_deadline := Timespec 5 0\<rparr>)
     (upd_db 0 (\<lambda>d. d\<lparr>d_stmt_timeout := 60000\<rparr>) sample_world))"
  by (subst statement_timeout_polls)
    (simp_all add: sample_defs timespecclear_def timespecisset_def timespecafter_less [symmetric] timespecafter_def)

text \<open>The answer of an authorizer. The user's \<open>call\<close> gets the action and the four strings
  (\<open>nil\<close> for NULL); an integer of C's range is the answer itself, \<open>true\<close> allows, \<open>false\<close>
  denies, everything else, also \<open>nil\<close> and a bignum, ignores; a fixnum outside the range of
  \<open>int\<close> and an exception of the user leave the callback as exceptions.\<close>

lemma authorizer_answers:
  "fst (rb_sqlite3_auth U s action a b c d w) =
    (case fst (u_call U (d_authorizer (dbs w s)) ''call''
             [INT2NUM action, cstr_or_nil a, cstr_or_nil b, cstr_or_nil c, cstr_or_nil d] (usr w)) of
       Inl x \<Rightarrow> Inl (Raised x)
     | Inr (RInteger n) \<Rightarrow>
         if int_fits 32 n then Inr (word_of_int n)
         else if fixnum_p n
         then Inl (Raised (rb_error RangeError ''integer out of range of `int''))
         else Inr SQLITE_IGNORE
     | Inr RTrue \<Rightarrow> Inr SQLITE_OK
     | Inr RFalse \<Rightarrow> Inr SQLITE_DENY
     | Inr _ \<Rightarrow> Inr SQLITE_IGNORE)"
proof -
  have "int_fits 32 n \<Longrightarrow> fixnum_p n" for n by (simp add: int_fits_def fixnum_p_def)
  then show ?thesis
    by (auto simp: rb_sqlite3_auth_def bindM_def rb_funcall_def int_in_range_def
        split: prod.splits sum.splits rb_value.splits)
qed

end
