(* ===== verification/Handles.thy ===== *)
theory Handles
  imports Callbacks
begin

text \<open>
  The guards of the methods. Every method that uses a handle of SQLite starts with a check that
  the handle is there (\<open>REQUIRE_OPEN_DB\<close>, \<open>REQUIRE_OPEN_STMT\<close>, \<open>REQUIRE_OPEN_BACKUP\<close>).
  The locale is the contract of such a guard; the three guards of the extension are
  interpretations. The invariant \<open>no_null\<close> says that no call on a NULL handle has reached
  the library.
\<close>

locale guarded =
  fixes handle :: "('e, 'u) world \<Rightarrow> nat \<Rightarrow> nat option"
    and guard :: "nat \<Rightarrow> ('e, 'u, nat option) rb"
    and closed_msg :: string
  assumes guard_closed: "handle w r = None \<Longrightarrow>
      guard r w = (Inl (Raised (rb_error SQLite3_Exception closed_msg)), w)"
    and guard_open: "handle w r = Some h \<Longrightarrow> guard r w = (Inr (Some h), w)"
begin

text \<open>A guarded method on a closed object raises and does nothing else.\<close>

lemma guarded_closed:
  "handle w r = None \<Longrightarrow>
     bindM (guard r) f w = (Inl (Raised (rb_error SQLite3_Exception closed_msg)), w)"
  by (simp add: guard_closed)

lemma guarded_open: "handle w r = Some h \<Longrightarrow> bindM (guard r) f w = f (Some h) w"
  by (simp add: guard_open)

text \<open>The body of a guarded method sees the handle and never NULL.\<close>

lemma guarded_keeps:
  assumes "\<And>h. keeps I (f (Some h))"
  shows "keeps I (bindM (guard r) f)"
proof (rule keepsI)
  fix w assume "I w"
  then show "I (snd (bindM (guard r) f w))"
    using keepsD [OF assms]
    by (cases "handle w r") (simp_all add: guard_closed guard_open)
qed

lemma guarded_returns:
  assumes "bindM (guard r) f w = (Inr a, w')"
  obtains h where "handle w r = Some h" and "f (Some h) w = (Inr a, w')"
  using assms by (cases "handle w r") (auto simp: guard_closed guard_open)

end

definition require_open_db :: "nat \<Rightarrow> ('e, 'u, dbh option) rb" where
  "require_open_db self =
     bindM (getM (\<lambda>w. d_db (dbs w self))) (\<lambda>db.
     bindM (require (db \<noteq> None)
       (Raised (rb_error SQLite3_Exception ''cannot use a closed database''))) (\<lambda>_.
     ret db))"

definition require_open_stmt :: "nat \<Rightarrow> ('e, 'u, sth option) rb" where
  "require_open_stmt self =
     bindM (getM (\<lambda>w. s_st (stmts w self))) (\<lambda>st.
     bindM (require (st \<noteq> None)
       (Raised (rb_error SQLite3_Exception ''cannot use a closed statement''))) (\<lambda>_.
     ret st))"

definition require_open_backup :: "nat \<Rightarrow> ('e, 'u, bkh option) rb" where
  "require_open_backup self =
     bindM (getM (\<lambda>w. b_p (backups w self))) (\<lambda>p.
     bindM (require (p \<noteq> None)
       (Raised (rb_error SQLite3_Exception ''cannot use a closed backup''))) (\<lambda>_.
     ret p))"

interpretation open_db: guarded "\<lambda>w r. d_db (dbs w r)" require_open_db "''cannot use a closed database''"
  by unfold_locales (simp_all add: require_open_db_def bindM_def require_run)

interpretation open_stmt: guarded "\<lambda>w r. s_st (stmts w r)" require_open_stmt "''cannot use a closed statement''"
  by unfold_locales (simp_all add: require_open_stmt_def bindM_def require_run)

interpretation open_backup: guarded "\<lambda>w r. b_p (backups w r)" require_open_backup "''cannot use a closed backup''"
  by unfold_locales (simp_all add: require_open_backup_def bindM_def require_run)

lemmas guard_intros = open_db.guarded_keeps open_stmt.guarded_keeps open_backup.guarded_keeps

section \<open>No call on a NULL handle\<close>

definition no_null :: "('e, 'u) world \<Rightarrow> bool" where
  "no_null w \<longleftrightarrow> (\<forall>c \<in> set (calls w). \<not> null_call c)"

lemma allows_no_null: "\<not> null_call c \<Longrightarrow> allows no_null c"
  by (auto simp: allows_def no_null_def)

interpretation no_null: callback_frame no_null
  by unfold_locales (simp_all add: no_null_def upd_defs)

end
