(* ===== verification/Database.thy ===== *)
theory Database
  imports Handles
begin

unbundle bit_operations_syntax

text \<open>
  \<open>ext/sqlite3/database.c\<close>: the methods of \<open>SQLite3::Database\<close>. A Database object is the
  reference of its struct; a method with a block argument takes the block as an option. The
  properties are in \<open>Database_Laws\<close> and \<open>Fork_Safety\<close>.
\<close>

section \<open>Life cycle\<close>

definition database_allocate :: "('e, 'u, nat) rb" where
  "database_allocate =
     bindM fresh_ref (\<lambda>object.
     bindM (getM pid) (\<lambda>p.
     bindM (modM (upd_db object (\<lambda>_. zero_sqlite3Ruby\<lparr>d_owner := p\<rparr>))) (\<lambda>_.
     ret object)))"

text \<open>
  Releasing one file of a connection: ask for it with \<open>sqlite3_file_control\<close> and close it
  through its method table, when it has one.
\<close>

definition close_file :: "'e sqlite_lib \<Rightarrow> dbh option \<Rightarrow> string option \<Rightarrow> fcntl \<Rightarrow> ('e, 'u, unit) rb" where
  "close_file L db name op =
     bindM (sqlite_call (l_file L) (DbCall db (File_control name op))) (\<lambda>(status, sfile, has_methods).
     if status = 0 \<and> has_methods
     then bindM (sqlite_call (l_int L) (XClose sfile)) (\<lambda>_. ret ())
     else ret ())"

text \<open>
  The loop over the schemas of the connection, \<open>j_db = 0, 1, \<dots>\<close> until \<open>sqlite3_db_name\<close>
  returns NULL. SQLite has at most 127 schemas (\<open>main\<close>, \<open>temp\<close> and 125 attached ones), so
  128 rounds are enough; a library that named more would be outside the bound.
\<close>

primrec close_files :: "'e sqlite_lib \<Rightarrow> dbh option \<Rightarrow> nat \<Rightarrow> nat \<Rightarrow> ('e, 'u, unit) rb" where
  "close_files L db 0 j_db = fail (Undefined LoopBound)"
| "close_files L db (Suc fuel) j_db =
     bindM (sqlite_call (l_text L) (DbCall db (Db_name j_db))) (\<lambda>db_name.
     case db_name of
       None \<Rightarrow> ret ()
     | Some nm \<Rightarrow>
         bindM (close_file L db (Some nm) FCNTL_FILE_POINTER) (\<lambda>_.
         close_files L db fuel (Suc j_db)))"

definition schema_bound :: nat where
  "schema_bound = 128"

definition discard_db :: "'e sqlite_lib \<Rightarrow> nat \<Rightarrow> ('e, 'u, unit) rb" where
  "discard_db L ctx =
     bindM (getM (\<lambda>w. d_db (dbs w ctx))) (\<lambda>db.
     bindM (sqlite_call (l_int L) (DbCall db Db_release_memory)) (\<lambda>_.
     bindM (if l_has_db_name L then close_files L db schema_bound 0
            else close_file L db None FCNTL_FILE_POINTER) (\<lambda>_.
     bindM (close_file L db None FCNTL_JOURNAL_POINTER) (\<lambda>_.
     modM (upd_db ctx (\<lambda>d. d\<lparr>d_db := None, d_flags := d_flags d OR SQLITE3_RB_DATABASE_DISCARDED\<rparr>))))))"

definition close_or_discard_db :: "'e sqlite_lib \<Rightarrow> nat \<Rightarrow> ('e, 'u, unit) rb" where
  "close_or_discard_db L ctx =
     bindM (getM (\<lambda>w. dbs w ctx)) (\<lambda>d.
     bindM (getM pid) (\<lambda>p.
     if d_db d \<noteq> None
     then (let is_readonly = d_flags d AND SQLITE3_RB_DATABASE_READONLY in
       if is_readonly \<noteq> 0 \<or> d_owner d = p
       then bindM (sqlite_call (l_int L) (DbCall (d_db d) Close_v2)) (\<lambda>_.
            modM (upd_db ctx (\<lambda>d. d\<lparr>d_db := None\<rparr>)))
       else discard_db L ctx)
     else ret ()))"

text \<open>The finalizer of the object; the struct's memory is released after it.\<close>

definition database_deallocate :: "'e sqlite_lib \<Rightarrow> nat \<Rightarrow> ('e, 'u, unit) rb" where
  "database_deallocate L ctx = close_or_discard_db L ctx"

definition database_close :: "'e sqlite_lib \<Rightarrow> nat \<Rightarrow> ('e, 'u, nat) rb" where
  "database_close L self = bindM (close_or_discard_db L self) (\<lambda>_. ret self)"

definition database_discard :: "'e sqlite_lib \<Rightarrow> nat \<Rightarrow> ('e, 'u, nat) rb" where
  "database_discard L self = bindM (discard_db L self) (\<lambda>_. ret self)"

definition database_closed_p :: "nat \<Rightarrow> ('e, 'u, rb_value) rb" where
  "database_closed_p self =
     bindM (getM (\<lambda>w. d_db (dbs w self))) (\<lambda>db. ret (rb_bool (db = None)))"

section \<open>Opening\<close>

text \<open>\<open>REQUIRE_CLOSED_DB\<close>.\<close>

definition require_closed_db :: "nat \<Rightarrow> ('e, 'u, unit) rb" where
  "require_closed_db self =
     bindM (getM (\<lambda>w. d_db (dbs w self))) (\<lambda>db.
     require (db = None)
       (Raised (rb_error SQLite3_Exception ''cannot open a database that is already open'')))"

text \<open>
  What follows a failed open: the message is copied (\<open>sqlite3_mprintf("%s", ...)\<close> prints
  nothing for NULL), the half-open handle closed and forgotten, the exception raised.
\<close>

definition check_opened :: "'e sqlite_lib \<Rightarrow> nat \<Rightarrow> cint \<Rightarrow> dbh option \<Rightarrow> ('e, 'u, unit) rb" where
  "check_opened L self status db =
     (if status \<noteq> SQLITE_OK
      then bindM (sqlite_call (l_text L) (DbCall db Errmsg)) (\<lambda>errmsg.
           bindM (sqlite_call (l_int L) (DbCall db Close_v2)) (\<lambda>_.
           bindM (modM (upd_db self (\<lambda>d. d\<lparr>d_db := None\<rparr>))) (\<lambda>_.
           rb_sqlite3_raise_msg status (Some (case errmsg of None \<Rightarrow> [] | Some m \<Rightarrow> m)))))
      else ret ())"

text \<open>C leaves the order of the arguments open; the file is converted first here.\<close>

definition rb_sqlite3_open_v2 ::
  "'e sqlite_lib \<Rightarrow> nat \<Rightarrow> rb_value \<Rightarrow> rb_value \<Rightarrow> rb_value \<Rightarrow> ('e, 'u, nat) rb" where
  "rb_sqlite3_open_v2 L self file mode zvfs =
     bindM (require_closed_db self) (\<lambda>_.
     bindM (liftE (NUM2INT mode)) (\<lambda>flags.
     bindM (liftE (StringValueCStr file)) (\<lambda>filename.
     bindM (if NIL_P zvfs then ret None
            else bindM (liftE (StringValueCStr zvfs)) (\<lambda>z. ret (Some z))) (\<lambda>vfs.
     bindM (sqlite_call (l_open L) (Open_v2 filename flags vfs)) (\<lambda>(status, db).
     bindM (modM (upd_db self (\<lambda>d. d\<lparr>d_db := db\<rparr>))) (\<lambda>_.
     bindM (check_opened L self status db) (\<lambda>_.
     bindM (if flags AND SQLITE_OPEN_READONLY \<noteq> 0
            then modM (upd_db self (\<lambda>d. d\<lparr>d_flags := d_flags d OR SQLITE3_RB_DATABASE_READONLY\<rparr>))
            else ret ()) (\<lambda>_.
     ret self))))))))"

subsection \<open>UTF-16 file names\<close>

text \<open>\<open>String#codepoints\<close> of a UTF-16 string: the code units, then the surrogate pairs.\<close>

fun utf16_units :: "bool \<Rightarrow> string \<Rightarrow> nat list option" where
  "utf16_units le [] = Some []"
| "utf16_units le [a] = None"
| "utf16_units le (a # b # s) =
     map_option ((#) (if le then of_char a + 256 * of_char b else 256 * of_char a + of_char b))
       (utf16_units le s)"

fun utf16_codepoints :: "nat list \<Rightarrow> nat list option" where
  "utf16_codepoints [] = Some []"
| "utf16_codepoints (u # us) =
     (if 0xD800 \<le> u \<and> u < 0xDC00
      then (case us of
              v # vs \<Rightarrow> if 0xDC00 \<le> v \<and> v < 0xE000
                then map_option ((#) (0x10000 + (u - 0xD800) * 0x400 + (v - 0xDC00))) (utf16_codepoints vs)
                else None
            | [] \<Rightarrow> None)
      else if 0xDC00 \<le> u \<and> u < 0xE000 then None
      else map_option ((#) u) (utf16_codepoints us))"

definition rb_codepoints :: "bool \<Rightarrow> string \<Rightarrow> abort + nat list" where
  "rb_codepoints le s =
     (case Option.bind (utf16_units le s) utf16_codepoints of
        None \<Rightarrow> Inl (Raised (rb_error ArgumentError
                 (''invalid byte sequence in UTF-16'' @ (if le then ''LE'' else ''BE''))))
      | Some cs \<Rightarrow> Inr cs)"

text \<open>
  \<open>utf16_string_value_ptr\<close>: the pointer handed to SQLite (the bytes up to the terminator that
  \<open>rb_str_buf_cat\<close> appends) and the caller's string afterwards, which has the terminator.
\<close>

definition utf16_string_value_ptr :: "'e sqlite_lib \<Rightarrow> rb_value \<Rightarrow> abort + string \<times> rb_value" where
  "utf16_string_value_ptr L str =
     (case str of
        RString b enc s frozen \<Rightarrow>
          (let le = (if enc = UTF_16LE then True else if enc = UTF_16BE then False
                     else l_little_endian L) in
           case rb_codepoints le s of
             Inl x \<Rightarrow> Inl x
           | Inr codepoints \<Rightarrow>
               if 0 \<in> set codepoints
               then Inl (Raised (rb_error ArgumentError ''string contains null char''))
               else if frozen
               then Inl (Raised (rb_error FrozenError ''can't modify frozen String''))
               else Inr (s, RString b enc (s @ [nul, nul]) frozen))
      | _ \<Rightarrow> Inl (Raised (rb_error TypeError ''no implicit conversion into String'')))"

text \<open>The result is the value of the method and the argument as the method leaves it.\<close>

definition rb_sqlite3_open16 :: "'e sqlite_lib \<Rightarrow> nat \<Rightarrow> rb_value \<Rightarrow> ('e, 'u, rb_value \<times> rb_value) rb" where
  "rb_sqlite3_open16 L self file =
     bindM (require_closed_db self) (\<lambda>_.
     bindM (liftE (utf16_string_value_ptr L file)) (\<lambda>(filename, file').
     bindM (sqlite_call (l_open L) (Open16 filename)) (\<lambda>(status, db).
     bindM (modM (upd_db self (\<lambda>d. d\<lparr>d_db := db\<rparr>))) (\<lambda>_.
     bindM (check_opened L self status db) (\<lambda>_.
     ret (INT2NUM status, file'))))))"

definition rb_sqlite3_disable_quirk_mode :: "'e sqlite_lib \<Rightarrow> nat \<Rightarrow> ('e, 'u, rb_value) rb" where
  "rb_sqlite3_disable_quirk_mode L self =
     (if l_has_dqs L
      then bindM (getM (\<lambda>w. d_db (dbs w self))) (\<lambda>db.
           if db = None then ret RFalse
           else bindM (sqlite_call (l_int L) (DbCall db (Db_config DQS_DDL 0))) (\<lambda>_.
                bindM (sqlite_call (l_int L) (DbCall db (Db_config DQS_DML 0))) (\<lambda>_.
                ret RTrue)))
      else ret RFalse)"

end
