(* ===== verification/Database_Methods.thy ===== *)
theory Database_Methods
  imports Database
begin

text \<open>
  \<open>ext/sqlite3/database.c\<close>, the methods of an open connection: queries about its state,
  the registration of callbacks, extensions and \<open>exec_batch\<close>.
\<close>

section \<open>State of the connection\<close>

definition total_changes :: "'e sqlite_lib \<Rightarrow> nat \<Rightarrow> ('e, 'u, rb_value) rb" where
  "total_changes L self =
     bindM (require_open_db self) (\<lambda>db.
     bindM (sqlite_call (l_int L) (DbCall db Total_changes)) (\<lambda>n. ret (INT2NUM n)))"

definition last_insert_row_id :: "'e sqlite_lib \<Rightarrow> nat \<Rightarrow> ('e, 'u, rb_value) rb" where
  "last_insert_row_id L self =
     bindM (require_open_db self) (\<lambda>db.
     bindM (sqlite_call (l_i64 L) (DbCall db Last_insert_rowid)) (\<lambda>n. ret (LL2NUM n)))"

definition interrupt :: "'e sqlite_lib \<Rightarrow> nat \<Rightarrow> ('e, 'u, nat) rb" where
  "interrupt L self =
     bindM (require_open_db self) (\<lambda>db.
     bindM (sqlite_call (l_int L) (DbCall db Interrupt)) (\<lambda>_. ret self))"

text \<open>\<open>rb_str_new2\<close> refuses NULL.\<close>

definition rb_str_new2 :: "string option \<Rightarrow> abort + rb_value" where
  "rb_str_new2 s =
     (case s of None \<Rightarrow> Inl (Raised (rb_error ArgumentError ''NULL pointer given''))
      | Some t \<Rightarrow> Inr (rb_str_new_cstr t))"

definition errmsg :: "'e sqlite_lib \<Rightarrow> nat \<Rightarrow> ('e, 'u, rb_value) rb" where
  "errmsg L self =
     bindM (require_open_db self) (\<lambda>db.
     bindM (sqlite_call (l_text L) (DbCall db Errmsg)) (\<lambda>m. liftE (rb_str_new2 m)))"

definition errcode :: "'e sqlite_lib \<Rightarrow> nat \<Rightarrow> ('e, 'u, rb_value) rb" where
  "errcode L self =
     bindM (require_open_db self) (\<lambda>db.
     bindM (sqlite_call (l_int L) (DbCall db Errcode)) (\<lambda>n. ret (INT2NUM n)))"

definition complete_p :: "'e sqlite_lib \<Rightarrow> nat \<Rightarrow> rb_value \<Rightarrow> ('e, 'u, rb_value) rb" where
  "complete_p L self sql =
     bindM (liftE (StringValue sql)) (\<lambda>s.
     bindM (sqlite_call (l_int L) (Complete (cstr s))) (\<lambda>n. ret (rb_bool (n \<noteq> 0))))"

definition changes :: "'e sqlite_lib \<Rightarrow> nat \<Rightarrow> ('e, 'u, rb_value) rb" where
  "changes L self =
     bindM (require_open_db self) (\<lambda>db.
     bindM (sqlite_call (l_int L) (DbCall db Changes)) (\<lambda>n. ret (INT2NUM n)))"

definition transaction_active_p :: "'e sqlite_lib \<Rightarrow> nat \<Rightarrow> ('e, 'u, rb_value) rb" where
  "transaction_active_p L self =
     bindM (require_open_db self) (\<lambda>db.
     bindM (sqlite_call (l_int L) (DbCall db Get_autocommit)) (\<lambda>n.
     ret (if n \<noteq> 0 then RFalse else RTrue)))"

definition db_filename :: "'e sqlite_lib \<Rightarrow> nat \<Rightarrow> rb_value \<Rightarrow> ('e, 'u, rb_value) rb" where
  "db_filename L self db_name =
     bindM (require_open_db self) (\<lambda>db.
     bindM (liftE (StringValueCStr db_name)) (\<lambda>name.
     bindM (sqlite_call (l_text L) (DbCall db (Db_filename name))) (\<lambda>fname.
     ret (case fname of None \<Rightarrow> RNil | Some f \<Rightarrow> rb_utf8_str_new_cstr f))))"

section \<open>Registering callbacks\<close>

text \<open>
  \<open>rb_scan_args(argc, argv, "01", &block)\<close> followed by the block given to the method, if
  the argument is missing or \<open>nil\<close>.
\<close>

definition scan_callable :: "rb_value list \<Rightarrow> rb_value option \<Rightarrow> abort + rb_value" where
  "scan_callable argv given =
     (if 1 < length argv
      then Inl (Raised (rb_error ArgumentError
        (''wrong number of arguments (given '' @ show_nat (length argv) @ '', expected 0..1)'')))
      else let block = (case argv of [] \<Rightarrow> RNil | v # _ \<Rightarrow> v)
           in Inr (case given of Some b \<Rightarrow> if NIL_P block then b else block | None \<Rightarrow> block))"

definition trace :: "'e sqlite_lib \<Rightarrow> rb_value list \<Rightarrow> rb_value option \<Rightarrow> nat \<Rightarrow> ('e, 'u, nat) rb" where
  "trace L argv given self =
     bindM (require_open_db self) (\<lambda>db.
     bindM (liftE (scan_callable argv given)) (\<lambda>block.
     bindM (modM (upd_db self (\<lambda>d. d\<lparr>d_trace_handler := block\<rparr>))) (\<lambda>_.
     bindM (sqlite_call (l_int L) (DbCall db (Trace (if NIL_P block then None else Some self)))) (\<lambda>_.
     ret self))))"

definition busy_handler :: "'e sqlite_lib \<Rightarrow> rb_value list \<Rightarrow> rb_value option \<Rightarrow> nat \<Rightarrow> ('e, 'u, nat) rb" where
  "busy_handler L argv given self =
     bindM (require_open_db self) (\<lambda>db.
     bindM (liftE (scan_callable argv given)) (\<lambda>block.
     bindM (modM (upd_db self (\<lambda>d. d\<lparr>d_busy_handler := block\<rparr>))) (\<lambda>_.
     bindM (sqlite_call (l_int L) (DbCall db (Busy_handler (if NIL_P block then None else Some self))))
       (\<lambda>status.
     bindM (rb_sqlite3_raise L db status) (\<lambda>_.
     ret self)))))"

definition set_authorizer :: "'e sqlite_lib \<Rightarrow> nat \<Rightarrow> rb_value \<Rightarrow> ('e, 'u, nat) rb" where
  "set_authorizer L self authorizer =
     bindM (require_open_db self) (\<lambda>db.
     bindM (sqlite_call (l_int L)
              (DbCall db (Set_authorizer (if NIL_P authorizer then None else Some self)))) (\<lambda>status.
     bindM (rb_sqlite3_raise L db status) (\<lambda>_.
     bindM (modM (upd_db self (\<lambda>d. d\<lparr>d_authorizer := authorizer\<rparr>))) (\<lambda>_.
     ret self))))"

definition set_statement_timeout :: "'e sqlite_lib \<Rightarrow> nat \<Rightarrow> rb_value \<Rightarrow> ('e, 'u, nat) rb" where
  "set_statement_timeout L self milliseconds =
     bindM (getM (\<lambda>w. d_db (dbs w self))) (\<lambda>db.
     bindM (liftE (NUM2INT milliseconds)) (\<lambda>ms.
     bindM (modM (upd_db self (\<lambda>d. d\<lparr>d_stmt_timeout := ms\<rparr>))) (\<lambda>_.
     bindM (sqlite_call (l_int L)
              (DbCall db (Progress_handler (if ms = 0 then - 1 else 1000) self))) (\<lambda>_.
     ret self))))"

definition set_busy_timeout :: "'e sqlite_lib \<Rightarrow> nat \<Rightarrow> rb_value \<Rightarrow> ('e, 'u, nat) rb" where
  "set_busy_timeout L self timeout =
     bindM (require_open_db self) (\<lambda>db.
     bindM (liftE (NUM2INT timeout)) (\<lambda>ms.
     bindM (sqlite_call (l_int L) (DbCall db (Busy_timeout ms))) (\<lambda>status.
     bindM (rb_sqlite3_raise L db status) (\<lambda>_.
     ret self))))"

definition set_extended_result_codes :: "'e sqlite_lib \<Rightarrow> nat \<Rightarrow> rb_value \<Rightarrow> ('e, 'u, nat) rb" where
  "set_extended_result_codes L self enable =
     bindM (require_open_db self) (\<lambda>db.
     bindM (sqlite_call (l_int L) (DbCall db (Extended_result_codes (if RTEST enable then 1 else 0))))
       (\<lambda>status.
     bindM (rb_sqlite3_raise L db status) (\<lambda>_.
     ret self)))"

section \<open>Functions and collations\<close>

text \<open>The arity of a block; \<open>rb_proc_arity\<close> of Ruby, or the call that replaces it.\<close>

definition rb_proc_arity :: "'u rb_user \<Rightarrow> rb_value \<Rightarrow> ('e, 'u, cint) rb" where
  "rb_proc_arity U self = bindM (rb_funcall U self ''arity'' []) (\<lambda>n. liftE (NUM2INT n))"

definition rb_block_proc :: "rb_value option \<Rightarrow> abort + rb_value" where
  "rb_block_proc given =
     (case given of
        None \<Rightarrow> Inl (Raised (rb_error ArgumentError ''tried to create Proc object without a block''))
      | Some b \<Rightarrow> Inr b)"

text \<open>The arguments of \<open>sqlite3_create_function\<close> are converted from left to right here.\<close>

definition define_function_with_flags ::
  "'e sqlite_lib \<Rightarrow> 'u rb_user \<Rightarrow> nat \<Rightarrow> rb_value \<Rightarrow> rb_value \<Rightarrow> rb_value option \<Rightarrow> ('e, 'u, nat) rb" where
  "define_function_with_flags L U self name flags given =
     bindM (require_open_db self) (\<lambda>db.
     bindM (liftE (rb_block_proc given)) (\<lambda>block.
     bindM (liftE (StringValue name)) (\<lambda>zName.
     bindM (rb_proc_arity U block) (\<lambda>arity.
     bindM (liftE (NUM2INT flags)) (\<lambda>eTextRep.
     bindM (sqlite_call (l_int L)
              (DbCall db (Create_function (cstr zName) arity eTextRep block ScalarFunction))) (\<lambda>status.
     bindM (rb_sqlite3_raise L db status) (\<lambda>_.
     bindM (getM (\<lambda>w. iv_functions (ivars w self))) (\<lambda>functions.
     bindM (rb_ary_push functions block) (\<lambda>_.
     bindM (modM (upd_db self (\<lambda>d. d\<lparr>d_functions := functions\<rparr>))) (\<lambda>_.
     ret self))))))))))"

definition define_function ::
  "'e sqlite_lib \<Rightarrow> 'u rb_user \<Rightarrow> nat \<Rightarrow> rb_value \<Rightarrow> rb_value option \<Rightarrow> ('e, 'u, nat) rb" where
  "define_function L U self name given =
     define_function_with_flags L U self name (INT2NUM SQLITE_UTF8) given"

definition collation :: "'e sqlite_lib \<Rightarrow> nat \<Rightarrow> rb_value \<Rightarrow> rb_value \<Rightarrow> ('e, 'u, nat) rb" where
  "collation L self name comparator =
     bindM (require_open_db self) (\<lambda>db.
     bindM (liftE (StringValue name)) (\<lambda>zName.
     bindM (sqlite_call (l_int L)
              (DbCall db (Create_collation (cstr zName) SQLITE_UTF8 comparator (\<not> NIL_P comparator))))
       (\<lambda>status.
     bindM (rb_sqlite3_raise L db status) (\<lambda>_.
     bindM (getM (\<lambda>w. iv_collations (ivars w self))) (\<lambda>collations.
     bindM (rb_hash_aset collations name comparator) (\<lambda>_.
     bindM (modM (upd_db self (\<lambda>d. d\<lparr>d_collations := collations\<rparr>))) (\<lambda>_.
     ret self)))))))"

section \<open>Extensions and batches\<close>

definition load_extension_internal :: "'e sqlite_lib \<Rightarrow> 'u rb_user \<Rightarrow> nat \<Rightarrow> rb_value \<Rightarrow> ('e, 'u, nat) rb" where
  "load_extension_internal L U self file =
     bindM (require_open_db self) (\<lambda>db.
     bindM (liftE (StringValue file)) (\<lambda>f.
     bindM (sqlite_run (callback_handler L U) (l_exec L) (DbCall db (Load_extension (cstr f)))) (\<lambda>(status, errMsg).
     bindM (rb_sqlite3_raise_msg status errMsg) (\<lambda>_.
     ret self))))"

definition enable_load_extension :: "'e sqlite_lib \<Rightarrow> nat \<Rightarrow> rb_value \<Rightarrow> ('e, 'u, nat) rb" where
  "enable_load_extension L self onoff =
     bindM (require_open_db self) (\<lambda>db.
     bindM (if onoff = RTrue then ret 1 else if onoff = RFalse then ret 0
            else liftE (NUM2INT onoff)) (\<lambda>onoffparam.
     bindM (sqlite_call (l_int L) (DbCall db (Enable_load_extension onoffparam))) (\<lambda>status.
     bindM (rb_sqlite3_raise L db status) (\<lambda>_.
     ret self))))"

text \<open>The rows are collected in an array that only the call knows.\<close>

definition exec_batch ::
  "'e sqlite_lib \<Rightarrow> 'u rb_user \<Rightarrow> nat \<Rightarrow> rb_value \<Rightarrow> rb_value \<Rightarrow> ('e, 'u, rb_value) rb" where
  "exec_batch L U self sql results_as_hash =
     bindM rb_ary_new (\<lambda>callback_ary.
     bindM (require_open_db self) (\<lambda>db.
     bindM (liftE (StringValue sql)) (\<lambda>q.
     bindM (sqlite_run (callback_handler L U) (l_exec L)
              (DbCall db (Exec (cstr q) (results_as_hash = RTrue) callback_ary))) (\<lambda>(status, errMsg).
     bindM (rb_sqlite3_raise_msg status errMsg) (\<lambda>_.
     bindM (getM (\<lambda>w. arys w callback_ary)) (\<lambda>rows.
     ret (RArray rows)))))))"

end
