(* ===== verification/Database_Laws.thy ===== *)
theory Database_Laws
  imports Database_Methods
begin

text \<open>
  Properties of the methods of \<open>SQLite3::Database\<close>: what every method leaves alone, which calls
  reach the library, opening and its errors, the registrations, the batch.
\<close>

section \<open>What the methods leave alone\<close>

text \<open>
  The methods of an open connection (all but opening, closing and discarding) call the library
  on the open handle only, never close it, and of the struct change only fields other than the
  handle, the owner and the flags; the arrays of the functions and of the aggregators become
  those of the instance variables, and these only change when the array of the aggregators is
  made. An invariant that these steps keep is kept by every method.
\<close>

abbreviation new_array :: "('e, 'u) world \<Rightarrow> ('e, 'u) world" where
  "new_array w \<equiv> upd_ary (next_ref w) (\<lambda>_. []) (w\<lparr>next_ref := Suc (next_ref w)\<rparr>)"

lemma bindM_keeps: "I (snd (m w)) \<Longrightarrow> (\<And>a. keeps I (f a)) \<Longrightarrow> I (snd (bindM m f w))"
  by (cases "m w"; cases "fst (m w)") (auto simp: keepsD)

locale method_base =
  fixes I :: "('e, 'u) world \<Rightarrow> bool" and L :: "'e sqlite_lib" and U :: "'u rb_user"
  assumes user: "I w \<Longrightarrow> I (w\<lparr>usr := u\<rparr>)"
    and db_call: "op \<noteq> Close_v2 \<Longrightarrow> I w \<Longrightarrow> I (w\<lparr>env := e, calls := calls w @ [DbCall (Some h) op]\<rparr>)"
    and complete_call: "I w \<Longrightarrow> I (w\<lparr>env := e, calls := calls w @ [Complete q]\<rparr>)"
    and fields: "(\<And>d. d_db (f d) = d_db d \<and> d_owner (f d) = d_owner d \<and> d_flags (f d) = d_flags d \<and>
          d_functions (f d) = d_functions d \<and> d_aggregators (f d) = d_aggregators d) \<Longrightarrow>
        I w \<Longrightarrow> I (upd_db s f w)"
    and set_functions: "I w \<Longrightarrow> iv_functions (ivars w s) = Some r \<Longrightarrow> I (upd_db s (\<lambda>d. d\<lparr>d_functions := Some r\<rparr>) w)"
    and set_aggregators: "I w \<Longrightarrow> iv_aggregators (ivars w s) = Some r \<Longrightarrow>
        I (upd_db s (\<lambda>d. d\<lparr>d_aggregators := Some r\<rparr>) w)"
    and store: "I w \<Longrightarrow> iv_functions (ivars w s) = Some r \<or> iv_aggregators (ivars w s) = Some r \<Longrightarrow>
        I (upd_ary r (\<lambda>vs. vs @ [v]) w)"
    and wrappers: "I w \<Longrightarrow> iv_aggregators (ivars w s) = None \<Longrightarrow>
        I (upd_ivars s (\<lambda>v. v\<lparr>iv_aggregators := Some (next_ref w)\<rparr>) (new_array w))"
    and wrapper: "I w \<Longrightarrow> I (wrapper_world k w)"
    and hash: "I w \<Longrightarrow> I (upd_hash r j w)"
    and array: "I w \<Longrightarrow> I (new_array w)"
    and load_run: "keeps I (sqlite_run (callback_handler L U) (l_exec L) (DbCall (Some h) (Load_extension q)))"
    and exec_run: "I w \<Longrightarrow> I (snd (sqlite_run (callback_handler L U) (l_exec L)
        (DbCall (Some h) (Exec q m (next_ref w))) (new_array w)))"
begin

lemma method_steps:
  "(\<And>d. d_db (f d) = d_db d \<and> d_owner (f d) = d_owner d \<and> d_flags (f d) = d_flags d \<and>
      d_functions (f d) = d_functions d \<and> d_aggregators (f d) = d_aggregators d) \<Longrightarrow>
     keeps I (modM (upd_db s f))"
  "op \<noteq> Close_v2 \<Longrightarrow> keeps I (sqlite_call a (DbCall (Some h) op))"
  "keeps I (sqlite_call a2 (Complete q))"
  "keeps I (rb_sqlite3_raise L (Some h) status)"
  "keeps I (rb_hash_aset z k1 v1)" "keeps I (rb_funcall U recv meth args)"
proof -
  show c: "op \<noteq> Close_v2 \<Longrightarrow> keeps I (sqlite_call a (DbCall (Some h) op))" for op h
    and a :: "sql_call \<Rightarrow> 'e \<Rightarrow> 'b \<times> 'e"
    by (rule keeps_sqlite_call) (simp add: allows_def db_call)
  show "keeps I (sqlite_call a2 (Complete q))"
    by (rule keeps_sqlite_call) (simp add: allows_def complete_call)
  show "keeps I (rb_sqlite3_raise L (Some h) status)"
    by (rule keeps_rb_sqlite3_raise) (simp add: allows_def db_call)
  show "(\<And>d. d_db (f d) = d_db d \<and> d_owner (f d) = d_owner d \<and> d_flags (f d) = d_flags d \<and>
      d_functions (f d) = d_functions d \<and> d_aggregators (f d) = d_aggregators d) \<Longrightarrow>
     keeps I (modM (upd_db s f))"
    by (intro keeps_modM fields)
  show "keeps I (rb_hash_aset z k1 v1)"
    by (auto simp: rb_hash_aset_def intro!: keeps_modM hash split: option.splits)
  show "keeps I (rb_funcall U recv meth args)"
    by (intro keeps_rb_funcall user)
qed

text \<open>The last steps of \<open>define_function\<close> and of \<open>define_aggregator2\<close>.\<close>

lemma keeps_store_function:
  "keeps I (bindM (getM (\<lambda>w. iv_functions (ivars w self))) (\<lambda>functions.
     bindM (rb_ary_push functions block) (\<lambda>_.
     bindM (modM (upd_db self (\<lambda>d. d\<lparr>d_functions := functions\<rparr>))) (\<lambda>_.
     ret x))))"
proof (rule keepsI)
  fix w assume "I w"
  then show "I (snd (bindM (getM (\<lambda>w. iv_functions (ivars w self))) (\<lambda>functions.
      bindM (rb_ary_push functions block) (\<lambda>_.
      bindM (modM (upd_db self (\<lambda>d. d\<lparr>d_functions := functions\<rparr>))) (\<lambda>_.
      ret x))) w))"
    by (cases "iv_functions (ivars w self)") (auto simp: rb_ary_push_def intro!: set_functions store)
qed

lemma keeps_store_aggregator:
  "keeps (\<lambda>w. I w \<and> iv_aggregators (ivars w self) = aggs)
     (bindM (rb_ary_push aggs v) (\<lambda>_.
      bindM (modM (upd_db self (\<lambda>d. d\<lparr>d_aggregators := aggs\<rparr>))) (\<lambda>_.
      ret x)))"
  by (rule keepsI) (cases aggs, auto simp: rb_ary_push_def intro!: set_aggregators store)

lemma ensure_aggregators_frame:
  assumes "I w"
  shows "I (snd (ensure_aggregators self w)) \<and>
    (\<exists>aggs. ensure_aggregators self w = (Inr aggs, snd (ensure_aggregators self w)) \<and>
      iv_aggregators (ivars (snd (ensure_aggregators self w)) self) = aggs)"
  using assms wrappers [OF assms, of self]
  by (auto simp: ensure_aggregators_def bindM_def rb_ary_new_def fresh_ref_def)

lemmas method_intros = keeps_ret keeps_fail keeps_getM keeps_liftE keeps_require keeps_bindM
  keeps_if keeps_case_prod keeps_case_option keeps_rb_sqlite3_raise_msg method_steps

lemma keeps_registering:
  "keeps (\<lambda>w. I w \<and> iv_aggregators (ivars w self) = aggs) (new_wrapper v)"
  "keeps (\<lambda>w. I w \<and> iv_aggregators (ivars w self) = aggs)
     (sqlite_call f (DbCall (Some h) (Create_function nm ar rep p k)))"
  "keeps (\<lambda>w. I w \<and> iv_aggregators (ivars w self) = aggs) (rb_sqlite3_raise L (Some h) status)"
proof -
  have "keeps I (new_wrapper v)"
    by (rule keepsI) (simp add: new_wrapper_run wrapper)
  then show "keeps (\<lambda>w. I w \<and> iv_aggregators (ivars w self) = aggs) (new_wrapper v)"
    by (rule keeps_conj) (rule keepsI, simp add: new_wrapper_run wrapper_world_def)
  show "keeps (\<lambda>w. I w \<and> iv_aggregators (ivars w self) = aggs)
     (sqlite_call f (DbCall (Some h) (Create_function nm ar rep p k)))"
    by (intro keeps_conj method_steps(2) db_op.simps) (rule keepsI, simp add: sqlite_call_returns)
  show "keeps (\<lambda>w. I w \<and> iv_aggregators (ivars w self) = aggs) (rb_sqlite3_raise L (Some h) status)"
    by (intro keeps_conj method_steps(4)) (rule keeps_rb_sqlite3_raise, simp add: allows_def)
qed

lemma keeps_queries:
  "keeps I (total_changes L self)" "keeps I (last_insert_row_id L self)"
  "keeps I (interrupt L self)" "keeps I (errmsg L self)" "keeps I (errcode L self)"
  "keeps I (changes L self)" "keeps I (transaction_active_p L self)"
  "keeps I (db_filename L self v)"
  unfolding total_changes_def last_insert_row_id_def interrupt_def errmsg_def errcode_def
    changes_def transaction_active_p_def db_filename_def
  by ((rule open_db.guarded_keeps, intro method_intros db_op.simps)+)

lemma keeps_complete_p: "keeps I (complete_p L self v)"
  unfolding complete_p_def by (intro method_intros)

lemma keeps_registrations:
  "keeps I (trace L args blk self)" "keeps I (busy_handler L args blk self)"
  "keeps I (set_authorizer L self v)" "keeps I (set_busy_timeout L self v)"
  "keeps I (set_extended_result_codes L self v)"
  "keeps I (collation L self v v2)" "keeps I (load_extension_internal L U self v)"
  "keeps I (enable_load_extension L self v)"
  unfolding trace_def busy_handler_def set_authorizer_def set_busy_timeout_def
    set_extended_result_codes_def collation_def load_extension_internal_def enable_load_extension_def
  by (rule open_db.guarded_keeps, intro method_intros load_run; simp)+

lemma keeps_define_function:
  "keeps I (define_function_with_flags L U self v v2 blk)" "keeps I (define_function L U self v blk)"
proof -
  show flags: "keeps I (define_function_with_flags L U self v v2 blk)" for v2
    unfolding define_function_with_flags_def rb_proc_arity_def
    by (rule open_db.guarded_keeps) (rule keeps_store_function method_intros | simp)+
  show "keeps I (define_function L U self v blk)"
    unfolding define_function_def by (rule flags)
qed

lemma keeps_quirk_mode: "keeps I (rb_sqlite3_disable_quirk_mode L self)"
proof (rule keepsI)
  fix w assume "I w"
  have "keeps I (bindM (sqlite_call (l_int L) (DbCall (Some h) (Db_config DQS_DDL 0))) (\<lambda>_.
     bindM (sqlite_call (l_int L) (DbCall (Some h) (Db_config DQS_DML 0))) (\<lambda>_. ret RTrue)))" for h
    by (intro method_intros; simp)
  from keepsD [OF this \<open>I w\<close>] \<open>I w\<close> show "I (snd (rb_sqlite3_disable_quirk_mode L self w))"
    by (cases "d_db (dbs w self)") (simp_all add: rb_sqlite3_disable_quirk_mode_def)
qed

lemma keeps_exec_batch: "keeps I (exec_batch L U self v v2)"
proof (rule keepsI)
  fix w assume "I w"
  let ?rest = "\<lambda>db. bindM (liftE (StringValue v)) (\<lambda>q.
      bindM (sqlite_run (callback_handler L U) (l_exec L)
              (DbCall db (Exec (cstr q) (v2 = RTrue) (next_ref w)))) (\<lambda>(status, errMsg).
      bindM (rb_sqlite3_raise_msg status errMsg) (\<lambda>_.
      bindM (getM (\<lambda>w'. arys w' (next_ref w))) (\<lambda>rows. ret (RArray rows)))))"
  have run: "exec_batch L U self v v2 w = bindM (require_open_db self) ?rest (new_array w)"
    by (simp add: exec_batch_def rb_ary_new_def fresh_ref_def bindM_def)
  have "I (snd (?rest (Some h) (new_array w)))" for h
  proof (cases "StringValue v")
    case (Inr q)
    have "keeps I (bindM (rb_sqlite3_raise_msg status errMsg) (\<lambda>_.
        bindM (getM (\<lambda>w'. arys w' (next_ref w))) (\<lambda>rows. ret (RArray rows))))" for status errMsg
      by (intro method_intros)
    with exec_run [OF \<open>I w\<close>, of h "cstr q" "v2 = RTrue"] show ?thesis
      by (simp add: Inr bindM_keeps keeps_case_prod)
  qed (simp add: array \<open>I w\<close>)
  then show "I (snd (exec_batch L U self v v2 w))"
    unfolding run using array [OF \<open>I w\<close>]
    by (cases "d_db (dbs (new_array w) self)") (simp_all only: open_db.guarded_closed open_db.guarded_open snd_conv)
qed

lemma keeps_define_aggregator: "keeps I (rb_sqlite3_define_aggregator2 L U self v v2)"
proof -
  have guard: "rb_sqlite3_define_aggregator2 L U self v v2 =
      bindM (require_open_db self) (\<lambda>db.
      bindM (if u_respond_to U v ''arity''
            then bindM (rb_funcall U v ''arity'' []) (\<lambda>v. liftE (NUM2INT v))
            else ret (- 1)) (\<lambda>arity.
      bindM (require (\<not> (sint arity < - 1 \<or> 127 < sint arity))
        (Raised (rb_error ArgumentError
          (u_to_s U self @ '' arity='' @ show_int (sint arity) @ '' out of range -1..127'')))) (\<lambda>_.
      bindM (ensure_aggregators self) (\<lambda>aggregators.
      bindM (new_wrapper v) (\<lambda>aw.
      bindM (liftE (StringValueCStr v2)) (\<lambda>name.
      bindM (sqlite_call (l_int L)
               (DbCall db (Create_function name arity SQLITE_UTF8 (RAw aw) AggregateFunction)))
        (\<lambda>status.
      bindM (rb_sqlite3_raise L db status) (\<lambda>_.
      bindM (rb_ary_push aggregators (RAw aw)) (\<lambda>_.
      bindM (modM (upd_db self (\<lambda>d. d\<lparr>d_aggregators := aggregators\<rparr>))) (\<lambda>_.
      ret self))))))))))"
    by (simp add: rb_sqlite3_define_aggregator2_def require_open_db_def bindM_assoc)
  let ?rest = "\<lambda>h arity aggs. bindM (new_wrapper v) (\<lambda>aw.
      bindM (liftE (StringValueCStr v2)) (\<lambda>name.
      bindM (sqlite_call (l_int L)
               (DbCall (Some h) (Create_function name arity SQLITE_UTF8 (RAw aw) AggregateFunction)))
        (\<lambda>status.
      bindM (rb_sqlite3_raise L (Some h) status) (\<lambda>_.
      bindM (rb_ary_push aggs (RAw aw)) (\<lambda>_.
      bindM (modM (upd_db self (\<lambda>d. d\<lparr>d_aggregators := aggs\<rparr>))) (\<lambda>_.
      ret self))))))"
  have rest: "keeps (\<lambda>w. I w \<and> iv_aggregators (ivars w self) = aggs) (?rest h arity aggs)" for h arity aggs
    by (intro keeps_bindM keeps_store_aggregator keeps_registering keeps_liftE)
  have ensure: "keeps I (bindM (ensure_aggregators self) (\<lambda>aggs. ?rest h arity aggs))" for h arity
  proof (rule keepsI)
    fix w assume "I w"
    from ensure_aggregators_frame [OF this, of self] obtain aggs u where
      u: "ensure_aggregators self w = (Inr aggs, u)" "I u" "iv_aggregators (ivars u self) = aggs" by auto
    with keepsD [OF rest [of aggs h arity], of u] show "I (snd (bindM (ensure_aggregators self) (\<lambda>aggs. ?rest h arity aggs) w))"
      by simp
  qed
  show ?thesis
    unfolding guard
    by (rule open_db.guarded_keeps)
      (rule ensure keeps_if keeps_ret keeps_liftE keeps_require method_steps(6) keeps_bindM)+
qed

end

text \<open>
  Most invariants survive every single step of the callbacks and of the methods; they form a
  frame, of which the base is a part for any library and user.
\<close>

locale method_frame = callback_frame I for I :: "('e, 'u) world \<Rightarrow> bool" +
  assumes db_call: "op \<noteq> Close_v2 \<Longrightarrow> I w \<Longrightarrow> I (w\<lparr>env := e, calls := calls w @ [DbCall (Some h) op]\<rparr>)"
    and complete_call: "I w \<Longrightarrow> I (w\<lparr>env := e, calls := calls w @ [Complete q]\<rparr>)"
    and fields: "(\<And>d. d_db (f d) = d_db d \<and> d_owner (f d) = d_owner d \<and> d_flags (f d) = d_flags d \<and>
          d_functions (f d) = d_functions d \<and> d_aggregators (f d) = d_aggregators d) \<Longrightarrow>
        I w \<Longrightarrow> I (upd_db s f w)"
    and set_functions: "I w \<Longrightarrow> iv_functions (ivars w s) = Some r \<Longrightarrow> I (upd_db s (\<lambda>d. d\<lparr>d_functions := Some r\<rparr>) w)"
    and set_aggregators: "I w \<Longrightarrow> iv_aggregators (ivars w s) = Some r \<Longrightarrow>
        I (upd_db s (\<lambda>d. d\<lparr>d_aggregators := Some r\<rparr>) w)"
    and array: "I w \<Longrightarrow> I (new_array w)"
    and wrappers: "I w \<Longrightarrow> iv_aggregators (ivars w s) = None \<Longrightarrow>
        I (upd_ivars s (\<lambda>v. v\<lparr>iv_aggregators := Some (next_ref w)\<rparr>) (new_array w))"
    and hash: "I w \<Longrightarrow> I (upd_hash r k w)"
    and aw: "I w \<Longrightarrow> I (upd_aw a j w)"
begin

lemma keeps_run:
  "op \<noteq> Close_v2 \<Longrightarrow> keeps I (sqlite_run (callback_handler L U) answer (DbCall (Some h) op))"
  by (rule sqlite_run_keeps) (simp_all add: db_call)

lemma wrapper_kept: "I w \<Longrightarrow> I (wrapper_world k w)"
proof -
  assume "I w"
  have "keeps I (new_wrapper k)"
    unfolding new_wrapper_def
    by (intro keeps_bindM keeps_ret keeps_steps keeps_modM aw)
      (auto intro!: keepsI array simp: rb_ary_new_def fresh_ref_def bindM_def)
  from keepsD [OF this \<open>I w\<close>] show ?thesis by (simp add: new_wrapper_run)
qed

sublocale base: method_base I L U for L U
proof unfold_locales
  show "I w \<Longrightarrow> I (snd (sqlite_run (callback_handler L U) (l_exec L)
        (DbCall (Some h) (Exec q m (next_ref w))) (new_array w)))" for w h q m
    by (rule keepsD [OF keeps_run array]) simp_all
  show "keeps I (sqlite_run (callback_handler L U) (l_exec L) (DbCall (Some h) (Load_extension q)))" for h q
    by (rule keeps_run) simp
qed (fact usr db_call complete_call fields set_functions set_aggregators wrappers wrapper_kept hash array | erule push)+

end

interpretation nn: method_frame no_null
  by unfold_locales (auto simp: no_null_def upd_defs)

lemma no_null_Close_v2 [simp]: "\<not> null_call (DbCall z Close_v2)" "\<not> null_call (DbCall z Errmsg)"
  by (cases z; simp)+

lemma keeps_no_null_open:
  "keeps no_null (rb_sqlite3_open_v2 L self a1 a2 a3)" "keeps no_null (rb_sqlite3_open16 L self a1)"
  unfolding rb_sqlite3_open_v2_def rb_sqlite3_open16_def require_closed_db_def check_opened_def
  by (intro keeps_ret keeps_bindM keeps_if keeps_case_prod keeps_getM keeps_require keeps_liftE
      keeps_sqlite_call keeps_rb_sqlite3_raise_msg allows_no_null keeps_modM;
      simp add: no_null_def upd_db_def)+

text \<open>No method of a Database hands a NULL connection to SQLite: whatever the state of the
  object and the arguments, and whatever the callbacks of the call do, every call that reaches
  the library through these methods is on an open handle (\<open>sqlite3_errmsg\<close> and
  \<open>sqlite3_close_v2\<close>, which accept NULL, apart).\<close>

lemma database_methods_no_null:
  "keeps no_null (rb_sqlite3_open_v2 L self a1 a2 a3) \<and> keeps no_null (rb_sqlite3_open16 L self a1) \<and>
   keeps no_null (rb_sqlite3_disable_quirk_mode L self) \<and>
   keeps no_null (total_changes L self) \<and> keeps no_null (last_insert_row_id L self) \<and>
   keeps no_null (interrupt L self) \<and> keeps no_null (errmsg L self) \<and>
   keeps no_null (errcode L self) \<and> keeps no_null (complete_p L self a1) \<and>
   keeps no_null (changes L self) \<and> keeps no_null (transaction_active_p L self) \<and>
   keeps no_null (db_filename L self a1) \<and> keeps no_null (trace L args blk self) \<and>
   keeps no_null (busy_handler L args blk self) \<and> keeps no_null (set_authorizer L self a1) \<and>
   keeps no_null (set_busy_timeout L self a1) \<and>
   keeps no_null (set_extended_result_codes L self a1) \<and>
   keeps no_null (define_function L U self a1 blk) \<and>
   keeps no_null (define_function_with_flags L U self a1 a2 blk) \<and>
   keeps no_null (collation L self a1 a2) \<and> keeps no_null (load_extension_internal L U self a1) \<and>
   keeps no_null (enable_load_extension L self a1) \<and> keeps no_null (exec_batch L U self a1 a2) \<and>
   keeps no_null (rb_sqlite3_define_aggregator2 L U self a1 a2)"
  by (intro conjI keeps_no_null_open nn.base.keeps_queries nn.base.keeps_complete_p nn.base.keeps_registrations
      nn.base.keeps_define_function
      nn.base.keeps_quirk_mode nn.base.keeps_exec_batch nn.base.keeps_define_aggregator)

text \<open>The setter of the statement timeout has no guard: on a closed Database it registers its
  progress handler on a NULL connection, where every other method raises.\<close>

lemma statement_timeout_closed:
  assumes "d_db (dbs w self) = None" and "NUM2INT ms = Inr n"
  shows "\<exists>w' c. set_statement_timeout L self ms w = (Inr self, w') \<and>
    calls w' = calls w @ [c] \<and> null_call c"
  using assms by (simp add: set_statement_timeout_def bindM_def sqlite_call_returns upd_db_def)

section \<open>Opening\<close>

text \<open>Opening. With arguments that convert, a closed object makes exactly one open call, with
  the converted file name, flags and VFS. On success the object holds the handle and remembers
  a read-only open in its flags. On an error the half-open handle is closed again, the object
  is closed as before, and the exception of the status with SQLite's message is raised.\<close>

lemma open_v2_spec:
  assumes "d_db (dbs w self) = None"
    and "NUM2INT mode = Inr flags" and "StringValueCStr file = Inr f"
    and "zvfs = RNil \<and> vfs = None \<or> zvfs \<noteq> RNil \<and> (\<exists>z. StringValueCStr zvfs = Inr z \<and> vfs = Some z)"
    and "l_open L (Open_v2 f flags vfs) (env w) = ((status, db), e)"
  shows "\<exists>w'. (let opened = calls w @ [Open_v2 f flags vfs] in
      if status = SQLITE_OK
      then rb_sqlite3_open_v2 L self file mode zvfs w = (Inr self, w') \<and> calls w' = opened \<and>
        d_db (dbs w' self) = db \<and>
        d_flags (dbs w' self) = (if flags AND SQLITE_OPEN_READONLY \<noteq> 0
          then d_flags (dbs w self) OR SQLITE3_RB_DATABASE_READONLY else d_flags (dbs w self))
      else if status AND 0xff = 0 then True
      else calls w' = opened @ [DbCall db Errmsg, DbCall db Close_v2] \<and>
        d_db (dbs w' self) = None \<and> d_flags (dbs w' self) = d_flags (dbs w self) \<and>
        rb_sqlite3_open_v2 L self file mode zvfs w =
          (Inl (Raised (Exn (the (status2klass status))
             (case fst (l_text L (DbCall db Errmsg) e) of None \<Rightarrow> [] | Some m \<Rightarrow> cstr m)
             (Some (sint status)) None None)), w'))"
proof -
  have z: "(if NIL_P zvfs then ret None
            else bindM (liftE (StringValueCStr zvfs)) (\<lambda>z. ret (Some z))) = ret vfs"
    using assms(4) by (auto simp: NIL_P_def bindM_def fun_eq_iff)
  have klass: "status AND 0xff \<noteq> 0 \<Longrightarrow> status2klass status = Some (the (status2klass status))"
    using status_ok_iff [of status] by auto
  note run = rb_sqlite3_open_v2_def z require_closed_db_def require_run bindM_def
    sqlite_call_returns assms(1-3,5) check_opened_def
  show ?thesis
  proof (cases "status = SQLITE_OK")
    case True
    then show ?thesis by (simp add: run Let_def)
  next
    case False
    show ?thesis
    proof (cases "status AND 0xff = 0")
      case True
      with False show ?thesis by simp
    next
      case nz: False
      obtain k where k: "status2klass status = Some k" using klass [OF nz] by blast
      show ?thesis
        using False nz
        by (simp add: run Let_def rb_sqlite3_raise_msg_def k rb_exc_new2_def cstr_def split: option.split)
    qed
  qed
qed

text \<open>An object that is open cannot be opened again, by either method: the call raises before
  it converts an argument or reaches the library, and the handle is not lost.\<close>

lemma open_twice:
  assumes "d_db (dbs w self) \<noteq> None"
  shows "rb_sqlite3_open_v2 L self file mode zvfs w =
      (Inl (Raised (rb_error SQLite3_Exception ''cannot open a database that is already open'')), w) \<and>
    rb_sqlite3_open16 L self file w =
      (Inl (Raised (rb_error SQLite3_Exception ''cannot open a database that is already open'')), w)"
proof -
  have "require_closed_db self w =
      (Inl (Raised (rb_error SQLite3_Exception ''cannot open a database that is already open'')), w)"
    using assms by (auto simp: require_closed_db_def bindM_def)
  then show ?thesis by (simp add: rb_sqlite3_open_v2_def rb_sqlite3_open16_def)
qed

subsection \<open>UTF-16 names\<close>

lemma utf16_units_append:
  "utf16_units le s = Some us \<Longrightarrow> utf16_units le (s @ [nul, nul]) = Some (us @ [0])"
  by (induction le s arbitrary: us rule: utf16_units.induct) (auto simp: nul_def)

lemma utf16_codepoints_append:
  "utf16_codepoints us = Some cs \<Longrightarrow> utf16_codepoints (us @ [0]) = Some (cs @ [0])"
proof (induction us arbitrary: cs rule: utf16_codepoints.induct)
  case (2 u us)
  consider (high) "0xD800 \<le> u \<and> u < 0xDC00" | (low) "0xDC00 \<le> u" "u < 0xE000" | (other) "u < 0xD800 \<or> 0xE000 \<le> u"
    by linarith
  then show ?case
  proof cases
    case high
    then obtain v vs cs' where "us = v # vs" "0xDC00 \<le> v \<and> v < 0xE000"
      "utf16_codepoints vs = Some cs'" "cs = (0x10000 + (u - 0xD800) * 0x400 + (v - 0xDC00)) # cs'"
      using "2.prems" by (cases us) (auto split: if_splits)
    with "2.IH"(1) high show ?thesis by simp
  next
    case other
    then obtain cs' where "utf16_codepoints us = Some cs'" "cs = u # cs'"
      using "2.prems" by auto
    with "2.IH"(2) other show ?thesis by auto
  qed (use "2.prems" in simp)
qed simp

text \<open>The file name given to \<open>open16\<close> is changed: the terminator stays appended to the
  caller's string, so opening a second database with the same String object raises, though
  the name is the same and contains no NUL.\<close>

lemma open16_name_not_reusable:
  assumes "utf16_string_value_ptr L v = Inr (name, v')"
  shows "rs_bytes v' = rs_bytes v @ [nul, nul] \<and> name = rs_bytes v \<and>
    utf16_string_value_ptr L v' =
      Inl (Raised (rb_error ArgumentError ''string contains null char''))"
proof -
  obtain b enc s frozen where v: "v = RString b enc s frozen"
    using assms by (cases v) (auto simp: utf16_string_value_ptr_def)
  define le where "le = (if enc = UTF_16LE then True else if enc = UTF_16BE then False else l_little_endian L)"
  have ptr: "utf16_string_value_ptr L (RString b enc t frozen) =
      (case rb_codepoints le t of Inl x \<Rightarrow> Inl x
       | Inr codepoints \<Rightarrow>
           if 0 \<in> set codepoints
           then Inl (Raised (rb_error ArgumentError ''string contains null char''))
           else if frozen then Inl (Raised (rb_error FrozenError ''can't modify frozen String''))
           else Inr (t, RString b enc (t @ [nul, nul]) frozen))" for t
    by (simp add: utf16_string_value_ptr_def le_def)
  obtain cs where cs: "rb_codepoints le s = Inr cs"
    and r: "name = s" "v' = RString b enc (s @ [nul, nul]) frozen"
    using assms by (auto simp: v ptr split: sum.splits if_splits)
  obtain us where "utf16_units le s = Some us" "utf16_codepoints us = Some cs"
    using cs by (cases "utf16_units le s") (auto simp: rb_codepoints_def split: option.splits)
  then have "rb_codepoints le (s @ [nul, nul]) = Inr (cs @ [0])"
    by (simp add: rb_codepoints_def utf16_units_append utf16_codepoints_append)
  then show ?thesis
    by (simp add: v r ptr)
qed

section \<open>The batch\<close>

text \<open>A behaviour of \<open>sqlite3_exec\<close> that calls back once per row and then returns.\<close>

primrec rows_run :: "nat \<Rightarrow> bool \<Rightarrow> (string \<times> string option) list list \<Rightarrow> 'r \<Rightarrow> 'e \<Rightarrow> ('e, 'r) run" where
  "rows_run ary h [] r e = Return r e"
| "rows_run ary h (row # rows) r e =
     Callback e (CB_row ary h (map snd row) (map fst row)) (\<lambda>_. rows_run ary h rows r e)"

text \<open>What the user gets for a row: the strings in order, or a hash by column name.\<close>

definition row_value :: "bool \<Rightarrow> (string \<times> string option) list \<Rightarrow> rb_value" where
  "row_value h row =
     (if h then RHash (fold (\<lambda>(c, d). hash_aset (rb_obj_freeze (rb_str_new_cstr c)) (cstr_or_nil d)) row [])
      else RArray (map (cstr_or_nil \<circ> snd) row))"

lemma upd_ary_others [simp]:
  "(upd_ary r f w)\<lparr>env := e\<rparr> = upd_ary r f (w\<lparr>env := e\<rparr>)"
  "(upd_ary r f w)\<lparr>calls := cs\<rparr> = upd_ary r f (w\<lparr>calls := cs\<rparr>)"
  by (simp_all add: upd_ary_def)

lemma row_callback:
  "callback_handler L U (CB_row ary h (map snd row) (map fst row)) w =
     (Inr (CR_int 0), upd_ary ary (\<lambda>vs. vs @ [row_value h row]) w)"
  by (cases h) (simp_all add: bindM_def hash_callback_function_def regular_callback_function_def
      Let_def zip_map_fst_snd row_value_def)

lemma exec_rows_run:
  "exec_run (callback_handler L U) (rows_run ary h rows r e) w =
     (Inr r, upd_ary ary (\<lambda>vs. vs @ map (row_value h) rows) (w\<lparr>env := e\<rparr>))"
proof (induction rows arbitrary: w)
  case (Cons row rows)
  show ?case
    by (simp add: Cons.IH bindM_def row_callback ary_store.upd_upd o_def del: callback_handler.simps)
qed (simp add: ary_store.upd_id)

lemma exec_batch_start:
  assumes "d_db (dbs w self) = Some h" and "StringValue sql = Inr q"
  shows "exec_batch L U self sql as_hash w =
    (let c = DbCall (Some h) (Exec (cstr q) (as_hash = RTrue) (next_ref w)) in
     bindM (exec_run (callback_handler L U) (l_exec L c (env w))) (\<lambda>(status, errMsg).
     bindM (rb_sqlite3_raise_msg status errMsg) (\<lambda>_.
     bindM (getM (\<lambda>w'. arys w' (next_ref w))) (\<lambda>rows. ret (RArray rows))))
       (upd_ary (next_ref w) (\<lambda>_. []) (w\<lparr>next_ref := Suc (next_ref w), calls := calls w @ [c]\<rparr>)))"
proof -
  have "rb_ary_new w = (Inr (next_ref w), upd_ary (next_ref w) (\<lambda>_. []) (w\<lparr>next_ref := Suc (next_ref w)\<rparr>))"
    by (simp add: rb_ary_new_def fresh_ref_def bindM_def)
  moreover have "require_open_db self v = (Inr (Some h), v)" if "dbs v = dbs w" for v :: "('a, 'b) world"
    using that assms(1) by (simp add: open_db.guard_open)
  ultimately show ?thesis
    using assms(2) by (simp add: exec_batch_def sqlite_run_def Let_def bindM_def)
qed

text \<open>C31: \<open>exec_batch\<close> returns the rows that SQLite reports, all and in order, each as an array of
  its values or, on request, as a hash, all values as strings and NULL as \<open>nil\<close>; on an error
  status it raises the exception of the status with SQLite's message instead.\<close>

theorem exec_batch_rows:
  assumes "d_db (dbs w self) = Some h" and "StringValue sql = Inr q"
    and "l_exec L (DbCall (Some h) (Exec (cstr q) (as_hash = RTrue) (next_ref w))) (env w) =
      rows_run (next_ref w) (as_hash = RTrue) rows (status, msg) e"
  shows "fst (exec_batch L U self sql as_hash w) =
    (case status2klass status of
       None \<Rightarrow> Inr (RArray (map (row_value (as_hash = RTrue)) rows))
     | Some klass \<Rightarrow>
         (case msg of None \<Rightarrow> Inl (Raised (rb_error ArgumentError ''NULL pointer given''))
          | Some m \<Rightarrow> Inl (Raised (Exn klass (cstr m) (Some (sint status)) None None))))"
  unfolding exec_batch_start [OF assms(1,2)] Let_def
  by (simp add: assms(3) bindM_def exec_rows_run rb_sqlite3_raise_msg_def rb_exc_new2_def
      split: option.split)

theorem exec_batch_rows_witness:
  "fst (exec_batch (sample_lib\<lparr>l_exec := \<lambda>c e. rows_run 0 False [[(''a'', Some ''1''), (''b'', None)]] (0, None) e\<rparr>)
      sample_user 0 (RString False UTF_8 ''q'' False) RNil (upd_db 0 (\<lambda>d. d\<lparr>d_db := Some 7\<rparr>) sample_world)) =
   Inr (RArray [RArray [RString False ASCII_8BIT ''1'' False, RNil]])"
  by (subst exec_batch_rows [where h = 7 and q = "''q''" and rows = "[[(''a'', Some ''1''), (''b'', None)]]"
        and status = 0 and msg = None])
    (simp_all add: upd_db_def sample_defs StringValue_def status2klass_status_class status_class_def
      row_value_def cstr_or_nil_def rb_str_new_cstr_def rb_str_new_def cstr_def nul_def)

text \<open>\<open>exec_batch\<close> does not look at the pending exception: when a user function has raised
  during the batch the user gets the exception of SQLite's status with the message
  \<open>Ruby Exception occurred\<close>, and the function's own exception stays pending in the interpreter.\<close>

lemma exec_batch_hides_exception:
  assumes "d_db (dbs w self) = Some h" and "StringValue sql = Inr q"
    and "exec_run (callback_handler L U) (l_exec L (DbCall (Some h)
        (Exec (cstr q) (as_hash = RTrue) (next_ref w))) (env w))
        (upd_ary (next_ref w) (\<lambda>_. []) (w\<lparr>next_ref := Suc (next_ref w),
           calls := calls w @ [DbCall (Some h) (Exec (cstr q) (as_hash = RTrue) (next_ref w))]\<rparr>))
      = (Inr (SQLITE_ERROR, Some ''Ruby Exception occurred''), v)"
    and "errinfo v = Some x"
  shows "exec_batch L U self sql as_hash w =
    (Inl (Raised (Exn SQLException ''Ruby Exception occurred'' (Some 1) None None)), v)"
proof -
  have "cstr ''Ruby Exception occurred'' = ''Ruby Exception occurred''" by (simp add: cstr_def nul_def)
  moreover have "status2klass SQLITE_ERROR = Some SQLException"
    by (simp add: status2klass_status_class status_class_def class_table_def)
  ultimately show ?thesis
    unfolding exec_batch_start [OF assms(1,2)] Let_def
    by (simp add: assms(3) bindM_def rb_sqlite3_raise_msg_def rb_exc_new2_def)
qed

end
