(* ===== verification/Gc_Marking.thy ===== *)
theory Gc_Marking
  imports Aggregation Database_Laws
begin

unbundle bit_operations_syntax

text \<open>
  The mark function of \<open>SQLite3::Database\<close> (\<open>database_mark\<close> in \<open>ext/sqlite3/database.c\<close> and
  \<open>rb_sqlite3_aggregator_pin_instances\<close> in \<open>aggregator.c\<close>). SQLite holds raw pointers to Ruby
  objects; the garbage collector neither frees nor moves what \<open>rb_gc_mark\<close> marks while the
  Database lives. Marking is modelled as the list of what is marked: values, and the arrays and
  hashes themselves.
\<close>

section \<open>Marking\<close>

datatype gc_ref = GValue rb_value | GArray nat | GHash nat

definition rb_sqlite3_pin_array_and_contents :: "('e, 'u) world \<Rightarrow> nat option \<Rightarrow> gc_ref list" where
  "rb_sqlite3_pin_array_and_contents w ary =
     (case ary of None \<Rightarrow> [] | Some r \<Rightarrow> GArray r # map GValue (arys w r))"

definition pin_hash_value :: "rb_value \<times> rb_value \<Rightarrow> gc_ref" where
  "pin_hash_value kv = (case kv of (key, v) \<Rightarrow> GValue v)"

definition pin_hash_and_contents :: "('e, 'u) world \<Rightarrow> nat option \<Rightarrow> gc_ref list" where
  "pin_hash_and_contents w hash =
     (case hash of None \<Rightarrow> [] | Some r \<Rightarrow> GHash r # map pin_hash_value (hashes w r))"

fun rb_sqlite3_aggregator_pin_instances :: "('e, 'u) world \<Rightarrow> rb_value \<Rightarrow> gc_ref list" where
  "rb_sqlite3_aggregator_pin_instances w (RAw aw) =
     rb_sqlite3_pin_array_and_contents w (instances (aws w aw))"
| "rb_sqlite3_aggregator_pin_instances w _ = []"

definition pin_aggregators :: "('e, 'u) world \<Rightarrow> nat option \<Rightarrow> gc_ref list" where
  "pin_aggregators w aggregators =
     rb_sqlite3_pin_array_and_contents w aggregators @
     (case aggregators of
        None \<Rightarrow> []
      | Some r \<Rightarrow> concat (map (rb_sqlite3_aggregator_pin_instances w) (arys w r)))"

definition database_mark :: "('e, 'u) world \<Rightarrow> nat \<Rightarrow> gc_ref list" where
  "database_mark w ctx =
     (let c = dbs w ctx in
      [GValue (d_busy_handler c), GValue (d_trace_handler c), GValue (d_authorizer c)] @
      rb_sqlite3_pin_array_and_contents w (d_functions c) @
      pin_hash_and_contents w (d_collations c) @
      pin_aggregators w (d_aggregators c))"

section \<open>What SQLite points to is marked\<close>

lemma marked_function:
  "d_functions (dbs w self) = Some r \<Longrightarrow> v \<in> set (arys w r) \<Longrightarrow> GValue v \<in> set (database_mark w self)"
  by (auto simp: database_mark_def Let_def rb_sqlite3_pin_array_and_contents_def)

lemma marked_collation:
  "d_collations (dbs w self) = Some r \<Longrightarrow> (k, v) \<in> set (hashes w r) \<Longrightarrow>
     GValue v \<in> set (database_mark w self)"
  by (force simp: database_mark_def Let_def pin_hash_and_contents_def pin_hash_value_def)

lemma marked_wrapper:
  "d_aggregators (dbs w self) = Some r \<Longrightarrow> v \<in> set (arys w r) \<Longrightarrow> GValue v \<in> set (database_mark w self)"
  by (auto simp: database_mark_def Let_def pin_aggregators_def rb_sqlite3_pin_array_and_contents_def)

lemma marked_instance:
  "d_aggregators (dbs w self) = Some r \<Longrightarrow> RAw aw \<in> set (arys w r) \<Longrightarrow>
     instances (aws w aw) = Some q \<Longrightarrow> v \<in> set (arys w q) \<Longrightarrow> GValue v \<in> set (database_mark w self)"
  by (force simp: database_mark_def Let_def pin_aggregators_def rb_sqlite3_pin_array_and_contents_def)

lemma define_function_stores:
  assumes "define_function_with_flags L U self name flags (Some block) w = (Inr self, w')"
  shows "\<exists>r. d_functions (dbs w' self) = Some r \<and> block \<in> set (arys w' r)"
proof -
  from assms obtain v r where "w' = upd_db self (\<lambda>d. d\<lparr>d_functions := Some r\<rparr>) (upd_ary r (\<lambda>vs. vs @ [block]) v)"
    unfolding define_function_with_flags_def bindM_returns_iff
    by (auto simp: rb_block_proc_def rb_ary_push_def split: option.splits)
  then show ?thesis by simp
qed

text \<open>C23: registration pins. Whenever one of the methods that hand a Ruby object to SQLite as user
  data returns normally, the object is among what the Database marks: the block of a function,
  the comparator of a collation, the trace and busy handlers and the authorizer. So none of
  them is freed or moved while SQLite can call it.\<close>

theorem registered_objects_marked:
  "(\<forall>w'. define_function_with_flags L U self name flags (Some block) w = (Inr self, w') \<longrightarrow>
      GValue block \<in> set (database_mark w' self)) \<and>
   (\<forall>w'. collation L self name comparator w = (Inr self, w') \<longrightarrow>
      GValue comparator \<in> set (database_mark w' self)) \<and>
   (\<forall>w'. trace L [handler] None self w = (Inr self, w') \<longrightarrow>
      GValue handler \<in> set (database_mark w' self)) \<and>
   (\<forall>w'. busy_handler L [handler] None self w = (Inr self, w') \<longrightarrow>
      GValue handler \<in> set (database_mark w' self)) \<and>
   (\<forall>w'. set_authorizer L self handler w = (Inr self, w') \<longrightarrow>
      GValue handler \<in> set (database_mark w' self))"
proof (intro conjI allI impI)
  fix w' assume "define_function_with_flags L U self name flags (Some block) w = (Inr self, w')"
  from define_function_stores [OF this] show "GValue block \<in> set (database_mark w' self)"
    by (auto intro: marked_function)
next
  fix w' assume "collation L self name comparator w = (Inr self, w')"
  then obtain v r k where "w' = upd_db self (\<lambda>d. d\<lparr>d_collations := Some r\<rparr>) (upd_hash r (hash_aset k comparator) v)"
    unfolding collation_def bindM_returns_iff
    by (auto simp: rb_hash_aset_def split: option.splits)
  then show "GValue comparator \<in> set (database_mark w' self)"
    by (intro marked_collation [of _ _ r k]) (simp_all add: hash_aset_values)
next
  fix w' assume "trace L [handler] None self w = (Inr self, w')"
  then show "GValue handler \<in> set (database_mark w' self)"
    by (auto simp: trace_def bindM_returns_iff scan_callable_def sqlite_call_returns database_mark_def)
next
  fix w' assume "busy_handler L [handler] None self w = (Inr self, w')"
  then show "GValue handler \<in> set (database_mark w' self)"
    by (auto simp: busy_handler_def bindM_returns_iff scan_callable_def sqlite_call_returns
        raise_returns_iff database_mark_def Let_def)
next
  fix w' assume "set_authorizer L self handler w = (Inr self, w')"
  then show "GValue handler \<in> set (database_mark w' self)"
    by (auto simp: set_authorizer_def bindM_returns_iff database_mark_def Let_def)
qed

theorem registered_objects_marked_witness:
  "\<exists>w'. set_authorizer sample_lib 0 (RObject 3) (upd_db 0 (\<lambda>d. d\<lparr>d_db := Some 7\<rparr>) sample_world) =
      (Inr 0, w') \<and> GValue (RObject 3) \<in> set (database_mark w' 0)"
proof -
  let ?w = "upd_db 0 (\<lambda>d. d\<lparr>d_db := Some 7\<rparr>) sample_world"
  have "fst (set_authorizer sample_lib 0 (RObject 3) ?w) = Inr 0"
    by (simp add: set_authorizer_def open_db.guarded_open sample_defs sqlite_call_returns)
  then have "set_authorizer sample_lib 0 (RObject 3) ?w = (Inr 0, snd (set_authorizer sample_lib 0 (RObject 3) ?w))"
    by (metis prod.collapse)
  with registered_objects_marked [where L = sample_lib and self = 0 and w = ?w] show ?thesis by blast
qed

text \<open>Aggregates in flight are pinned. While a context of an aggregate is live, the instance
  that SQLite's memory refers to is marked by the Database whose aggregators contain the
  wrapper; \<open>define_aggregator2\<close> puts every wrapper that it registers there.\<close>

lemma live_instances_marked:
  assumes "agg_inv A w" and "aggmem w cid = Some (SlotInst i)"
    and "d_aggregators (dbs w self) = Some r" and "RAw (A cid) \<in> set (arys w r)"
  shows "GValue (RInst i) \<in> set (database_mark w self) \<and> GValue (RAw (A cid)) \<in> set (database_mark w self)"
proof -
  obtain q where "instances (aws w (A cid)) = Some q" "RInst i \<in> set (arys w q)"
    using agg_inv_live [OF assms(1,2)] by blast
  with assms(3,4) show ?thesis by (simp add: marked_instance marked_wrapper)
qed

lemma require_returns_iff: "require b x w = (Inr u, v) \<longleftrightarrow> b \<and> v = w"
  by (auto simp: require_run)

lemma define_aggregator_stores:
  assumes "rb_sqlite3_define_aggregator2 L U self klass name w = (Inr self, w')"
  shows "\<exists>aw h nm arity q. DbCall (Some h) (Create_function nm arity SQLITE_UTF8 (RAw aw) AggregateFunction)
      \<in> set (calls w') \<and> - 1 \<le> sint arity \<and> sint arity \<le> 127 \<and> nul \<notin> set nm \<and>
    handler_klass (aws w' aw) = klass \<and> instances (aws w' aw) = Some q \<and>
    (\<exists>r. d_aggregators (dbs w' self) = Some r \<and> RAw aw \<in> set (arys w' r))"
proof -
  from assms obtain h arity v aggs v2 nm st v3 v4 where
    h: "d_db (dbs w self) = Some h" and ar: "\<not> (sint arity < - 1 \<or> 127 < sint arity)"
    and ens: "ensure_aggregators self v = (Inr aggs, v2)"
    and nm: "StringValueCStr name = Inr nm"
    and call: "sqlite_call (l_int L) (DbCall (Some h) (Create_function nm arity SQLITE_UTF8 (RAw (next_ref v2))
        AggregateFunction)) (wrapper_world klass v2) = (Inr st, v3)"
    and rest: "rb_ary_push aggs (RAw (next_ref v2)) v3 = (Inr (), v4)"
      "w' = upd_db self (\<lambda>d. d\<lparr>d_aggregators := aggs\<rparr>) v4"
    unfolding rb_sqlite3_define_aggregator2_def bindM_returns_iff new_wrapper_run
    by (auto simp: require_returns_iff raise_returns_iff)
  from rest obtain r where r: "aggs = Some r"
    "w' = upd_db self (\<lambda>d. d\<lparr>d_aggregators := Some r\<rparr>) (upd_ary r (\<lambda>vs. vs @ [RAw (next_ref v2)]) v3)"
    by (auto simp: rb_ary_push_def split: option.splits)
  have aw: "aws v3 (next_ref v2) = \<lparr>handler_klass = klass, instances = Some (Suc (next_ref v2))\<rparr>"
    "DbCall (Some h) (Create_function nm arity SQLITE_UTF8 (RAw (next_ref v2)) AggregateFunction) \<in> set (calls v3)"
    using call by (auto simp: sqlite_call_returns wrapper_world_def)
  with aw ar StringValueCStr_no_nul [OF nm] show ?thesis
    by (intro exI [of _ "next_ref v2"] exI [of _ h] exI [of _ nm] exI [of _ arity] exI [of _ "Suc (next_ref v2)"])
      (simp add: r not_less)
qed

text \<open>\<open>define_aggregator2\<close> registers one new wrapper of the handler with SQLite and keeps it:
  after a normal return the wrapper given to \<open>sqlite3_create_function\<close> holds the handler class,
  has an empty array of instances, and is marked by the Database. A handler whose arity is
  outside -1..127 is refused before anything is registered.\<close>

lemma define_aggregator_registers:
  assumes "rb_sqlite3_define_aggregator2 L U self klass name w = (Inr self, w')"
  shows "\<exists>aw h nm arity q. DbCall (Some h) (Create_function nm arity SQLITE_UTF8 (RAw aw) AggregateFunction)
      \<in> set (calls w') \<and> - 1 \<le> sint arity \<and> sint arity \<le> 127 \<and> nul \<notin> set nm \<and>
    handler_klass (aws w' aw) = klass \<and> instances (aws w' aw) = Some q \<and>
    GValue (RAw aw) \<in> set (database_mark w' self)"
  using define_aggregator_stores [OF assms] by (blast intro: marked_wrapper)

end
