(* ===== verification/Fork_Safety.thy ===== *)
theory Fork_Safety
  imports Database_Laws
begin

unbundle bit_operations_syntax

text \<open>
  Closing connections and \<open>fork\<close> (\<open>adr/2024-09-fork-safety.md\<close>): \<open>close_or_discard_db\<close> and
  \<open>discard_db\<close> of \<open>ext/sqlite3/database.c\<close>, and the life cycle of one Database object across
  processes as a step relation. The world is the memory of one process; a fork continues with a
  copy of it in which only the process id has changed.
\<close>

section \<open>What discarding does\<close>

text \<open>The calls that releasing a connection without closing it makes.\<close>

fun release_call :: "dbh option \<Rightarrow> sql_call \<Rightarrow> bool" where
  "release_call db (DbCall h Db_release_memory) \<longleftrightarrow> h = db"
| "release_call db (DbCall h (Db_name j)) \<longleftrightarrow> h = db"
| "release_call db (DbCall h (File_control nm op)) \<longleftrightarrow> h = db"
| "release_call db (XClose f) \<longleftrightarrow> True"
| "release_call db _ \<longleftrightarrow> False"

definition releasing :: "dbh option \<Rightarrow> ('e, 'u) world \<Rightarrow> ('e, 'u) world \<Rightarrow> bool" where
  "releasing db w v \<longleftrightarrow>
     (\<exists>e cs. v = w\<lparr>env := e, calls := calls w @ cs\<rparr> \<and> list_all (release_call db) cs)"

lemma releasing_refl: "releasing db w w"
  unfolding releasing_def by (rule exI [of _ "env w"], rule exI [of _ "[]"]) simp

lemma keeps_releasing_call:
  assumes "release_call db c"
  shows "keeps (releasing db w) (sqlite_call f c)"
proof (rule keeps_sqlite_call, rule allowsI)
  fix v e assume "releasing db w v"
  then obtain e' cs where "v = w\<lparr>env := e', calls := calls w @ cs\<rparr>" "list_all (release_call db) cs"
    by (auto simp: releasing_def)
  with assms show "releasing db w (v\<lparr>env := e, calls := calls v @ [c]\<rparr>)"
    unfolding releasing_def by (intro exI [of _ e] exI [of _ "cs @ [c]"]) simp
qed

lemma keeps_close_file: "keeps (releasing db w) (close_file L db name op)"
  unfolding close_file_def by (intro keeps_intros keeps_releasing_call) simp_all

lemma keeps_close_files: "keeps (releasing db w) (close_files L db fuel j)"
  by (induction fuel arbitrary: j)
    (auto intro!: keeps_intros keeps_close_file keeps_releasing_call)

lemma keeps_discard_files:
  assumes "\<And>c. release_call db c \<Longrightarrow> allows I c"
  shows "keeps I (close_file L db name op)" "keeps I (close_files L db fuel j)"
proof -
  show one_file: "keeps I (close_file L db name op)" for name op
    unfolding close_file_def by (intro keeps_intros assms) simp_all
  show "keeps I (close_files L db fuel j)"
    by (induction fuel arbitrary: j) (auto intro!: keeps_intros one_file assms)
qed

lemma keeps_discard_on:
  assumes "\<And>c. release_call db c \<Longrightarrow> allows I c"
    and "\<And>w. I w \<Longrightarrow> I (upd_db ctx (\<lambda>d. d\<lparr>d_db := None, d_flags := d_flags d OR SQLITE3_RB_DATABASE_DISCARDED\<rparr>) w)"
    and "I w" and "d_db (dbs w ctx) = db"
  shows "I (snd (discard_db L ctx w))"
proof -
  have "keeps I (bindM (sqlite_call (l_int L) (DbCall db Db_release_memory)) (\<lambda>_.
     bindM (if l_has_db_name L then close_files L db schema_bound 0
            else close_file L db None FCNTL_FILE_POINTER) (\<lambda>_.
     bindM (close_file L db None FCNTL_JOURNAL_POINTER) (\<lambda>_.
     modM (upd_db ctx (\<lambda>d. d\<lparr>d_db := None, d_flags := d_flags d OR SQLITE3_RB_DATABASE_DISCARDED\<rparr>))))))"
    using assms(1,2) by (intro keeps_intros keeps_discard_files) simp_all
  from keepsD [OF this assms(3)] assms(4) show ?thesis by (simp add: discard_db_def)
qed

lemma keeps_close_open:
  assumes "\<And>h c. release_call (Some h) c \<or> c = DbCall (Some h) Close_v2 \<Longrightarrow> allows I c"
    and discarded: "\<And>w. I w \<Longrightarrow>
      I (upd_db ctx (\<lambda>d. d\<lparr>d_db := None, d_flags := d_flags d OR SQLITE3_RB_DATABASE_DISCARDED\<rparr>) w)"
    and closed: "\<And>w. I w \<Longrightarrow> I (upd_db ctx (\<lambda>d. d\<lparr>d_db := None\<rparr>) w)"
  shows "keeps I (close_or_discard_db L ctx)"
proof (rule keepsI)
  fix w assume inv: "I w"
  show "I (snd (close_or_discard_db L ctx w))"
  proof (cases "d_db (dbs w ctx)")
    case (Some h)
    have "I (snd (discard_db L ctx w))"
      using assms(1) by (rule keeps_discard_on [OF _ discarded inv Some]) blast
    moreover have "keeps I (bindM (sqlite_call (l_int L) (DbCall (Some h) Close_v2)) (\<lambda>_.
        modM (upd_db ctx (\<lambda>d. d\<lparr>d_db := None\<rparr>))))"
      using assms(1) by (intro keeps_intros closed) blast+
    ultimately show ?thesis using Some inv by (simp add: close_or_discard_db_def Let_def keepsD)
  qed (simp add: close_or_discard_db_def inv)
qed

lemma keeps_close_or_discard:
  assumes "\<And>c. allows I c"
    and "\<And>w d. I w \<Longrightarrow> I (upd_db ctx (\<lambda>d. d\<lparr>d_db := None, d_flags := d_flags d OR SQLITE3_RB_DATABASE_DISCARDED\<rparr>) w)"
    and "\<And>w d. I w \<Longrightarrow> I (upd_db ctx (\<lambda>d. d\<lparr>d_db := None\<rparr>) w)"
  shows "keeps I (discard_db L ctx)" "keeps I (close_or_discard_db L ctx)"
  by (auto intro: keepsI keeps_discard_on keeps_close_open assms)

text \<open>
  \<open>sqlite3_db_name(db, N)\<close> returns NULL when N is out of range, and a connection has at most
  127 schemas.
\<close>

definition names_bounded :: "'e sqlite_lib \<Rightarrow> bool" where
  "names_bounded L \<longleftrightarrow> (\<forall>h e j. 127 \<le> j \<longrightarrow> fst (l_text L (DbCall h (Db_name j)) e) = None)"

lemma bindM_returns_ex:
  "\<exists>a v. m w = (Inr a, v) \<Longrightarrow> (\<And>a v. \<exists>u. f a v = (Inr b, u)) \<Longrightarrow> \<exists>u. bindM m f w = (Inr b, u)"
  by (metis bindM_Inr)

lemma close_file_returns: "\<exists>v. close_file L db name op w = (Inr (), v)"
  by (simp add: close_file_def bindM_def sqlite_call_returns split: prod.splits)

lemma close_files_returns:
  fixes w :: "('e, 'u) world"
  assumes "names_bounded L" and "j \<le> 127" and "j + fuel = 128"
  shows "\<exists>v. close_files L db fuel j w = (Inr (), v)"
  using assms(2,3)
proof (induction fuel arbitrary: j w)
  case (Suc fuel)
  obtain nm v where call: "sqlite_call (l_text L) (DbCall db (Db_name j)) w = (Inr nm, v)"
    "nm = fst (l_text L (DbCall db (Db_name j)) (env w))"
    by (simp add: sqlite_call_returns)
  show ?case
  proof (cases nm)
    case None
    with call show ?thesis by simp
  next
    case (Some n)
    with call(2) assms(1) have "j \<noteq> 127" by (auto simp: names_bounded_def)
    then have "\<exists>u. close_files L db fuel (Suc j) t = (Inr (), u)" for t :: "('e, 'u) world"
      using Suc.prems by (intro Suc.IH) auto
    moreover obtain t where "close_file L db (Some n) FCNTL_FILE_POINTER v = (Inr (), t)"
      using close_file_returns by blast
    ultimately show ?thesis using call(1) unfolding Some close_files.simps by simp
  qed
qed simp

lemma releasing_db: "releasing db w v \<Longrightarrow> dbs v = dbs w \<and> pid v = pid w"
  by (auto simp: releasing_def)

lemma releasing_calls: "releasing db w v \<Longrightarrow> \<exists>cs. calls v = calls w @ cs \<and> list_all (release_call db) cs"
  by (auto simp: releasing_def)

lemma discard_run:
  assumes "names_bounded L"
  shows "\<exists>v. discard_db L ctx w =
      (Inr (), upd_db ctx (\<lambda>d. d\<lparr>d_db := None, d_flags := d_flags d OR SQLITE3_RB_DATABASE_DISCARDED\<rparr>) v) \<and>
    releasing (d_db (dbs w ctx)) w v"
proof -
  define db where "db = d_db (dbs w ctx)"
  define m :: "('a, 'b, unit) rb" where "m = (bindM (sqlite_call (l_int L) (DbCall db Db_release_memory)) (\<lambda>_.
     bindM (if l_has_db_name L then close_files L db schema_bound 0
            else close_file L db None FCNTL_FILE_POINTER) (\<lambda>_.
     close_file L db None FCNTL_JOURNAL_POINTER)))"
  have "\<exists>v. m w = (Inr (), v)"
  proof -
    have "\<exists>v. (if l_has_db_name L then close_files L db schema_bound 0
            else close_file L db None FCNTL_FILE_POINTER) u = (Inr (), v)" for u :: "('a, 'b) world"
      using close_files_returns [OF assms, of 0 schema_bound db u] close_file_returns [of L db _ _ u]
      by (simp add: schema_bound_def)
    then show ?thesis
      unfolding m_def
      by (intro bindM_returns_ex close_file_returns) (auto simp: sqlite_call_returns)
  qed
  then obtain v where v: "m w = (Inr (), v)" by blast
  have "keeps (releasing db w) m"
    unfolding m_def by (intro keeps_intros keeps_releasing_call keeps_close_file keeps_close_files) simp
  from keepsE [OF this releasing_refl v] have "releasing db w v" .
  moreover have "discard_db L ctx w = bindM m (\<lambda>_. modM (upd_db ctx (\<lambda>d. d\<lparr>d_db := None,
      d_flags := d_flags d OR SQLITE3_RB_DATABASE_DISCARDED\<rparr>))) w"
    by (simp add: discard_db_def m_def db_def bindM_assoc) 
  ultimately show ?thesis using v by (auto simp: db_def)
qed

text \<open>C18: closing a connection. A closed object is left alone (closing is idempotent). An open
  connection that is read-only or belongs to this process is closed with one call of
  \<open>sqlite3_close_v2\<close>. A writable connection that was carried across a fork is never passed to
  \<open>sqlite3_close_v2\<close>: only its memory and its files are released, and the object is marked as
  discarded. In every case the method returns and the object is closed; nothing else of the
  process changes.\<close>

theorem close_or_discard_spec:
  assumes "names_bounded L"
  shows "\<exists>w' cs. close_or_discard_db L ctx w = (Inr (), w') \<and> calls w' = calls w @ cs \<and>
    d_db (dbs w' ctx) = None \<and> (\<forall>r. r \<noteq> ctx \<longrightarrow> dbs w' r = dbs w r) \<and> stmts w' = stmts w \<and>
    (let d = dbs w ctx; safe = (d_flags d AND SQLITE3_RB_DATABASE_READONLY \<noteq> 0 \<or> d_owner d = pid w) in
     if d_db d = None then w' = w
     else if safe then cs = [DbCall (d_db d) Close_v2] \<and> d_flags (dbs w' ctx) = d_flags d
     else list_all (release_call (d_db d)) cs \<and>
       d_flags (dbs w' ctx) = d_flags d OR SQLITE3_RB_DATABASE_DISCARDED)"
proof -
  consider (closed) "d_db (dbs w ctx) = None"
    | (safe) h where "d_db (dbs w ctx) = Some h"
        "d_flags (dbs w ctx) AND SQLITE3_RB_DATABASE_READONLY \<noteq> 0 \<or> d_owner (dbs w ctx) = pid w"
    | (fork) h where "d_db (dbs w ctx) = Some h"
        "\<not> (d_flags (dbs w ctx) AND SQLITE3_RB_DATABASE_READONLY \<noteq> 0 \<or> d_owner (dbs w ctx) = pid w)"
    by (cases "d_db (dbs w ctx)") auto
  then show ?thesis
  proof cases
    case closed
    then show ?thesis by (simp add: close_or_discard_db_def bindM_def)
  next
    case safe
    then show ?thesis
      by (auto simp: close_or_discard_db_def bindM_def sqlite_call_returns Let_def upd_db_def)
  next
    case fork
    obtain v where v: "discard_db L ctx w =
      (Inr (), upd_db ctx (\<lambda>d. d\<lparr>d_db := None, d_flags := d_flags d OR SQLITE3_RB_DATABASE_DISCARDED\<rparr>) v)"
      "releasing (d_db (dbs w ctx)) w v"
      using discard_run [OF assms] by blast
    obtain e cs where "v = w\<lparr>env := e, calls := calls w @ cs\<rparr>" "list_all (release_call (d_db (dbs w ctx))) cs"
      using v(2) by (auto simp: releasing_def)
    with fork v(1) show ?thesis
      by (simp add: close_or_discard_db_def bindM_def Let_def upd_db_def)
  qed
qed

theorem close_or_discard_spec_witness:
  "\<exists>w' cs. close_or_discard_db (sample_lib\<lparr>l_text := \<lambda>c e. (None, e)\<rparr>) 0
      (upd_db 0 (\<lambda>d. d\<lparr>d_db := Some 7, d_owner := 2\<rparr>) sample_world) = (Inr (), w') \<and>
    calls w' = cs \<and> list_all (release_call (Some 7)) cs"
proof -
  have "names_bounded (sample_lib\<lparr>l_text := \<lambda>c e. (None, e)\<rparr>)" by (simp add: names_bounded_def)
  from close_or_discard_spec [OF this, of 0 "upd_db 0 (\<lambda>d. d\<lparr>d_db := Some 7, d_owner := 2\<rparr>) sample_world"]
  show ?thesis by (auto simp: upd_db_def sample_defs Let_def)
qed

section \<open>The life cycle across processes\<close>

text \<open>The methods of a Database other than opening and closing, as requests.\<close>

datatype db_method =
    M_total_changes | M_last_insert_row_id | M_interrupt | M_errmsg | M_errcode | M_changes
  | M_complete_p rb_value | M_transaction_active_p | M_db_filename rb_value
  | M_trace "rb_value list" "rb_value option" | M_busy_handler "rb_value list" "rb_value option"
  | M_set_authorizer rb_value | M_set_statement_timeout rb_value | M_set_busy_timeout rb_value
  | M_set_extended_result_codes rb_value | M_define_function rb_value "rb_value option"
  | M_define_function_with_flags rb_value rb_value "rb_value option"
  | M_collation rb_value rb_value | M_load_extension rb_value | M_enable_load_extension rb_value
  | M_exec_batch rb_value rb_value | M_define_aggregator2 rb_value rb_value
  | M_disable_quirk_mode

abbreviation ignore :: "('e, 'u, 'a) rb \<Rightarrow> ('e, 'u, unit) rb" where
  "ignore m \<equiv> bindM m (\<lambda>_. ret ())"

fun call_method :: "'e sqlite_lib \<Rightarrow> 'u rb_user \<Rightarrow> nat \<Rightarrow> db_method \<Rightarrow> ('e, 'u, unit) rb" where
  "call_method L U s M_total_changes = ignore (total_changes L s)"
| "call_method L U s M_last_insert_row_id = ignore (last_insert_row_id L s)"
| "call_method L U s M_interrupt = ignore (interrupt L s)"
| "call_method L U s M_errmsg = ignore (errmsg L s)"
| "call_method L U s M_errcode = ignore (errcode L s)"
| "call_method L U s M_changes = ignore (changes L s)"
| "call_method L U s (M_complete_p a) = ignore (complete_p L s a)"
| "call_method L U s M_transaction_active_p = ignore (transaction_active_p L s)"
| "call_method L U s (M_db_filename a) = ignore (db_filename L s a)"
| "call_method L U s (M_trace args blk) = ignore (trace L args blk s)"
| "call_method L U s (M_busy_handler args blk) = ignore (busy_handler L args blk s)"
| "call_method L U s (M_set_authorizer a) = ignore (set_authorizer L s a)"
| "call_method L U s (M_set_statement_timeout a) = ignore (set_statement_timeout L s a)"
| "call_method L U s (M_set_busy_timeout a) = ignore (set_busy_timeout L s a)"
| "call_method L U s (M_set_extended_result_codes a) = ignore (set_extended_result_codes L s a)"
| "call_method L U s (M_define_function a blk) = ignore (define_function L U s a blk)"
| "call_method L U s (M_define_function_with_flags a b blk) = ignore (define_function_with_flags L U s a b blk)"
| "call_method L U s (M_collation a b) = ignore (collation L s a b)"
| "call_method L U s (M_load_extension a) = ignore (load_extension_internal L U s a)"
| "call_method L U s (M_enable_load_extension a) = ignore (enable_load_extension L s a)"
| "call_method L U s (M_exec_batch a b) = ignore (exec_batch L U s a b)"
| "call_method L U s (M_define_aggregator2 a b) = ignore (rb_sqlite3_define_aggregator2 L U s a b)"
| "call_method L U s M_disable_quirk_mode = ignore (rb_sqlite3_disable_quirk_mode L s)"

fun close_call :: "sql_call \<Rightarrow> bool" where
  "close_call (DbCall h Close_v2) \<longleftrightarrow> True"
| "close_call _ \<longleftrightarrow> False"

text \<open>The methods leave the handles alone and never close a connection.\<close>

definition uses_only :: "('e, 'u) world \<Rightarrow> ('e, 'u) world \<Rightarrow> bool" where
  "uses_only w v \<longleftrightarrow> db_handles_same w v \<and> pid v = pid w \<and>
     (\<exists>cs. calls v = calls w @ cs \<and> list_all (\<lambda>c. \<not> close_call c) cs)"

lemma uses_only_refl: "uses_only w w"
  by (simp add: uses_only_def db_handles_same_def)

lemma uses_only_call:
  assumes "uses_only w v" and "\<not> close_call c"
  shows "uses_only w (v\<lparr>env := e, calls := calls v @ [c]\<rparr>)"
  using assms by (auto simp: uses_only_def db_handles_same_def)

lemma close_call_op: "op \<noteq> Close_v2 \<Longrightarrow> \<not> close_call (DbCall h op)"
  by (cases op) auto

text \<open>The frame of all methods, the unguarded \<open>statement_timeout=\<close> included.\<close>

locale call_base = method_base I L U
  for I :: "('e, 'u) world \<Rightarrow> bool" and L :: "'e sqlite_lib" and U :: "'u rb_user" +
  assumes progress_call: "I w \<Longrightarrow> I (w\<lparr>env := e, calls := calls w @ [DbCall z (Progress_handler n s)]\<rparr>)"
begin

lemma keeps_set_statement_timeout: "keeps I (set_statement_timeout L s a)"
  unfolding set_statement_timeout_def
  by (intro keeps_bindM keeps_ret keeps_getM keeps_liftE keeps_modM fields keeps_sqlite_call)
    (simp_all add: allows_def progress_call)

lemma keeps_call_method: "keeps I (call_method L U s m)"
  by (cases m) (simp_all add: keeps_bindM keeps_queries keeps_complete_p keeps_registrations
      keeps_define_function keeps_quirk_mode keeps_exec_batch keeps_define_aggregator
      keeps_set_statement_timeout)

end

locale call_frame = method_frame I for I :: "('e, 'u) world \<Rightarrow> bool" +
  assumes progress_call: "I w \<Longrightarrow> I (w\<lparr>env := e, calls := calls w @ [DbCall z (Progress_handler n s)]\<rparr>)"
begin

sublocale base: call_base I L U for L U
  by unfold_locales (rule progress_call)

end

interpretation uses: call_frame "uses_only w" for w
  by unfold_locales
    (auto simp: uses_only_def db_handles_same_def upd_defs close_call_op)

text \<open>
  The steps of a Database object that is open: any method (whatever its outcome), closing,
  discarding (\<open>discard\<close> is private and used by the tests), the finalizer, and a fork, after which
  the object goes on in the child. The log lists the calls to SQLite with the process that
  made them.
\<close>

type_synonym log = "(int \<times> sql_call) list"

inductive lifecycle ::
  "'e sqlite_lib \<Rightarrow> 'u rb_user \<Rightarrow> nat \<Rightarrow> ('e, 'u) world \<Rightarrow> log \<Rightarrow> ('e, 'u) world \<Rightarrow> bool"
  for L U self w0 where
  start: "lifecycle L U self w0 [] w0"
| call: "lifecycle L U self w0 lg w \<Longrightarrow> call_method L U self m w = (r, v) \<Longrightarrow> calls v = calls w @ cs \<Longrightarrow>
    lifecycle L U self w0 (lg @ map (Pair (pid w)) cs) v"
| close: "lifecycle L U self w0 lg w \<Longrightarrow> database_close L self w = (r, v) \<Longrightarrow> calls v = calls w @ cs \<Longrightarrow>
    lifecycle L U self w0 (lg @ map (Pair (pid w)) cs) v"
| discard: "lifecycle L U self w0 lg w \<Longrightarrow> database_discard L self w = (r, v) \<Longrightarrow> calls v = calls w @ cs \<Longrightarrow>
    lifecycle L U self w0 (lg @ map (Pair (pid w)) cs) v"
| finalize: "lifecycle L U self w0 lg w \<Longrightarrow> database_deallocate L self w = (r', v) \<Longrightarrow> calls v = calls w @ cs \<Longrightarrow>
    lifecycle L U self w0 (lg @ map (Pair (pid w)) cs) v"
| fork: "lifecycle L U self w0 lg w \<Longrightarrow> lifecycle L U self w0 lg (w\<lparr>pid := p\<rparr>)"

inductive_cases lifecycleE: "lifecycle L U self w0 lg w"

text \<open>What is invariant: the owner, the read-only flag, and where the closes are in the log.\<close>

definition closes :: "log \<Rightarrow> log" where
  "closes lg = filter (close_call \<circ> snd) lg"

definition fork_inv :: "nat \<Rightarrow> ('e, 'u) world \<Rightarrow> log \<Rightarrow> ('e, 'u) world \<Rightarrow> bool" where
  "fork_inv self w0 lg w \<longleftrightarrow>
     d_owner (dbs w self) = d_owner (dbs w0 self) \<and>
     d_flags (dbs w self) AND SQLITE3_RB_DATABASE_READONLY = 0 \<and>
     (if d_db (dbs w self) = None then length (closes lg) \<le> 1 else closes lg = []) \<and>
     (\<forall>(p, c) \<in> set (closes lg). p = d_owner (dbs w0 self))"

lemma fork_inv_pid: "fork_inv self w0 lg (w\<lparr>pid := p\<rparr>) = fork_inv self w0 lg w"
  by (simp add: fork_inv_def)

lemma closes_simps:
  "closes [] = []" "closes (a @ b) = closes a @ closes b"
  "list_all (\<lambda>c. \<not> close_call c) cs \<Longrightarrow> closes (map (Pair p) cs) = []"
  by (auto simp: closes_def list_all_iff filter_empty_conv)

lemma release_not_close: "list_all (release_call db) cs \<Longrightarrow> list_all (\<lambda>c. \<not> close_call c) cs"
proof (induction cs)
  case (Cons c cs)
  then have "\<not> close_call c" by (cases c rule: close_call.cases) auto
  with Cons show ?case by simp
qed simp

lemma readonly_discarded: "(x OR SQLITE3_RB_DATABASE_DISCARDED) AND SQLITE3_RB_DATABASE_READONLY = x AND SQLITE3_RB_DATABASE_READONLY"
  by (simp add: bit.conj_disj_distrib2)

lemma fork_inv_discard:
  assumes "names_bounded L" and "fork_inv self w0 lg w" and "discard_db L self w = (r, v)"
    and "calls v = calls w @ cs"
  shows "fork_inv self w0 (lg @ map (Pair (pid w)) cs) v"
proof -
  obtain u where u: "v = upd_db self (\<lambda>d. d\<lparr>d_db := None, d_flags := d_flags d OR SQLITE3_RB_DATABASE_DISCARDED\<rparr>) u"
    "releasing (d_db (dbs w self)) w u"
    using discard_run [OF assms(1), of self w] assms(3) by auto
  then have "list_all (release_call (d_db (dbs w self))) cs"
    using assms(4) by (auto simp: releasing_def upd_db_def)
  then have none: "closes (map (Pair (pid w)) cs) = []"
    by (rule closes_simps(3) [OF release_not_close])
  have "dbs u = dbs w" using u(2) by (auto simp: releasing_def)
  with u(1) none assms(2) show ?thesis
    by (auto simp: fork_inv_def closes_simps readonly_discarded split: if_splits)
qed

lemma fork_inv_close:
  assumes bounded: "names_bounded L" and inv: "fork_inv self w0 lg w"
    and run: "close_or_discard_db L self w = (r, v)" and cs: "calls v = calls w @ cs"
  shows "fork_inv self w0 (lg @ map (Pair (pid w)) cs) v"
proof -
  consider (closed) "d_db (dbs w self) = None"
    | (own) h where "d_db (dbs w self) = Some h" "d_owner (dbs w self) = pid w"
    | (fork) h where "d_db (dbs w self) = Some h" "d_owner (dbs w self) \<noteq> pid w"
    by (cases "d_db (dbs w self)") auto
  then show ?thesis
  proof cases
    case closed
    then have "v = w" using run by (auto simp: close_or_discard_db_def bindM_def)
    with inv cs show ?thesis by (simp add: closes_simps)
  next
    case own
    then have v: "cs = [DbCall (Some h) Close_v2]"
        "dbs v = (dbs w)(self := (dbs w self)\<lparr>d_db := None\<rparr>)"
      using run cs by (auto simp: close_or_discard_db_def bindM_def sqlite_call_returns upd_db_def)
    with inv own show ?thesis by (simp add: fork_inv_def closes_def)
  next
    case fork
    then have "discard_db L self w = (r, v)"
      using run inv by (simp add: close_or_discard_db_def bindM_def fork_inv_def)
    then show ?thesis by (rule fork_inv_discard [OF bounded inv _ cs])
  qed
qed

lemma fork_inv_method:
  assumes inv: "fork_inv self w0 lg w" and use: "uses_only w v" and cs: "calls v = calls w @ cs"
  shows "fork_inv self w0 (lg @ map (Pair (pid w)) cs) v"
proof -
  have "list_all (\<lambda>c. \<not> close_call c) cs" "db_handles_same w v"
    using use cs by (auto simp: uses_only_def)
  with inv show ?thesis by (auto simp: fork_inv_def closes_simps db_handles_same_def)
qed

lemma lifecycle_inv:
  assumes "lifecycle L U self w0 lg w" and "names_bounded L" and "fork_inv self w0 [] w0"
  shows "fork_inv self w0 lg w"
  using assms
proof (induction rule: lifecycle.induct)
  case (call lg w m r v cs)
  have "uses_only w v"
    using keepsE [OF uses.base.keeps_call_method uses_only_refl call.hyps(2)] .
  then show ?case using fork_inv_method call by blast
next
  case (close lg w r v cs)
  obtain r' where "close_or_discard_db L self w = (r', v)"
    using close.hyps(2) by (cases "close_or_discard_db L self w"; cases "fst (close_or_discard_db L self w)")
      (auto simp: database_close_def)
  then show ?case using fork_inv_close close by blast
next
  case (discard lg w r v cs)
  obtain r' where "discard_db L self w = (r', v)"
    using discard.hyps(2) by (cases "discard_db L self w"; cases "fst (discard_db L self w)")
      (auto simp: database_discard_def)
  then show ?case using fork_inv_discard discard by blast
next
  case (finalize lg w r' v cs)
  then show ?case using fork_inv_close unfolding database_deallocate_def by blast
next
  case (fork lg w p)
  then show ?case by (simp only: fork_inv_pid)
qed simp

text \<open>C1: fork safety. Take a writable connection, opened by the process that allocated the
  object, and any history of it: methods with any outcome, explicit closes, discards, the
  finalizer, and forks at any point, each history followed in the process that results. Then
  \<open>sqlite3_close_v2\<close> is called at most once over the whole history, and only by the process
  that opened the connection, never by one that inherited it.\<close>

theorem fork_safety:
  assumes "lifecycle L U self w0 lg w" and "names_bounded L"
    and "d_db (dbs w0 self) = Some h" and "d_owner (dbs w0 self) = pid w0"
    and "d_flags (dbs w0 self) AND SQLITE3_RB_DATABASE_READONLY = 0"
  shows "(\<forall>p z. (p, DbCall z Close_v2) \<in> set lg \<longrightarrow> p = pid w0) \<and> length (closes lg) \<le> 1 \<and>
    (d_db (dbs w self) \<noteq> None \<longrightarrow> closes lg = [])"
proof -
  have "fork_inv self w0 [] w0"
    using assms(3,5) by (simp add: fork_inv_def closes_simps)
  from lifecycle_inv [OF assms(1,2) this] have inv: "fork_inv self w0 lg w" .
  have "p = pid w0" if "(p, DbCall z Close_v2) \<in> set lg" for p z
  proof -
    have "(p, DbCall z Close_v2) \<in> set (closes lg)" using that by (simp add: closes_def)
    with inv assms(4) show ?thesis by (fastforce simp: fork_inv_def)
  qed
  moreover have "length (closes lg) \<le> 1" "d_db (dbs w self) \<noteq> None \<longrightarrow> closes lg = []"
    using inv by (auto simp: fork_inv_def split: if_splits)
  ultimately show ?thesis by blast
qed

theorem fork_safety_witness:
  "let L = sample_lib\<lparr>l_text := \<lambda>c e. (None, e)\<rparr>;
       w0 = upd_db 0 (\<lambda>d. d\<lparr>d_db := Some 7, d_owner := 1\<rparr>) sample_world;
       lg = map (Pair 2) [DbCall (Some 7) Db_release_memory, DbCall (Some 7) (Db_name 0),
         DbCall (Some 7) (File_control None FCNTL_JOURNAL_POINTER), XClose 3]
   in lifecycle L sample_user 0 w0 lg (snd (database_close L 0 (w0\<lparr>pid := 2\<rparr>))) \<and>
     (\<forall>p z. (p, DbCall z Close_v2) \<in> set lg \<longrightarrow> p = pid w0)"
proof -
  define L where "L = sample_lib\<lparr>l_text := \<lambda>c e. (None, e)\<rparr>"
  define w0 where "w0 = upd_db 0 (\<lambda>d. d\<lparr>d_db := Some 7, d_owner := 1\<rparr>) sample_world"
  define cs where "cs = [DbCall (Some 7) Db_release_memory, DbCall (Some 7) (Db_name 0),
         DbCall (Some 7) (File_control None FCNTL_JOURNAL_POINTER), XClose 3]"
  obtain r v where v: "database_close L 0 (w0\<lparr>pid := 2\<rparr>) = (r, v)" by fastforce
  have "calls v = calls (w0\<lparr>pid := 2\<rparr>) @ cs"
    using v by (auto simp: database_close_def close_or_discard_db_def discard_db_def L_def w0_def cs_def
        bindM_def sqlite_call_returns upd_db_def sample_defs schema_bound_def numeral_eq_Suc close_file_def)
  from lifecycle.close [OF lifecycle.fork [OF lifecycle.start] v this]
  have lc: "lifecycle L sample_user 0 w0 (map (Pair 2) cs) v" by simp
  have "names_bounded L" "d_db (dbs w0 0) = Some 7" "d_owner (dbs w0 0) = pid w0"
    "d_flags (dbs w0 0) AND SQLITE3_RB_DATABASE_READONLY = 0"
    by (simp_all add: names_bounded_def L_def w0_def sample_defs upd_db_def)
  from fork_safety [OF lc this] lc v show ?thesis
    by (simp add: Let_def L_def [symmetric] w0_def [symmetric] cs_def)
qed

section \<open>After closing\<close>

definition names_handle :: "sql_call \<Rightarrow> bool" where
  "names_handle c \<longleftrightarrow> (\<exists>h op. c = DbCall (Some h) op)"

lemmas query_defs = total_changes_def last_insert_row_id_def interrupt_def errmsg_def errcode_def
  changes_def transaction_active_p_def db_filename_def

lemmas registration_defs = trace_def busy_handler_def set_authorizer_def set_busy_timeout_def
  set_extended_result_codes_def define_function_def define_function_with_flags_def collation_def
  load_extension_internal_def enable_load_extension_def rb_sqlite3_disable_quirk_mode_def

text \<open>
  The methods of a closed Database: none reaches SQLite but \<open>complete?\<close>, which takes no
  connection, and \<open>statement_timeout=\<close>, which passes NULL.
\<close>

lemma closed_method:
  assumes "d_db (dbs w self) = None"
  shows "\<exists>cs. calls (snd (call_method L U self m w)) = calls w @ cs \<and> list_all (\<lambda>c. \<not> names_handle c) cs \<and>
    d_db (dbs (snd (call_method L U self m w)) self) = None"
proof (cases m)
  case (M_complete_p a)
  with assms show ?thesis
    by (cases "StringValue a")
      (simp_all add: complete_p_def sqlite_call_returns names_handle_def)
next
  case (M_set_statement_timeout a)
  with assms show ?thesis
    by (cases "NUM2INT a")
      (simp_all add: set_statement_timeout_def sqlite_call_returns names_handle_def)
next
  case (M_exec_batch a b)
  with assms show ?thesis
    by (simp add: exec_batch_def rb_ary_new_def fresh_ref_def open_db.guarded_closed bindM_def
        open_db.guard_closed)
next
  case (M_define_aggregator2 a b)
  with assms show ?thesis
    by (simp add: rb_sqlite3_define_aggregator2_def)
qed (simp_all add: query_defs registration_defs open_db.guarded_closed assms)

lemma close_closes:
  assumes "names_bounded L"
  shows "d_db (dbs (snd (close_or_discard_db L s w)) s) = None"
  using discard_run [OF assms, of s w]
  by (cases "d_db (dbs w s)") (auto simp: close_or_discard_db_def Let_def bindM_def sqlite_call_returns)

lemma release_none: "release_call None c \<Longrightarrow> \<not> names_handle c"
  by (cases "(None :: dbh option, c)" rule: release_call.cases) (auto simp: names_handle_def)

lemma lifecycle_closed:
  assumes "lifecycle L U self w0 lg w" and "names_bounded L" and "d_db (dbs w0 self) = None"
  shows "d_db (dbs w self) = None \<and> list_all (\<lambda>(p, c). \<not> names_handle c) lg"
  using assms
proof (induction rule: lifecycle.induct)
  case (call lg w m r v cs)
  then have closed: "d_db (dbs w self) = None" by simp
  obtain ds where "calls v = calls w @ ds" "list_all (\<lambda>c. \<not> names_handle c) ds" "d_db (dbs v self) = None"
    using closed_method [OF closed, of L U m] call.hyps(2) by auto
  with call show ?case by (auto simp: list_all_iff)
next
  case (close lg w r v cs)
  then have "v = w" by (auto simp: database_close_def close_or_discard_db_def bindM_def)
  with close show ?case by simp
next
  case (discard lg w r v cs)
  then obtain u where "v = upd_db self (\<lambda>d. d\<lparr>d_db := None, d_flags := d_flags d OR SQLITE3_RB_DATABASE_DISCARDED\<rparr>) u"
    "releasing None w u"
    using discard_run [of L self w] by (auto simp: database_discard_def)
  with discard show ?case
    using release_none by (fastforce simp: releasing_def list_all_iff)
next
  case (finalize lg w r' v cs)
  then have "v = w" by (auto simp: database_deallocate_def close_or_discard_db_def bindM_def)
  with finalize show ?case by simp
qed simp_all

text \<open>C16: a connection is not used after it was closed or discarded. Once \<open>close\<close> or \<open>discard\<close> has
  run, with whatever outcome, then over any history of the object's methods, further closes and
  discards, forks and the finalizer, no call on any connection is made for it, and it stays
  closed.\<close>

theorem no_use_after_close:
  assumes "names_bounded L"
    and "database_close L self w1 = (r, w0) \<or> database_discard L self w1 = (r, w0)"
    and "lifecycle L U self w0 lg w"
  shows "(\<forall>p h op. (p, DbCall (Some h) op) \<notin> set lg) \<and> database_closed_p self w = (Inr RTrue, w)"
proof -
  have "d_db (dbs w0 self) = None"
    using assms(2) close_closes [OF assms(1), of self w1] discard_run [OF assms(1), of self w1]
    by (auto simp: database_close_def database_discard_def bindM_def split: prod.splits sum.splits)
  from lifecycle_closed [OF assms(3,1) this] show ?thesis
    by (auto simp: list_all_iff names_handle_def database_closed_p_def rb_bool_def)
qed

theorem no_use_after_close_witness:
  "let L = sample_lib\<lparr>l_text := \<lambda>c e. (None, e)\<rparr>;
       w0 = snd (database_close L 0 (upd_db 0 (\<lambda>d. d\<lparr>d_db := Some 7, d_owner := 1\<rparr>) sample_world));
       w = snd (call_method L sample_user 0 M_interrupt (w0\<lparr>pid := 2\<rparr>))
   in database_closed_p 0 w = (Inr RTrue, w)"
proof -
  define L where "L = sample_lib\<lparr>l_text := \<lambda>c e. (None, e)\<rparr>"
  define w1 where "w1 = upd_db 0 (\<lambda>d. d\<lparr>d_db := Some 7, d_owner := 1\<rparr>) sample_world"
  obtain r0 w0 where w0: "database_close L 0 w1 = (r0, w0)" by fastforce
  then have closed: "d_db (dbs w0 0) = None"
    by (auto simp: database_close_def close_or_discard_db_def w1_def sample_world_def sqlite_call_returns bindM_def)
  obtain r v where v: "call_method L sample_user 0 M_interrupt (w0\<lparr>pid := 2\<rparr>) = (r, v)"
    by fastforce
  then have cs: "calls v = calls (w0\<lparr>pid := 2\<rparr>) @ []"
    using closed by (auto simp: interrupt_def open_db.guarded_closed)
  have "lifecycle L sample_user 0 w0 ([] @ map (Pair 2) []) v"
    using lifecycle.call [OF lifecycle.fork [OF lifecycle.start] v cs] by simp
  moreover have "names_bounded L" by (simp add: names_bounded_def L_def)
  ultimately have "database_closed_p 0 v = (Inr RTrue, v)"
    using no_use_after_close w0 by blast
  with v w0 show ?thesis by (simp add: Let_def L_def [symmetric] w1_def [symmetric])
qed

section \<open>Who owns a connection\<close>

text \<open>The owner is the process that allocated the object, not the one that opened the
  connection: an object that was allocated before a fork and is opened, writable, in the child is
  discarded by the child's own close; its connection is never closed.\<close>

lemma opened_after_fork_is_discarded:
  assumes "names_bounded L" and "d_owner (dbs w self) \<noteq> pid w"
    and "rb_sqlite3_open_v2 L self file mode zvfs w = (Inr self, v)"
    and "d_db (dbs v self) = Some h" and "d_flags (dbs v self) AND SQLITE3_RB_DATABASE_READONLY = 0"
  shows "\<exists>w' cs. database_close L self v = (Inr self, w') \<and> calls w' = calls v @ cs \<and>
    list_all (release_call (Some h)) cs"
proof -
  define I where "I u \<longleftrightarrow> d_owner (dbs u self) = d_owner (dbs w self) \<and> pid u = pid w" for u :: "('a, 'b) world"
  have "keeps I (rb_sqlite3_open_v2 L self file mode zvfs)"
    unfolding rb_sqlite3_open_v2_def require_closed_db_def check_opened_def
    by (intro keeps_ret keeps_bindM keeps_if keeps_case_prod keeps_getM keeps_require keeps_liftE
        keeps_sqlite_call keeps_rb_sqlite3_raise_msg keeps_modM; simp add: I_def allows_def upd_db_def)
  from keepsE [OF this _ assms(3)] have "d_owner (dbs v self) \<noteq> pid v"
    using assms(2) by (simp add: I_def)
  with assms(4,5) have "close_or_discard_db L self v = discard_db L self v"
    by (simp add: close_or_discard_db_def bindM_def)
  moreover obtain u where "discard_db L self v = (Inr (), upd_db self (\<lambda>d. d\<lparr>d_db := None,
      d_flags := d_flags d OR SQLITE3_RB_DATABASE_DISCARDED\<rparr>) u)" "releasing (Some h) v u"
    using discard_run [OF assms(1), of self v] assms(4) by auto
  ultimately show ?thesis
    by (auto simp: database_close_def releasing_def upd_db_def)
qed

end
