(* ===== verification/Opening.thy ===== *)
theory Opening
  imports Fork_Safety
begin

unbundle bit_operations_syntax

text \<open>
  \<open>Database.new\<close> (\<open>lib/sqlite3/database.rb\<close>): the Ruby method \<open>initialize\<close>, which opens the connection
  through the C methods, sets up the instance variables that these use, loads extensions and
  has the object tracked for forks; and what the object promises from then on.
\<close>

section \<open>Begin, ensure, end\<close>

text \<open>The clean-up runs when \<open>m\<close> has returned or raised; an exception of its own replaces the outcome.\<close>

definition ensureM :: "('e, 'u, 'a) rb \<Rightarrow> ('e, 'u, unit) rb \<Rightarrow> ('e, 'u, 'a) rb" where
  "ensureM m c w =
     (case m w of
        (Inl (Undefined z), v) \<Rightarrow> (Inl (Undefined z), v)
      | (r, v) \<Rightarrow> (case c v of (Inl x, u) \<Rightarrow> (Inl x, u) | (Inr z, u) \<Rightarrow> (r, u)))"

lemma keeps_ensureM [keeps_intros]: "keeps I m \<Longrightarrow> keeps I c \<Longrightarrow> keeps I (ensureM m c)"
  unfolding keeps_def ensureM_def
  by (auto split: prod.splits sum.splits abort.splits)

section \<open>Options\<close>

text \<open>
  The options are a Hash with symbols as keys; one that is not given reads as \<open>nil\<close>. The flags are
  the constants that \<open>init_sqlite3_constants\<close> registers.
\<close>

definition option_value :: "(rb_value \<times> rb_value) list \<Rightarrow> string \<Rightarrow> rb_value" where
  "option_value options key = (case map_of options (RSymbol key) of None \<Rightarrow> RNil | Some v \<Rightarrow> v)"

definition OPEN_READONLY :: int where "OPEN_READONLY = 1"
definition OPEN_READWRITE :: int where "OPEN_READWRITE = 2"
definition OPEN_CREATE :: int where "OPEN_CREATE = 4"

definition open_mode :: "(rb_value \<times> rb_value) list \<Rightarrow> abort + rb_value" where
  "open_mode options =
     (let readonly = RTEST (option_value options ''readonly'');
          readwrite = RTEST (option_value options ''readwrite'');
          flags = option_value options ''flags'';
          mode = (if readonly then OPEN_READONLY else OPEN_READWRITE OR OPEN_CREATE);
          mode' = (if readwrite then OPEN_READWRITE else mode)
      in if readwrite \<and> readonly
         then Inl (Raised (rb_error RuntimeError ''conflicting options: readonly and readwrite''))
         else if RTEST flags
         then if readonly \<or> readwrite
              then Inl (Raised (rb_error RuntimeError ''conflicting options: flags with readonly and/or readwrite''))
              else Inr flags
         else Inr (RInteger mode'))"

text \<open>\<open>mode & Constants::Open::READONLY != 0\<close>.\<close>

definition mode_readonly :: "rb_value \<Rightarrow> abort + bool" where
  "mode_readonly mode =
     (case mode of
        RInteger n \<Rightarrow> Inr (n AND OPEN_READONLY \<noteq> 0)
      | _ \<Rightarrow> Inl (Raised (rb_error NoMethodError ''undefined method '&' '')))"

section \<open>The name of the file\<close>

text \<open>
  Strings and symbols have an encoding; only strings can be encoded. (Other objects of the user
  that define these methods are not modelled.)
\<close>

definition file_path :: "'u rb_user \<Rightarrow> rb_value \<Rightarrow> ('e, 'u, rb_value) rb" where
  "file_path U path =
     (if u_respond_to U path ''to_path'' then rb_funcall U path ''to_path'' [] else ret path)"

definition utf16_name :: "rb_value \<Rightarrow> abort + bool" where
  "utf16_name name =
     (case name of
        RString b enc s f \<Rightarrow> Inr (enc = UTF_16LE \<or> enc = UTF_16BE)
      | RSymbol s \<Rightarrow> Inr False
      | _ \<Rightarrow> Inl (Raised (rb_error NoMethodError ''undefined method 'encoding' '')))"

definition encode_name :: "'u rb_user \<Rightarrow> rb_value \<Rightarrow> abort + rb_value" where
  "encode_name U name =
     (case name of
        RString b enc s f \<Rightarrow> map_sum id (\<lambda>t. RString False UTF_8 t False) (rb_str_encode_utf8 U enc s)
      | _ \<Rightarrow> Inl (Raised (rb_error NoMethodError ''undefined method 'encode' '')))"

section \<open>Extensions\<close>

definition extension_path :: "'u rb_user \<Rightarrow> rb_value \<Rightarrow> ('e, 'u, rb_value) rb" where
  "extension_path U extension_specifier =
     (if u_respond_to U extension_specifier ''to_path''
      then rb_funcall U extension_specifier ''to_path'' []
      else case extension_specifier of
          RString b enc s f \<Rightarrow> ret extension_specifier
        | _ \<Rightarrow> fail (Raised (rb_error TypeError
            ''extension_specifier is not a String or a valid extension specifier object'')))"

definition load_extension :: "'e sqlite_lib \<Rightarrow> 'u rb_user \<Rightarrow> nat \<Rightarrow> rb_value \<Rightarrow> ('e, 'u, nat) rb" where
  "load_extension L U self extension_specifier =
     bindM (extension_path U extension_specifier) (\<lambda>path. load_extension_internal L U self path)"

definition initialize_extensions :: "'e sqlite_lib \<Rightarrow> 'u rb_user \<Rightarrow> nat \<Rightarrow> rb_value \<Rightarrow> ('e, 'u, unit) rb" where
  "initialize_extensions L U self extensions =
     (case extensions of
        RNil \<Rightarrow> ret ()
      | RArray [] \<Rightarrow> ret ()
      | RArray es \<Rightarrow>
          ensureM
            (bindM (enable_load_extension L self RTrue) (\<lambda>_.
             iterM (\<lambda>e. ignore (load_extension L U self e)) es))
            (ignore (enable_load_extension L self RFalse))
      | _ \<Rightarrow> fail (Raised (rb_error TypeError ''extensions must be an Array'')))"

section \<open>Database.new\<close>

text \<open>The instance variables that only the Ruby code reads.\<close>

record database_ivars =
  at_readonly :: bool
  at_default_transaction_mode :: rb_value

definition open_connection ::
  "'e sqlite_lib \<Rightarrow> 'u rb_user \<Rightarrow> nat \<Rightarrow> rb_value \<Rightarrow> (rb_value \<times> rb_value) list \<Rightarrow> rb_value \<Rightarrow> ('e, 'u, rb_value) rb" where
  "open_connection L U self path options zvfs =
     bindM (file_path U path) (\<lambda>name.
     bindM (liftE (utf16_name name)) (\<lambda>utf16.
     if utf16 \<or> RTEST (option_value options ''utf16'')
     then bindM (rb_sqlite3_open16 L self name) (\<lambda>_. ret (RInteger (OPEN_READWRITE OR OPEN_CREATE)))
     else
       bindM (liftE (open_mode options)) (\<lambda>mode.
       bindM (liftE (encode_name U name)) (\<lambda>file.
       bindM (rb_sqlite3_open_v2 L self file mode zvfs) (\<lambda>_.
       bindM (if RTEST (option_value options ''strict'') then ignore (rb_sqlite3_disable_quirk_mode L self)
              else ret ()) (\<lambda>_.
       ret mode))))))"

text \<open>\<open>@collations = {}\<close>, \<open>@functions = []\<close> and \<open>@results_as_hash\<close>.\<close>

definition init_ivars :: "nat \<Rightarrow> rb_value \<Rightarrow> ('e, 'u, unit) rb" where
  "init_ivars self results_as_hash =
     bindM fresh_ref (\<lambda>collations.
     bindM (modM (upd_hash collations (\<lambda>_. []))) (\<lambda>_.
     bindM (modM (upd_ivars self (\<lambda>i. i\<lparr>iv_collations := Some collations\<rparr>))) (\<lambda>_.
     bindM rb_ary_new (\<lambda>functions.
     bindM (modM (upd_ivars self (\<lambda>i. i\<lparr>iv_functions := Some functions\<rparr>))) (\<lambda>_.
     modM (upd_ivars self (\<lambda>i. i\<lparr>iv_results_as_hash := results_as_hash\<rparr>)))))))"

definition database_initialize ::
  "'e sqlite_lib \<Rightarrow> 'u rb_user \<Rightarrow> nat \<Rightarrow> rb_value \<Rightarrow> (rb_value \<times> rb_value) list \<Rightarrow> rb_value \<Rightarrow>
     ('e, 'u, database_ivars) rb" where
  "database_initialize L U self path options zvfs =
     bindM (open_connection L U self path options zvfs) (\<lambda>mode.
     bindM (init_ivars self (option_value options ''results_as_hash'')) (\<lambda>_.
     bindM (liftE (mode_readonly mode)) (\<lambda>readonly.
     bindM (initialize_extensions L U self (option_value options ''extensions'')) (\<lambda>_.
     ret \<lparr>at_readonly = readonly,
          at_default_transaction_mode =
            (let m = option_value options ''default_transaction_mode''
             in if RTEST m then m else RSymbol ''deferred'')\<rparr>))))"

text \<open>
  \<open>Database.new\<close> without a block: a new object has no instance variables. The result has the list of
  tracked Databases with this one at its end.
\<close>

definition no_ivars :: db_ivars where
  "no_ivars = \<lparr>iv_functions = None, iv_collations = None, iv_aggregators = None, iv_results_as_hash = RNil\<rparr>"

definition database_new ::
  "'e sqlite_lib \<Rightarrow> 'u rb_user \<Rightarrow> nat list \<Rightarrow> rb_value \<Rightarrow> (rb_value \<times> rb_value) list \<Rightarrow> rb_value \<Rightarrow>
     ('e, 'u, nat \<times> database_ivars \<times> nat list) rb" where
  "database_new L U databases path options zvfs =
     bindM database_allocate (\<lambda>self.
     bindM (modM (upd_ivars self (\<lambda>_. no_ivars))) (\<lambda>_.
     bindM (database_initialize L U self path options zvfs) (\<lambda>ivs.
     ret (self, ivs, databases @ [self]))))"

text \<open>The state right after the allocation.\<close>

definition allocated :: "('e, 'u) world \<Rightarrow> ('e, 'u) world" where
  "allocated w = upd_ivars (next_ref w) (\<lambda>_. no_ivars)
     (upd_db (next_ref w) (\<lambda>_. zero_sqlite3Ruby\<lparr>d_owner := pid w\<rparr>) (w\<lparr>next_ref := Suc (next_ref w)\<rparr>))"

lemma database_new_run:
  "database_new L U databases path options zvfs w =
     bindM (database_initialize L U (next_ref w) path options zvfs) (\<lambda>ivs.
     ret (next_ref w, ivs, databases @ [next_ref w])) (allocated w)"
  by (simp add: database_new_def database_allocate_def fresh_ref_def bindM_def [of fresh_ref] bindM_assoc allocated_def)

section \<open>What opening changes\<close>

text \<open>Opening calls the library and writes the handle and the flags of the object.\<close>

locale opening_base =
  fixes I :: "('e, 'u) world \<Rightarrow> bool" and s :: nat
  assumes user: "I w \<Longrightarrow> I (w\<lparr>usr := u\<rparr>)"
    and any_call: "I w \<Longrightarrow> I (w\<lparr>env := e, calls := calls w @ [c]\<rparr>)"
    and open_field: "(\<And>d. d_owner (k d) = d_owner d \<and> d_functions (k d) = d_functions d \<and>
          d_aggregators (k d) = d_aggregators d) \<Longrightarrow> I w \<Longrightarrow> I (upd_db s k w)"
begin

lemma allows_opening: "allows I c"
  by (simp add: allows_def any_call)

lemma keeps_open_fields:
  "keeps I (modM (upd_db s (\<lambda>d. d\<lparr>d_db := z\<rparr>)))" "keeps I (modM (upd_db s (\<lambda>d. d\<lparr>d_flags := f d\<rparr>)))"
  by (intro keeps_modM open_field; simp)+

lemma keeps_opens:
  "keeps I (rb_sqlite3_open_v2 L s name mode zvfs)" "keeps I (rb_sqlite3_open16 L s name)"
  "keeps I (rb_sqlite3_disable_quirk_mode L s)"
  unfolding rb_sqlite3_open_v2_def rb_sqlite3_open16_def require_closed_db_def check_opened_def
    rb_sqlite3_disable_quirk_mode_def
  by (intro keeps_ret keeps_bindM keeps_if keeps_case_prod keeps_getM keeps_require keeps_liftE
      keeps_sqlite_call keeps_rb_sqlite3_raise_msg allows_opening keeps_open_fields)+

lemma keeps_open_connection: "keeps I (open_connection L U s path options zvfs)"
  unfolding open_connection_def file_path_def
  by (intro keeps_ret keeps_bindM keeps_if keeps_liftE keeps_opens keeps_rb_funcall user)

end

end
