(* ===== verification/Statement.thy ===== *)
theory Statement
  imports Handles
begin

unbundle bit_operations_syntax

text \<open>
  \<open>ext/sqlite3/statement.c\<close>: the methods of \<open>SQLite3::Statement\<close>. A Statement object is the
  reference of its struct, which points to the struct of its Database. The properties are in
  \<open>Statement_Laws\<close>, \<open>Stepping\<close> and \<open>Binding\<close>.

  Results that are frozen arrays are written as arrays, without a mark for frozen.
\<close>

section \<open>Life cycle\<close>

definition statement_allocate :: "('e, 'u, nat) rb" where
  "statement_allocate =
     bindM fresh_ref (\<lambda>object.
     bindM (modM (upd_stmt object (\<lambda>_. zero_sqlite3StmtRuby))) (\<lambda>_.
     ret object))"

definition statement_deallocate :: "'e sqlite_lib \<Rightarrow> 'u rb_user \<Rightarrow> nat \<Rightarrow> ('e, 'u, unit) rb" where
  "statement_deallocate L U self =
     bindM (getM (\<lambda>w. s_st (stmts w self))) (\<lambda>st.
     if st \<noteq> None then bindM (sqlite_run (callback_handler L U) (l_run L) (StmtCall st Finalize)) (\<lambda>_. ret ())
     else ret ())"

text \<open>\<open>REQUIRE_LIVE_DB\<close>, which follows the pointer to the database's struct.\<close>

definition require_live_db :: "nat \<Rightarrow> ('e, 'u, unit) rb" where
  "require_live_db self =
     bindM (getM (\<lambda>w. s_db (stmts w self))) (\<lambda>db.
     case db of
       None \<Rightarrow> fail (Undefined NullDereference)
     | Some d \<Rightarrow>
         bindM (getM (\<lambda>w. d_flags (dbs w d))) (\<lambda>flags.
         require (flags AND SQLITE3_RB_DATABASE_DISCARDED = 0)
           (Raised (rb_error SQLite3_Exception
             ''cannot use a statement associated with a discarded database''))))"

text \<open>The two guards that most methods start with.\<close>

definition require_usable :: "nat \<Rightarrow> ('e, 'u, sth option) rb" where
  "require_usable self = bindM (require_live_db self) (\<lambda>_. require_open_stmt self)"

definition prepare ::
  "'e sqlite_lib \<Rightarrow> 'u rb_user \<Rightarrow> nat \<Rightarrow> nat \<Rightarrow> rb_value \<Rightarrow> ('e, 'u, rb_value) rb" where
  "prepare L U self db sql =
     bindM (liftE (StringValue sql)) (\<lambda>q.
     bindM (modM (upd_stmt self (\<lambda>s. s\<lparr>s_db := Some db\<rparr>))) (\<lambda>_.
     bindM (getM (\<lambda>w. d_db (dbs w db))) (\<lambda>handle.
     bindM (sqlite_run (callback_handler L U) (l_prepare L)
              (DbCall handle (Prepare_v2 q (word_of_nat (length q))))) (\<lambda>(status, st, tail).
     bindM (modM (upd_stmt self (\<lambda>s. s\<lparr>s_st := st\<rparr>))) (\<lambda>_.
     bindM (rb_sqlite3_raise_with_sql L handle status (Some q)) (\<lambda>_.
     bindM (modM (upd_db db (\<lambda>d. d\<lparr>d_stmt_deadline := timespecclear\<rparr>))) (\<lambda>_.
     ret (rb_utf8_str_new_cstr tail))))))))"

definition statement_close :: "'e sqlite_lib \<Rightarrow> 'u rb_user \<Rightarrow> nat \<Rightarrow> ('e, 'u, nat) rb" where
  "statement_close L U self =
     bindM (require_open_stmt self) (\<lambda>st.
     bindM (sqlite_run (callback_handler L U) (l_run L) (StmtCall st Finalize)) (\<lambda>_.
     bindM (modM (upd_stmt self (\<lambda>s. s\<lparr>s_st := None\<rparr>))) (\<lambda>_.
     ret self)))"

definition statement_closed_p :: "nat \<Rightarrow> ('e, 'u, rb_value) rb" where
  "statement_closed_p self =
     bindM (getM (\<lambda>w. s_st (stmts w self))) (\<lambda>st. ret (rb_bool (st = None)))"

section \<open>Stepping\<close>

text \<open>The value of one column of the current row, from its type and its accessors.\<close>

definition column_value :: "'u rb_user \<Rightarrow> sqlite3_value \<Rightarrow> abort + rb_value" where
  "column_value U v =
     (if v_type v = SQLITE_INTEGER then Inr (LL2NUM (v_int64 v))
      else if v_type v = SQLITE_FLOAT then Inr (RFloat (v_double v))
      else if v_type v = SQLITE_TEXT
      then Inr (rb_obj_freeze (export_internal U (rb_utf8_str_new (v_text v))))
      else if v_type v = SQLITE_BLOB then Inr (rb_obj_freeze (rb_str_new (v_blob v)))
      else if v_type v = SQLITE_NULL then Inr RNil
      else Inl (Raised (rb_error RuntimeError ''bad type'')))"

text \<open>After \<open>sqlite3_step\<close>: raise the exception that a callback has left pending.\<close>

definition reraise_pending :: "('e, 'u, unit) rb" where
  "reraise_pending =
     bindM (getM errinfo) (\<lambda>pending.
     case pending of
       None \<Rightarrow> ret ()
     | Some x \<Rightarrow> bindM (modM (\<lambda>w. w\<lparr>errinfo := None\<rparr>)) (\<lambda>_. fail (Raised x)))"

definition step :: "'e sqlite_lib \<Rightarrow> 'u rb_user \<Rightarrow> nat \<Rightarrow> ('e, 'u, rb_value) rb" where
  "step L U self =
     bindM (require_usable self) (\<lambda>st.
     bindM (getM (\<lambda>w. s_done_p (stmts w self))) (\<lambda>done_p.
     if done_p \<noteq> 0 then ret RNil
     else
       bindM (sqlite_run (callback_handler L U) (l_run L) (StmtCall st Step)) (\<lambda>value.
       bindM reraise_pending (\<lambda>_.
       bindM (sqlite_call (l_int L) (StmtCall st Column_count)) (\<lambda>n.
       if value = SQLITE_ROW
       then bindM (mapM (\<lambda>i. bindM (sqlite_call (l_column L) (StmtCall st (Column i)))
                     (\<lambda>v. liftE (column_value U v))) [0..<nat (sint n)]) (\<lambda>list.
            ret (RArray list))
       else if value = SQLITE_DONE
       then bindM (modM (upd_stmt self (\<lambda>s. s\<lparr>s_done_p := 1\<rparr>))) (\<lambda>_. ret RNil)
       else
         bindM (sqlite_run (callback_handler L U) (l_run L) (StmtCall st Reset)) (\<lambda>_.
         bindM (modM (upd_stmt self (\<lambda>s. s\<lparr>s_done_p := 0\<rparr>))) (\<lambda>_.
         bindM (sqlite_call (l_handle L) (StmtCall st Db_handle)) (\<lambda>db.
         bindM (rb_sqlite3_raise L db value) (\<lambda>_.
         ret (RArray []))))))))))"

section \<open>Binding\<close>

text \<open>
  The key of a parameter: a name gets the prefix \<open>:\<close> unless it starts with one; Ruby refuses to
  prepend it to a non-empty string in an encoding that is not ASCII-compatible. Any other
  object is an index.
\<close>

definition parameter_name :: "rb_encoding \<Rightarrow> string \<Rightarrow> abort + string" where
  "parameter_name enc s =
     (case s of
        c # _ \<Rightarrow> if c = CHR '':'' then Inr s
                else if ascii_compat enc then Inr (CHR '':'' # s)
                else Inl (Raised (rb_error CompatibilityError ''incompatible character encodings''))
      | [] \<Rightarrow> Inr '':'')"

definition parameter_index :: "'e sqlite_lib \<Rightarrow> sth option \<Rightarrow> rb_value \<Rightarrow> ('e, 'u, cint) rb" where
  "parameter_index L st key =
     (let by_name = (\<lambda>enc s. bindM (liftE (parameter_name enc s)) (\<lambda>name.
        sqlite_call (l_int L) (StmtCall st (Bind_parameter_index (cstr name)))))
      in case key of
           RSymbol s \<Rightarrow> by_name UTF_8 s
         | RString b enc s f \<Rightarrow> by_name enc s
         | _ \<Rightarrow> liftE (NUM2INT key))"

text \<open>
  The call that binds a value. The condition \<open>!UTF8_P || !USASCII_P\<close> of the code always holds,
  since no string has two encodings: every other text is encoded to UTF-8.
\<close>

definition bind_call :: "'u rb_user \<Rightarrow> cint \<Rightarrow> rb_value \<Rightarrow> abort + st_op" where
  "bind_call U index value =
     (case value of
        RString blob enc s f \<Rightarrow>
          if blob \<or> enc = ASCII_8BIT then Inr (Bind_blob index s)
          else if enc = UTF_16LE \<or> enc = UTF_16BE then Inr (Bind_text16 index s)
          else map_sum id (Bind_text index) (rb_str_encode_utf8 U enc s)
      | RInteger n \<Rightarrow>
          if fixnum_p n then Inr (Bind_int64 index (FIX2LONG n))
          else (case bignum_to_int64 n of
                  Some num64 \<Rightarrow> Inr (Bind_int64 index num64)
                | None \<Rightarrow> map_sum id (Bind_double index) (NUM2DBL value))
      | RFloat x \<Rightarrow> map_sum id (Bind_double index) (NUM2DBL value)
      | RNil \<Rightarrow> Inr (Bind_null index)
      | _ \<Rightarrow> Inl (Raised (rb_error RuntimeError (''can't prepare '' @ rb_class2name value))))"

definition bind_param ::
  "'e sqlite_lib \<Rightarrow> 'u rb_user \<Rightarrow> nat \<Rightarrow> rb_value \<Rightarrow> rb_value \<Rightarrow> ('e, 'u, nat) rb" where
  "bind_param L U self key value =
     bindM (require_usable self) (\<lambda>st.
     bindM (parameter_index L st key) (\<lambda>index.
     bindM (require (index \<noteq> 0)
       (Raised (rb_error SQLite3_Exception ''no such bind parameter''))) (\<lambda>_.
     bindM (liftE (bind_call U index value)) (\<lambda>op.
     bindM (sqlite_call (l_int L) (StmtCall st op)) (\<lambda>status.
     bindM (sqlite_call (l_handle L) (StmtCall st Db_handle)) (\<lambda>db.
     bindM (rb_sqlite3_raise L db status) (\<lambda>_.
     ret self)))))))"

definition reset_bang :: "'e sqlite_lib \<Rightarrow> 'u rb_user \<Rightarrow> nat \<Rightarrow> ('e, 'u, nat) rb" where
  "reset_bang L U self =
     bindM (require_usable self) (\<lambda>st.
     bindM (sqlite_run (callback_handler L U) (l_run L) (StmtCall st Reset)) (\<lambda>_.
     bindM (modM (upd_stmt self (\<lambda>s. s\<lparr>s_done_p := 0\<rparr>))) (\<lambda>_.
     ret self)))"

definition clear_bindings_bang :: "'e sqlite_lib \<Rightarrow> nat \<Rightarrow> ('e, 'u, nat) rb" where
  "clear_bindings_bang L self =
     bindM (require_usable self) (\<lambda>st.
     bindM (sqlite_call (l_int L) (StmtCall st Clear_bindings)) (\<lambda>_.
     bindM (modM (upd_stmt self (\<lambda>s. s\<lparr>s_done_p := 0\<rparr>))) (\<lambda>_.
     ret self)))"

definition done_p :: "nat \<Rightarrow> ('e, 'u, rb_value) rb" where
  "done_p self = bindM (getM (\<lambda>w. s_done_p (stmts w self))) (\<lambda>d. ret (rb_bool (d \<noteq> 0)))"

section \<open>Metadata\<close>

text \<open>\<open>interned_utf8_cstr\<close>: a frozen, interned UTF-8 string.\<close>

definition interned_utf8_cstr :: "string \<Rightarrow> rb_value" where
  "interned_utf8_cstr s = rb_obj_freeze (rb_utf8_str_new_cstr s)"

text \<open>\<open>rb_utf8_str_new_cstr\<close> refuses NULL.\<close>

definition utf8_str_new2 :: "string option \<Rightarrow> abort + rb_value" where
  "utf8_str_new2 s =
     (case s of None \<Rightarrow> Inl (Raised (rb_error ArgumentError ''NULL pointer given''))
      | Some t \<Rightarrow> Inr (rb_utf8_str_new_cstr t))"

definition column_count :: "'e sqlite_lib \<Rightarrow> nat \<Rightarrow> ('e, 'u, rb_value) rb" where
  "column_count L self =
     bindM (require_usable self) (\<lambda>st.
     bindM (sqlite_call (l_int L) (StmtCall st Column_count)) (\<lambda>n. ret (INT2NUM n)))"

definition column_name :: "'e sqlite_lib \<Rightarrow> nat \<Rightarrow> rb_value \<Rightarrow> ('e, 'u, rb_value) rb" where
  "column_name L self index =
     bindM (require_usable self) (\<lambda>st.
     bindM (liftE (NUM2INT index)) (\<lambda>i.
     bindM (sqlite_call (l_text L) (StmtCall st (Column_name i))) (\<lambda>name.
     ret (case name of None \<Rightarrow> RNil | Some n \<Rightarrow> interned_utf8_cstr n))))"

definition column_decltype :: "'e sqlite_lib \<Rightarrow> nat \<Rightarrow> rb_value \<Rightarrow> ('e, 'u, rb_value) rb" where
  "column_decltype L self index =
     bindM (require_usable self) (\<lambda>st.
     bindM (liftE (NUM2INT index)) (\<lambda>i.
     bindM (sqlite_call (l_text L) (StmtCall st (Column_decltype i))) (\<lambda>name.
     ret (cstr_or_nil name))))"

definition bind_parameter_count :: "'e sqlite_lib \<Rightarrow> nat \<Rightarrow> ('e, 'u, rb_value) rb" where
  "bind_parameter_count L self =
     bindM (require_usable self) (\<lambda>st.
     bindM (sqlite_call (l_int L) (StmtCall st Bind_parameter_count)) (\<lambda>n. ret (INT2NUM n)))"

text \<open>
  The loop of \<open>named_params\<close> over the indices 1 to \<open>param_count\<close>. An empty name, which SQLite
  never gives, would make \<open>name + 1\<close> point past its end.
\<close>

definition named_param :: "string option \<Rightarrow> abort + rb_value list" where
  "named_param name =
     (case name of
        None \<Rightarrow> Inr []
      | Some [] \<Rightarrow> Inl (Undefined OutOfBounds)
      | Some (c # cs) \<Rightarrow> Inr (if c = CHR ''?'' then [] else [interned_utf8_cstr cs]))"

definition named_params :: "'e sqlite_lib \<Rightarrow> nat \<Rightarrow> ('e, 'u, rb_value) rb" where
  "named_params L self =
     bindM (require_usable self) (\<lambda>st.
     bindM (sqlite_call (l_int L) (StmtCall st Bind_parameter_count)) (\<lambda>param_count.
     bindM (mapM (\<lambda>i. bindM (sqlite_call (l_text L) (StmtCall st (Bind_parameter_name (word_of_nat i))))
              (\<lambda>name. liftE (named_param name))) [1..<Suc (nat (sint param_count))]) (\<lambda>params.
     ret (RArray (concat params)))))"

text \<open>The counters of \<open>sqlite3_stmt_status\<close>, with their symbols in the order of the code.\<close>

definition stmt_stat_symbols :: "(string \<times> cint) list" where
  "stmt_stat_symbols =
     [(''fullscan_steps'', 1), (''sorts'', 2), (''autoindexes'', 3), (''vm_steps'', 4),
      (''reprepares'', 5), (''runs'', 6), (''filter_misses'', 7), (''filter_hits'', 8)]"

definition SQLITE_STMTSTATUS_MEMUSED :: cint where
  "SQLITE_STMTSTATUS_MEMUSED = 99"

text \<open>\<open>SIZET2NUM\<close> of a C \<open>int\<close>, widened to the unsigned 64-bit \<open>size_t\<close>.\<close>

definition SIZET2NUM :: "cint \<Rightarrow> rb_value" where
  "SIZET2NUM n = RInteger (uint (scast n :: i64))"

text \<open>For a hash, all counters, added to it; for a symbol, its counter.\<close>

definition stmt_stat_internal ::
  "'e sqlite_lib \<Rightarrow> rb_value \<Rightarrow> sth option \<Rightarrow> ('e, 'u, rb_value) rb" where
  "stmt_stat_internal L hash_or_sym st =
     (case hash_or_sym of
        RHash kvs \<Rightarrow>
          bindM (mapM (\<lambda>(name, op). bindM (sqlite_call (l_int L) (StmtCall st (Stmt_status op)))
                   (\<lambda>n. ret (RSymbol name, SIZET2NUM n))) stmt_stat_symbols) (\<lambda>stats.
          ret (RHash (fold (\<lambda>(k, v). hash_aset k v) stats kvs)))
      | RSymbol key \<Rightarrow>
          (case map_of stmt_stat_symbols key of
             Some op \<Rightarrow> bindM (sqlite_call (l_int L) (StmtCall st (Stmt_status op))) (\<lambda>n.
               ret (SIZET2NUM n))
           | None \<Rightarrow> fail (Raised (rb_error ArgumentError (''unknown key: '' @ key))))
      | _ \<Rightarrow> fail (Raised (rb_error TypeError ''non-hash or symbol argument'')))"

definition stats_as_hash :: "'e sqlite_lib \<Rightarrow> nat \<Rightarrow> ('e, 'u, rb_value) rb" where
  "stats_as_hash L self =
     bindM (require_usable self) (\<lambda>st. stmt_stat_internal L (RHash []) st)"

definition stat_for :: "'e sqlite_lib \<Rightarrow> nat \<Rightarrow> rb_value \<Rightarrow> ('e, 'u, rb_value) rb" where
  "stat_for L self key =
     bindM (require_usable self) (\<lambda>st.
     if rb_type_of key = T_SYMBOL then stmt_stat_internal L key st
     else fail (Raised (rb_error TypeError ''non-symbol given'')))"

definition memused :: "'e sqlite_lib \<Rightarrow> nat \<Rightarrow> ('e, 'u, rb_value) rb" where
  "memused L self =
     bindM (require_usable self) (\<lambda>st.
     bindM (sqlite_call (l_int L) (StmtCall st (Stmt_status SQLITE_STMTSTATUS_MEMUSED))) (\<lambda>n.
     ret (INT2NUM n)))"

definition database_name :: "'e sqlite_lib \<Rightarrow> nat \<Rightarrow> rb_value \<Rightarrow> ('e, 'u, rb_value) rb" where
  "database_name L self index =
     bindM (require_usable self) (\<lambda>st.
     bindM (liftE (NUM2INT index)) (\<lambda>i.
     bindM (sqlite_call (l_text L) (StmtCall st (Column_database_name i))) (\<lambda>name.
     liftE (utf8_str_new2 name))))"

definition get_sql :: "'e sqlite_lib \<Rightarrow> nat \<Rightarrow> ('e, 'u, rb_value) rb" where
  "get_sql L self =
     bindM (require_usable self) (\<lambda>st.
     bindM (sqlite_call (l_text L) (StmtCall st Sql)) (\<lambda>q.
     liftE (map_sum id rb_obj_freeze (utf8_str_new2 q))))"

definition get_expanded_sql :: "'e sqlite_lib \<Rightarrow> nat \<Rightarrow> ('e, 'u, rb_value) rb" where
  "get_expanded_sql L self =
     bindM (require_usable self) (\<lambda>st.
     bindM (sqlite_call (l_text L) (StmtCall st Expanded_sql)) (\<lambda>q.
     liftE (map_sum id rb_obj_freeze (utf8_str_new2 q))))"

end
