(* ===== verification/Statement_Laws.thy ===== *)
theory Statement_Laws
  imports Statement Database_Laws
begin

unbundle bit_operations_syntax

text \<open>
  Properties of the guards of \<open>SQLite3::Statement\<close>: what a statement of a discarded database, a
  closed one and an unprepared one do, and which calls reach the library.
\<close>

section \<open>The guards\<close>

abbreviation discarded_error :: abort where
  "discarded_error \<equiv> Raised (rb_error SQLite3_Exception
     ''cannot use a statement associated with a discarded database'')"

abbreviation closed_statement_error :: abort where
  "closed_statement_error \<equiv> Raised (rb_error SQLite3_Exception ''cannot use a closed statement'')"

lemma require_usable_run:
  "require_usable s w =
     (case s_db (stmts w s) of
        None \<Rightarrow> (Inl (Undefined NullDereference), w)
      | Some d \<Rightarrow>
          if d_flags (dbs w d) AND SQLITE3_RB_DATABASE_DISCARDED \<noteq> 0 then (Inl discarded_error, w)
          else (case s_st (stmts w s) of
                  None \<Rightarrow> (Inl closed_statement_error, w)
                | Some h \<Rightarrow> (Inr (Some h), w)))"
  by (auto simp: require_usable_def require_live_db_def require_open_stmt_def bindM_def require_run
      split: option.splits)

lemma usable_open:
  assumes "s_db (stmts w s) = Some d" and "d_flags (dbs w d) AND SQLITE3_RB_DATABASE_DISCARDED = 0"
    and "s_st (stmts w s) = Some h"
  shows "require_usable s w = (Inr (Some h), w)"
  using assms by (simp add: require_usable_run)

text \<open>All methods that start with the two guards, as actions whose value is dropped.\<close>

definition guarded_methods :: "'e sqlite_lib \<Rightarrow> 'u rb_user \<Rightarrow> nat \<Rightarrow> rb_value \<Rightarrow> rb_value \<Rightarrow> ('e, 'u, unit) rb list" where
  "guarded_methods L U s a b =
     [bindM (step L U s) (\<lambda>_. ret ()), bindM (bind_param L U s a b) (\<lambda>_. ret ()),
      bindM (reset_bang L U s) (\<lambda>_. ret ()), bindM (clear_bindings_bang L s) (\<lambda>_. ret ()),
      bindM (column_count L s) (\<lambda>_. ret ()), bindM (column_name L s a) (\<lambda>_. ret ()),
      bindM (column_decltype L s a) (\<lambda>_. ret ()), bindM (bind_parameter_count L s) (\<lambda>_. ret ()),
      bindM (named_params L s) (\<lambda>_. ret ()), bindM (stats_as_hash L s) (\<lambda>_. ret ()),
      bindM (stat_for L s a) (\<lambda>_. ret ()), bindM (memused L s) (\<lambda>_. ret ()),
      bindM (database_name L s a) (\<lambda>_. ret ()), bindM (get_sql L s) (\<lambda>_. ret ()),
      bindM (get_expanded_sql L s) (\<lambda>_. ret ())]"

lemmas guarded_defs = step_def bind_param_def reset_bang_def clear_bindings_bang_def
  column_count_def column_name_def column_decltype_def bind_parameter_count_def named_params_def
  stats_as_hash_def stat_for_def memused_def database_name_def get_sql_def get_expanded_sql_def

lemma guarded_abort:
  assumes "require_usable s w = (Inl x, w)" and "m \<in> set (guarded_methods L U s a b)"
  shows "m w = (Inl x, w)"
  using assms by (auto simp: guarded_methods_def guarded_defs)

section \<open>What the methods of an open statement leave alone\<close>

text \<open>
  The guarded methods call the library on the statement's own handle and never finalize it; they
  change the statement's \<open>done_p\<close> and the pending exception; the callbacks do the rest. An
  invariant of a world in which the statement holds \<open>h\<close> that these steps keep is kept by every
  guarded method.
\<close>

locale statement_base =
  fixes I :: "('e, 'u) world \<Rightarrow> bool" and s :: nat and h :: sth and L :: "'e sqlite_lib" and U :: "'u rb_user"
  assumes handle: "I w \<Longrightarrow> s_st (stmts w s) = Some h"
    and stmt_call: "op \<noteq> Finalize \<Longrightarrow> I w \<Longrightarrow> I (w\<lparr>env := e, calls := calls w @ [StmtCall (Some h) op]\<rparr>)"
    and errmsg_call: "I w \<Longrightarrow> I (w\<lparr>env := e, calls := calls w @ [DbCall z Errmsg]\<rparr>)"
    and done_field: "I w \<Longrightarrow> I (upd_stmt s (\<lambda>x. x\<lparr>s_done_p := d\<rparr>) w)"
    and cleared: "I w \<Longrightarrow> I (w\<lparr>errinfo := None\<rparr>)"
    and stmt_run: "op \<noteq> Finalize \<Longrightarrow> keeps I (sqlite_run (callback_handler L U) (l_run L) (StmtCall (Some h) op))"
begin

lemma usable_handle: "keeps I (f (Some h)) \<Longrightarrow> keeps I (bindM (require_usable s) f)"
  by (rule keepsI) (auto simp: bindM_def require_usable_run handle keepsD split: option.splits)

lemma stmt_steps:
  "op \<noteq> Finalize \<Longrightarrow> keeps I (sqlite_call a (StmtCall (Some h) op))"
  "keeps I (rb_sqlite3_raise L db status)" "keeps I (modM (upd_stmt s (\<lambda>x. x\<lparr>s_done_p := d\<rparr>)))"
  "keeps I reraise_pending"
proof -
  show call: "op \<noteq> Finalize \<Longrightarrow> keeps I (sqlite_call a (StmtCall (Some h) op))" for op
    and a :: "sql_call \<Rightarrow> 'e \<Rightarrow> 'r \<times> 'e"
    by (rule keeps_sqlite_call) (simp add: allows_def stmt_call)
  show "keeps I (rb_sqlite3_raise L db status)"
    by (rule keeps_rb_sqlite3_raise) (simp add: allows_def errmsg_call)
  show "keeps I (modM (upd_stmt s (\<lambda>x. x\<lparr>s_done_p := d\<rparr>)))"
    by (intro keeps_modM done_field)
  show "keeps I reraise_pending"
    unfolding reraise_pending_def by (intro keeps_intros) (rule cleared)
qed

lemma keeps_parameter_index: "keeps I (parameter_index L (Some h) key)"
  by (cases key) (auto simp: parameter_index_def Let_def intro!: keeps_bindM keeps_liftE stmt_steps)

lemma keeps_stat: "keeps I (stmt_stat_internal L a (Some h))"
  by (cases a) (auto simp: stmt_stat_internal_def
      intro!: keeps_bindM keeps_mapM keeps_ret keeps_case_prod keeps_fail stmt_steps split: option.splits)

lemma bind_call_op: "bind_call U index v = Inr op \<Longrightarrow> op \<noteq> Finalize"
  by (cases v) (auto simp: bind_call_def map_sum_def split: if_splits sum.splits option.splits)

lemma keeps_bind: "keeps I (bindM (liftE (bind_call U index v)) (\<lambda>op.
    bindM (sqlite_call (l_int L) (StmtCall (Some h) op)) f))" if "\<And>x. keeps I (f x)"
proof (cases "bind_call U index v")
  case (Inr op)
  then have "keeps I (bindM (sqlite_call (l_int L) (StmtCall (Some h) op)) f)"
    using that bind_call_op by (intro keeps_bindM stmt_steps)
  then show ?thesis by (simp add: Inr keeps_def)
qed (simp add: keeps_def)

lemmas stmt_intros = keeps_ret keeps_fail keeps_liftE keeps_getM keeps_require keeps_if keeps_mapM
  keeps_bind keeps_bindM stmt_run stmt_steps keeps_parameter_index keeps_stat

lemma keeps_guarded: "m \<in> set (guarded_methods L U s a b) \<Longrightarrow> keeps I m"
proof -
  have "list_all (keeps I) (guarded_methods L U s a b)"
    unfolding guarded_methods_def list.pred_inject guarded_defs
    by (intro conjI list.pred_inject(1);
      rule keeps_bindM [OF usable_handle keeps_ret]; intro stmt_intros st_op.simps)
  then show "m \<in> set (guarded_methods L U s a b) \<Longrightarrow> keeps I m"
    by (simp add: list_all_iff)
qed

end

locale statement_frame = callback_frame I for I :: "('e, 'u) world \<Rightarrow> bool" +
  fixes s :: nat and h :: sth
  assumes handle: "I w \<Longrightarrow> s_st (stmts w s) = Some h"
    and stmt_call: "op \<noteq> Finalize \<Longrightarrow> I w \<Longrightarrow> I (w\<lparr>env := e, calls := calls w @ [StmtCall (Some h) op]\<rparr>)"
    and errmsg_call: "I w \<Longrightarrow> I (w\<lparr>env := e, calls := calls w @ [DbCall z Errmsg]\<rparr>)"
    and done_field: "I w \<Longrightarrow> I (upd_stmt s (\<lambda>x. x\<lparr>s_done_p := d\<rparr>) w)"
    and cleared: "I w \<Longrightarrow> I (w\<lparr>errinfo := None\<rparr>)"
begin

sublocale base: statement_base I s h L U for L U
proof unfold_locales
  show "op \<noteq> Finalize \<Longrightarrow> keeps I (sqlite_run (callback_handler L U) (l_run L) (StmtCall (Some h) op))" for op
    by (rule sqlite_run_keeps) (simp_all add: stmt_call)
qed (fact handle stmt_call errmsg_call done_field cleared)+

end

section \<open>No call on a NULL handle\<close>

interpretation nn_stmt: statement_frame "\<lambda>w. no_null w \<and> s_st (stmts w s) = Some h" s h for s h
  by unfold_locales (auto simp: no_null_def upd_defs)

text \<open>A guarded method either runs on the handle of its statement or does nothing.\<close>

lemma guarded_cases:
  assumes "m \<in> set (guarded_methods L U s a b)"
  obtains h where "s_st (stmts w s) = Some h" | x where "m w = (Inl x, w)"
proof (cases "s_st (stmts w s)")
  case None
  then have "\<exists>x. require_usable s w = (Inl x, w)"
    by (cases "s_db (stmts w s)") (auto simp: require_usable_run)
  then obtain x where "require_usable s w = (Inl x, w)" ..
  from guarded_abort [OF this assms] that(2) show thesis by blast
qed (rule that(1))

lemma no_null_guarded:
  fixes m :: "('e, 'u, unit) rb"
  assumes "m \<in> set (guarded_methods L U s a b)"
  shows "keeps no_null m"
proof (rule keepsI)
  fix w :: "('e, 'u) world" assume "no_null w"
  then show "no_null (snd (m w))"
    using guarded_cases [OF assms, of w] keepsD [OF nn_stmt.base.keeps_guarded [OF assms], of w] by fastforce
qed

lemma no_null_stmt_run: "keeps no_null (sqlite_run (callback_handler L U) f (StmtCall (Some h) op))"
  by (rule no_null.sqlite_run_keeps) (auto simp: no_null_def)

lemma no_null_upd_stmt: "keeps no_null (modM (upd_stmt s f))"
  by (auto intro!: keeps_modM simp: no_null_def upd_defs)

lemmas no_null_stmt_intros = keeps_bindM keeps_ret no_null_stmt_run no_null_upd_stmt

text \<open>No method of a Statement hands a NULL handle to SQLite, whatever the state of the object,
  the arguments and the callbacks that run; this holds for the guarded methods, for closing
  and for the finalizer.\<close>

lemma statement_methods_no_null:
  "list_all (keeps no_null) (guarded_methods L U s a b) \<and>
   keeps no_null (statement_close L U s) \<and> keeps no_null (statement_deallocate L U s)"
proof (intro conjI)
  show "list_all (keeps no_null) (guarded_methods L U s a b)"
    by (simp add: list_all_iff no_null_guarded)
  show "keeps no_null (statement_close L U s)"
    unfolding statement_close_def
    by (rule open_stmt.guarded_keeps) (intro no_null_stmt_intros)
  show "keeps no_null (statement_deallocate L U s)"
  proof (rule keepsI)
    fix w :: "('a, 'b) world" assume "no_null w"
    have run: "keeps no_null (bindM (sqlite_run (callback_handler L U) (l_run L)
        (StmtCall (Some h) Finalize)) (\<lambda>_. ret ()))" for h
      by (intro no_null_stmt_intros)
    show "no_null (snd (statement_deallocate L U s w))"
      using \<open>no_null w\<close> keepsD [OF run \<open>no_null w\<close>]
      by (cases "s_st (stmts w s)") (simp_all add: statement_deallocate_def)
  qed
qed

section \<open>Life cycle\<close>

lemma structs_same_refl: "structs_same u u"
  by (simp add: structs_same_def db_handles_same_def)

lemma structs_same_run:
  assumes "sqlite_run (callback_handler L U) f c w = (r, v)"
  shows "structs_same (w\<lparr>calls := calls w @ [c]\<rparr>) v"
proof -
  have "exec_run (callback_handler L U) (f c (env w)) (w\<lparr>calls := calls w @ [c]\<rparr>) = (r, v)"
    using assms by (simp add: sqlite_run_def)
  with structs_same_refl show ?thesis
    by (rule keepsE [OF structs.exec_run_keeps [OF requests_in_True]])
qed

text \<open>A statement is finalized exactly once: closing an open statement makes one
  \<open>sqlite3_finalize\<close> on its handle and, unless an exception of a callback leaves that call,
  forgets the handle; a second close raises, and neither it nor the finalizer of the object
  reaches SQLite again.\<close>

lemma statement_close_once:
  assumes "s_st (stmts w s) = Some h"
    and "sqlite_run (callback_handler L U) (l_run L) (StmtCall (Some h) Finalize) w = (Inr z, v)"
  shows "\<exists>w'. statement_close L U s w = (Inr s, w') \<and>
    calls w' = calls w @ [StmtCall (Some h) Finalize] \<and> s_st (stmts w' s) = None \<and>
    db_handles_same w w' \<and>
    statement_close L U s w' = (Inl closed_statement_error, w') \<and>
    statement_deallocate L U s w' = (Inr (), w')"
proof -
  have "structs_same (w\<lparr>calls := calls w @ [StmtCall (Some h) Finalize]\<rparr>) v"
    by (rule structs_same_run [OF assms(2)])
  then have "calls v = calls w @ [StmtCall (Some h) Finalize]" "db_handles_same w v"
    by (simp_all add: structs_same_def db_handles_same_def)
  with assms show ?thesis
    by (simp add: statement_close_def open_stmt.guarded_open open_stmt.guarded_closed
        statement_deallocate_def db_handles_same_def)
qed

text \<open>Both outcomes of \<open>close\<close>: the handle is forgotten only when no exception leaves
  \<open>sqlite3_finalize\<close>. When one does, the handle is still there and the next \<open>close\<close> or the
  finalizer of the object finalizes it a second time.\<close>

lemma close_cases:
  assumes "s_st (stmts w s) = Some h"
  obtains (escaped) x v where
      "sqlite_run (callback_handler L U) (l_run L) (StmtCall (Some h) Finalize) w = (Inl x, v)"
      "statement_close L U s w = (Inl x, v)" "stmts v = stmts w" "db_handles_same w v"
      "calls v = calls w @ [StmtCall (Some h) Finalize]"
  | (closed) z v where
      "sqlite_run (callback_handler L U) (l_run L) (StmtCall (Some h) Finalize) w = (Inr z, v)"
      "statement_close L U s w = (Inr s, upd_stmt s (\<lambda>x. x\<lparr>s_st := None\<rparr>) v)" "stmts v = stmts w" "db_handles_same w v"
      "calls v = calls w @ [StmtCall (Some h) Finalize]"
proof -
  obtain r v where run: "sqlite_run (callback_handler L U) (l_run L) (StmtCall (Some h) Finalize) w = (r, v)" by force
  have v: "stmts v = stmts w" "db_handles_same w v" "calls v = calls w @ [StmtCall (Some h) Finalize]"
    using structs_same_run [OF run] by (simp_all add: structs_same_def db_handles_same_def)
  show ?thesis
  proof (cases r)
    case (Inl x)
    then show ?thesis
      using run assms v by (intro escaped [of x v]) (simp_all add: statement_close_def open_stmt.guarded_open)
  next
    case (Inr z)
    then show ?thesis
      using run assms v by (intro closed [of z v]) (simp_all add: statement_close_def open_stmt.guarded_open)
  qed
qed

lemma close_calls:
  assumes "s_st (stmts w s) = Some h"
  shows "calls (snd (statement_close L U s w)) = calls w @ [StmtCall (Some h) Finalize]"
  by (cases rule: close_cases [OF assms, of L U]) simp_all

lemma escaped_close_again:
  assumes "s_st (stmts w s) = Some h" and "statement_close L U s w = (Inl x, v)"
  shows "s_st (stmts v s) = Some h \<and>
    calls (snd (statement_close L U s v)) = calls w @ [StmtCall (Some h) Finalize, StmtCall (Some h) Finalize]"
proof -
  from assms have "s_st (stmts v s) = Some h" "calls v = calls w @ [StmtCall (Some h) Finalize]"
    by (cases rule: close_cases [OF assms(1), of L U]; simp)+
  with close_calls [OF this(1), of L U] show ?thesis by simp
qed

text \<open>C20: what a method of a Statement does before it reaches SQLite. The fifteen methods that read or
  drive the statement (\<open>step\<close>, \<open>bind_param\<close>, \<open>reset!\<close>, \<open>clear_bindings!\<close>, the metadata, the
  statistics and the SQL texts) look at the database first: when it was discarded they raise, and with a
  live database they raise the other error when the statement is closed; either way they neither reach
  SQLite nor change anything. On a statement that was allocated and never prepared they follow a NULL
  pointer. The other three do not look at the database: \<open>closed?\<close> and \<open>done?\<close> always answer from
  the object, and \<open>close\<close> raises when the statement is closed and else finalizes the handle,
  also when the database was discarded.\<close>

theorem statement_guards:
  assumes "m \<in> set (guarded_methods L U s a b)"
  shows "(case s_db (stmts w s) of
      None \<Rightarrow> m w = (Inl (Undefined NullDereference), w)
    | Some d \<Rightarrow>
        if d_flags (dbs w d) AND SQLITE3_RB_DATABASE_DISCARDED \<noteq> 0 then m w = (Inl discarded_error, w)
        else s_st (stmts w s) = None \<longrightarrow> m w = (Inl closed_statement_error, w)) \<and>
    statement_closed_p s w = (Inr (rb_bool (s_st (stmts w s) = None)), w) \<and>
    done_p s w = (Inr (rb_bool (s_done_p (stmts w s) \<noteq> 0)), w) \<and>
    (case s_st (stmts w s) of
      None \<Rightarrow> statement_close L U s w = (Inl closed_statement_error, w)
    | Some h \<Rightarrow> calls (snd (statement_close L U s w)) = calls w @ [StmtCall (Some h) Finalize])"
proof (intro conjI)
  show "case s_db (stmts w s) of
      None \<Rightarrow> m w = (Inl (Undefined NullDereference), w)
    | Some d \<Rightarrow>
        if d_flags (dbs w d) AND SQLITE3_RB_DATABASE_DISCARDED \<noteq> 0 then m w = (Inl discarded_error, w)
        else s_st (stmts w s) = None \<longrightarrow> m w = (Inl closed_statement_error, w)"
    using guarded_abort [OF _ assms, of w] by (auto simp: require_usable_run split: option.splits)
  show "case s_st (stmts w s) of
      None \<Rightarrow> statement_close L U s w = (Inl closed_statement_error, w)
    | Some h \<Rightarrow> calls (snd (statement_close L U s w)) = calls w @ [StmtCall (Some h) Finalize]"
  proof (cases "s_st (stmts w s)")
    case None
    then show ?thesis by (simp add: statement_close_def open_stmt.guarded_closed)
  next
    case (Some h)
    from close_calls [OF this, of L U] Some show ?thesis by simp
  qed
qed (simp_all add: statement_closed_p_def done_p_def)

theorem statement_guards_witness:
  "bindM (get_sql sample_lib 3) (\<lambda>_. ret ())
     (upd_stmt 3 (\<lambda>s. s\<lparr>s_db := Some 0, s_st := Some 9\<rparr>) (upd_db 0 (\<lambda>d. d\<lparr>d_flags := 2\<rparr>) sample_world)) =
   (Inl discarded_error, upd_stmt 3 (\<lambda>s. s\<lparr>s_db := Some 0, s_st := Some 9\<rparr>)
     (upd_db 0 (\<lambda>d. d\<lparr>d_flags := 2\<rparr>) sample_world))"
proof -
  let ?w = "upd_stmt 3 (\<lambda>s. s\<lparr>s_db := Some 0, s_st := Some 9\<rparr>) (upd_db 0 (\<lambda>d. d\<lparr>d_flags := 2\<rparr>) sample_world)"
  let ?m = "bindM (get_sql sample_lib 3) (\<lambda>_. ret ()) :: (unit, unit, unit) rb"
  have "s_db (stmts ?w 3) = Some 0" "d_flags (dbs ?w 0) = 2" by (simp_all add: upd_defs)
  then show ?thesis
    using statement_guards [of ?m sample_lib sample_user 3 RNil RNil ?w]
    by (simp add: guarded_methods_def)
qed

lemma raise_with_sql_run:
  assumes "status AND 0xff \<noteq> 0"
  shows "\<exists>x e cs. rb_sqlite3_raise_with_sql L db status (Some q) w =
      (Inl (Raised x), w\<lparr>env := e, calls := cs\<rparr>) \<and>
    (fst (l_text L (DbCall db Errmsg) (env w)) \<noteq> None \<longrightarrow>
      exn_sql x = Some (cstr q) \<and> exn_code x = Some (sint status) \<and> status2klass status = Some (exn_class x))"
proof -
  obtain k where "status2klass status = Some k" using assms status_ok_iff [of status] by auto
  then show ?thesis
    by (auto simp: rb_sqlite3_raise_with_sql_def bindM_def sqlite_call_returns rb_exc_new2_def
        split: option.split)
qed

text \<open>Preparing. The object points to its database in any case. On success it holds the
  handle, the statement deadline of the database is cleared and the method returns the rest of
  the SQL text; on an error it holds what SQLite left in the handle, the deadline stays and
  the exception carries the SQL text and the code.\<close>

lemma prepare_spec:
  assumes "StringValue sql = Inr q"
    and "sqlite_run (callback_handler L U) (l_prepare L)
        (DbCall (d_db (dbs w db)) (Prepare_v2 q (word_of_nat (length q))))
        (upd_stmt s (\<lambda>x. x\<lparr>s_db := Some db\<rparr>) w) = (Inr (status, st, tail), v)"
  shows "\<exists>w'. snd (prepare L U s db sql w) = w' \<and>
    s_db (stmts w' s) = Some db \<and> s_st (stmts w' s) = st \<and>
    (if status AND 0xff = 0
     then fst (prepare L U s db sql w) = Inr (rb_utf8_str_new_cstr tail) \<and>
       d_stmt_deadline (dbs w' db) = timespecclear
     else d_stmt_deadline (dbs w' db) = d_stmt_deadline (dbs v db) \<and>
       (\<exists>x. fst (prepare L U s db sql w) = Inl (Raised x) \<and>
         (fst (l_text L (DbCall (d_db (dbs w db)) Errmsg) (env v)) \<noteq> None \<longrightarrow>
            exn_sql x = Some (cstr q) \<and> exn_code x = Some (sint status) \<and>
            status2klass status = Some (exn_class x))))"
proof -
  have run: "prepare L U s db sql w =
      (bindM (rb_sqlite3_raise_with_sql L (d_db (dbs w db)) status (Some q)) (\<lambda>_.
       bindM (modM (upd_db db (\<lambda>d. d\<lparr>d_stmt_deadline := timespecclear\<rparr>))) (\<lambda>_.
       ret (rb_utf8_str_new_cstr tail)))) (upd_stmt s (\<lambda>x. x\<lparr>s_st := st\<rparr>) v)"
    using assms by (simp add: prepare_def)
  have s: "s_db (stmts v s) = Some db"
    using structs_same_run [OF assms(2)] by (simp add: structs_same_def)
  show ?thesis
  proof (cases "status AND 0xff = 0")
    case True
    then have "status2klass status = None" by (simp add: status_ok_iff)
    with True s show ?thesis by (simp add: run rb_sqlite3_raise_with_sql_def)
  next
    case False
    obtain x e cs where r: "rb_sqlite3_raise_with_sql L (d_db (dbs w db)) status (Some q)
          (upd_stmt s (\<lambda>x. x\<lparr>s_st := st\<rparr>) v) =
        (Inl (Raised x), (upd_stmt s (\<lambda>x. x\<lparr>s_st := st\<rparr>) v)\<lparr>env := e, calls := cs\<rparr>)"
      "fst (l_text L (DbCall (d_db (dbs w db)) Errmsg) (env v)) \<noteq> None \<longrightarrow>
        exn_sql x = Some (cstr q) \<and> exn_code x = Some (sint status) \<and> status2klass status = Some (exn_class x)"
      using raise_with_sql_run [OF False, of L "d_db (dbs w db)" q "upd_stmt s (\<lambda>x. x\<lparr>s_st := st\<rparr>) v"]
      by auto
    then show ?thesis using False s by (simp add: run)
  qed
qed

end
