(* ===== verification/Callback_Exceptions.thy ===== *)
theory Callback_Exceptions
  imports Callbacks
begin

text \<open>
  The exceptions that the user's functions and aggregates raise inside a call of SQLite. Their
  callbacks run the user's method under \<open>rb_protect\<close>, so that the exception waits in
  \<open>rb_errinfo\<close>; here is which exception that is after a whole call with any sequence of callbacks.
\<close>

section \<open>One callback\<close>

text \<open>The exception of a method of the user.\<close>

definition raises :: "'u rb_user \<Rightarrow> rb_value \<Rightarrow> string \<Rightarrow> rb_value list \<Rightarrow> ('e, 'u) world \<Rightarrow> rb_exn option" where
  "raises U recv meth args w =
     (case fst (u_call U recv meth args (usr w)) of Inl x \<Rightarrow> Some x | Inr r \<Rightarrow> None)"

text \<open>
  An aggregate: the first callback of a context makes the handler, with \<open>new\<close>; then \<open>step\<close> or
  \<open>finalize\<close> is called on it, unless a method of this handler has raised before.
\<close>

definition creation_exception :: "'u rb_user \<Rightarrow> nat \<Rightarrow> nat \<Rightarrow> bool \<Rightarrow> ('e, 'u) world \<Rightarrow> rb_exn option" where
  "creation_exception U aw cid ok w =
     (if aggmem w cid = None \<and> ok \<or> aggmem w cid = Some SlotFalse
      then raises U (handler_klass (aws w aw)) ''new'' [] w else None)"

definition aggregate_exception ::
  "'u rb_user \<Rightarrow> nat \<Rightarrow> nat \<Rightarrow> bool \<Rightarrow> string \<Rightarrow> sqlite3_value list \<Rightarrow> ('e, 'u) world \<Rightarrow> rb_exn option" where
  "aggregate_exception U aw cid ok meth argv w =
     (case creation_exception U aw cid ok w of
        Some x \<Rightarrow> Some x
      | None \<Rightarrow>
          (case rb_sqlite3_aggregate_instance U aw cid ok w of
             (Inl y, v) \<Rightarrow> None
           | (Inr inst, v) \<Rightarrow>
               if exc_status (insts v inst) \<noteq> 0 then None
               else (case mapM (\<lambda>a. liftE (sqlite3val2rb a)) argv v of
                   (Inl y, u) \<Rightarrow> None
                 | (Inr params, u) \<Rightarrow> raises U (handler_instance (insts v inst)) meth params v)))"

fun callback_exception :: "'e sqlite_lib \<Rightarrow> 'u rb_user \<Rightarrow> cb_req \<Rightarrow> ('e, 'u) world \<Rightarrow> rb_exn option" where
  "callback_exception L U (CB_func callable argv) w =
     (case rb_sqlite3_func_protected L U callable argv w of (Inl (Raised x), v) \<Rightarrow> Some x | _ \<Rightarrow> None)"
| "callback_exception L U (CB_agg_step aw cid ok argv) w = aggregate_exception U aw cid ok ''step'' argv w"
| "callback_exception L U (CB_agg_final aw cid ok) w = aggregate_exception U aw cid ok ''finalize'' [] w"
| "callback_exception L U q w = None"

text \<open>An exception becomes the pending one; without one what was pending stays.\<close>

abbreviation pending_after :: "rb_exn option \<Rightarrow> rb_exn option \<Rightarrow> rb_exn option" where
  "pending_after x old \<equiv> (case x of None \<Rightarrow> old | Some y \<Rightarrow> Some y)"

lemma keeps_pending:
  "keeps (\<lambda>w. errinfo w = x) (mapM (\<lambda>a. liftE (f a)) as)" "keeps (\<lambda>w. errinfo w = x) (rb_funcall U r m ps)"
  "keeps (\<lambda>w. errinfo w = x) (rb_ary_delete a v)"
  "keeps (\<lambda>w. errinfo w = x) (rb_sqlite3_aggregate_instance_destroy aw cid)"
proof -
  show del: "keeps (\<lambda>w. errinfo w = x) (rb_ary_delete a v)" for a v
    by (auto simp: keeps_def rb_ary_delete_def split: option.split)
  show "keeps (\<lambda>w. errinfo w = x) (rb_sqlite3_aggregate_instance_destroy aw cid)"
    unfolding rb_sqlite3_aggregate_instance_destroy_def
    by (auto intro!: keeps_intros del split: option.split agg_slot.split)
qed (auto intro!: keeps_mapM keeps_rb_funcall)

lemma new_instance_errinfo:
  assumes "new_aggregate_instance U aw cid w = (r, v)"
  shows "errinfo v = pending_after (raises U (handler_klass (aws w aw)) ''new'' [] w) (errinfo w)"
    "raises U (handler_klass (aws w aw)) ''new'' [] w \<noteq> None \<Longrightarrow> r = Inr inst \<Longrightarrow> exc_status (insts v inst) \<noteq> 0"
proof -
  obtain x u where call: "u_call U (handler_klass (aws w aw)) ''new'' [] (usr w) = (x, u)" by force
  show "errinfo v = pending_after (raises U (handler_klass (aws w aw)) ''new'' [] w) (errinfo w)"
    using assms call by (cases x; cases "instances (aws w aw)")
      (auto simp: new_aggregate_instance_def bindM_def fresh_ref_def raises_def rb_protect_funcall_run rb_ary_push_def)
  show "exc_status (insts v inst) \<noteq> 0" if "raises U (handler_klass (aws w aw)) ''new'' [] w \<noteq> None" "r = Inr inst"
    using assms call that by (cases x; cases "instances (aws w aw)")
      (auto simp: new_aggregate_instance_def bindM_def fresh_ref_def raises_def rb_protect_funcall_run rb_ary_push_def)
qed

lemma instance_errinfo:
  assumes "rb_sqlite3_aggregate_instance U aw cid ok w = (r, v)"
  shows "errinfo v = pending_after (creation_exception U aw cid ok w) (errinfo w)"
    "creation_exception U aw cid ok w \<noteq> None \<Longrightarrow> r = Inr inst \<Longrightarrow> exc_status (insts v inst) \<noteq> 0"
proof -
  let ?t = "upd_slot cid (\<lambda>s. if s = None then Some SlotFalse else s) w"
  let ?new = "aggmem w cid = None \<and> ok \<or> aggmem w cid = Some SlotFalse"
  have new: "new_aggregate_instance U aw cid ?t = (r, v)" if ?new
    using assms that by (auto simp: rb_sqlite3_aggregate_instance_def aggregate_context_def bindM_def split: if_splits)
  have same: "errinfo v = errinfo w" if "\<not> ?new"
    using assms that
    by (auto simp: rb_sqlite3_aggregate_instance_def aggregate_context_def bindM_def
        split: if_splits option.splits agg_slot.splits)
  have t: "errinfo ?t = errinfo w" "aws ?t = aws w" "raises U x ''new'' [] ?t = raises U x ''new'' [] w" for x
    by (simp_all add: raises_def)
  show "errinfo v = pending_after (creation_exception U aw cid ok w) (errinfo w)"
    using new_instance_errinfo(1) [OF new, unfolded t] same by (auto simp: creation_exception_def)
  show "exc_status (insts v inst) \<noteq> 0" if "creation_exception U aw cid ok w \<noteq> None" "r = Inr inst"
    using new_instance_errinfo(2) [OF new, unfolded t] that by (auto simp: creation_exception_def split: if_splits)
qed

lemma aggregate_exception_run:
  assumes "rb_sqlite3_aggregate_instance U aw cid ok w = (r, v)"
  shows "pending_after (aggregate_exception U aw cid ok meth argv w) (errinfo w) =
    (case r of
       Inl y \<Rightarrow> errinfo v
     | Inr inst \<Rightarrow>
         if exc_status (insts v inst) \<noteq> 0 then errinfo v
         else (case mapM (\<lambda>a. liftE (sqlite3val2rb a)) argv v of
             (Inl y, u) \<Rightarrow> errinfo v
           | (Inr params, u) \<Rightarrow> pending_after (raises U (handler_instance (insts v inst)) meth params v) (errinfo v)))"
  using assms instance_errinfo [OF assms]
  by (auto simp: aggregate_exception_def split: option.splits sum.splits prod.splits)

lemma step_errinfo:
  "errinfo (snd (rb_sqlite3_aggregator_step U aw cid ok argv w)) =
     pending_after (aggregate_exception U aw cid ok ''step'' argv w) (errinfo w)"
proof -
  obtain r v where inst: "rb_sqlite3_aggregate_instance U aw cid ok w = (r, v)" by force
  have args: "u = v" if "mapM (\<lambda>a. liftE (sqlite3val2rb a)) argv v = (x, u)" for x u
    using that by (induction argv arbitrary: x u) (auto simp: bindM_def split: prod.splits sum.splits)
  show ?thesis
    unfolding aggregate_exception_run [OF inst]
    by (auto simp: rb_sqlite3_aggregator_step_def bindM_def inst rb_protect_funcall_run raises_def upd_defs dest: args
        split: sum.splits prod.splits)
qed

lemma final_errinfo:
  "errinfo (snd (rb_sqlite3_aggregator_final L U aw cid ok w)) =
     pending_after (aggregate_exception U aw cid ok ''finalize'' [] w) (errinfo w)"
proof -
  obtain r v where inst: "rb_sqlite3_aggregate_instance U aw cid ok w = (r, v)" by force
  have des: "errinfo u = errinfo t" if "rb_sqlite3_aggregate_instance_destroy aw cid t = (x, u)" for x u t
    using keepsE [OF keeps_pending(4) refl that] .
  show ?thesis
    unfolding aggregate_exception_run [OF inst]
    by (auto simp: rb_sqlite3_aggregator_final_def bindM_def inst rb_protect_funcall_run raises_def liftE_run dest!: des
        split: sum.splits prod.splits if_splits)
qed

lemma func_errinfo:
  "errinfo (snd (rb_sqlite3_func L U callable argv w)) =
     pending_after (callback_exception L U (CB_func callable argv) w) (errinfo w)"
proof -
  have "keeps (\<lambda>v. errinfo v = errinfo w) (rb_sqlite3_func_protected L U callable argv)"
    unfolding rb_sqlite3_func_protected_def by (intro keeps_bindM keeps_pending keeps_liftE)
  from keepsD [OF this refl] have "errinfo (snd (rb_sqlite3_func_protected L U callable argv w)) = errinfo w" .
  then show ?thesis
    by (auto simp: rb_sqlite3_func_def rb_protect_def bindM_def split: prod.splits sum.splits abort.splits)
qed

lemma callback_errinfo:
  "errinfo (snd (callback_handler L U q w)) = pending_after (callback_exception L U q w) (errinfo w)"
proof -
  have ret: "snd (bindM m (\<lambda>r. ret (f r)) w) = snd (m w)" for m :: "('a, 'b, 'c) rb" and f :: "'c \<Rightarrow> cb_res"
    by (simp add: bindM_def split: prod.splits sum.splits)
  have other: "errinfo (snd (m w)) = errinfo w" if "keeps (\<lambda>v. errinfo v = errinfo w) m" for m :: "('a, 'b, 'c) rb"
    using keepsD [OF that refl] .
  show ?thesis
  proof (cases q)
    case (CB_func callable argv)
    then show ?thesis using func_errinfo [of L U callable argv w]
      by (auto simp: bindM_def split: prod.splits sum.splits)
  next
    case (CB_agg_step aw cid ok argv)
    then show ?thesis using step_errinfo [of U aw cid ok argv w]
      by (auto simp: bindM_def split: prod.splits sum.splits)
  next
    case (CB_agg_final aw cid ok)
    then show ?thesis using final_errinfo [of L U aw cid ok w]
      by (auto simp: bindM_def split: prod.splits sum.splits)
  qed (auto simp: callback_defs Let_def intro!: other keeps_intros keeps_pending keeps_rb_funcall)
qed

section \<open>A whole call\<close>

text \<open>The exceptions that the callbacks of a run raise and leave pending, in order.\<close>

primrec run_exceptions :: "'e sqlite_lib \<Rightarrow> 'u rb_user \<Rightarrow> ('e, 'r) run \<Rightarrow> ('e, 'u) world \<Rightarrow> rb_exn list" where
  "run_exceptions L U (Return r e) w = []"
| "run_exceptions L U (Callback e q k) w =
     (case callback_exception L U q (w\<lparr>env := e\<rparr>) of None \<Rightarrow> [] | Some x \<Rightarrow> [x]) @
     (case callback_handler L U q (w\<lparr>env := e\<rparr>) of
        (Inl y, v) \<Rightarrow> []
      | (Inr p, v) \<Rightarrow> run_exceptions L U (k p) v)"

abbreviation last_pending :: "rb_exn list \<Rightarrow> rb_exn option \<Rightarrow> rb_exn option" where
  "last_pending xs old \<equiv> (if xs = [] then old else Some (last xs))"

lemma exec_run_errinfo:
  "errinfo (snd (exec_run (callback_handler L U) t w)) = last_pending (run_exceptions L U t w) (errinfo w)"
proof (induction t arbitrary: w)
  case (Callback e q k)
  obtain r v where q: "callback_handler L U q (w\<lparr>env := e\<rparr>) = (r, v)" by force
  then have v: "errinfo v = pending_after (callback_exception L U q (w\<lparr>env := e\<rparr>)) (errinfo w)"
    using callback_errinfo [of L U q "w\<lparr>env := e\<rparr>"] by (simp split: option.split)
  show ?case
  proof (cases r)
    case (Inl y)
    with q v show ?thesis by (simp split: option.split)
  next
    case (Inr p)
    with q v Callback.IH [of "k p" v] show ?thesis by (simp split: option.split)
  qed
qed simp

end
