(* ===== verification/Stepping.thy ===== *)
theory Stepping
  imports Statement_Laws Callback_Exceptions
begin

unbundle bit_operations_syntax

text \<open>
  Properties of \<open>Statement#step\<close> and the methods around it: exceptions of callbacks are raised
  again, the rows of a query come out in order and once, a finished statement stays finished
  until it is reset.
\<close>

section \<open>Exceptions of the callbacks\<close>

lemma step_run:
  assumes "require_usable s w = (Inr (Some h), w)" and "s_done_p (stmts w s) = 0"
  shows "step L U s w =
    bindM (sqlite_run (callback_handler L U) (l_run L) (StmtCall (Some h) Step)) (\<lambda>value.
       bindM reraise_pending (\<lambda>_.
       bindM (sqlite_call (l_int L) (StmtCall (Some h) Column_count)) (\<lambda>n.
       if value = SQLITE_ROW
       then bindM (mapM (\<lambda>i. bindM (sqlite_call (l_column L) (StmtCall (Some h) (Column i)))
                     (\<lambda>v. liftE (column_value U v))) [0..<nat (sint n)]) (\<lambda>list.
            ret (RArray list))
       else if value = SQLITE_DONE
       then bindM (modM (upd_stmt s (\<lambda>s. s\<lparr>s_done_p := 1\<rparr>))) (\<lambda>_. ret RNil)
       else
         bindM (sqlite_run (callback_handler L U) (l_run L) (StmtCall (Some h) Reset)) (\<lambda>_.
         bindM (modM (upd_stmt s (\<lambda>s. s\<lparr>s_done_p := 0\<rparr>))) (\<lambda>_.
         bindM (sqlite_call (l_handle L) (StmtCall (Some h) Db_handle)) (\<lambda>db.
         bindM (rb_sqlite3_raise L db value) (\<lambda>_.
         ret (RArray [])))))))) w"
  using assms by (simp add: step_def)

lemma reraise_run:
  "reraise_pending w =
     (case errinfo w of None \<Rightarrow> (Inr (), w) | Some x \<Rightarrow> (Inl (Raised x), w\<lparr>errinfo := None\<rparr>))"
  by (simp add: reraise_pending_def bindM_def split: option.split)

lemma step_reraise:
  assumes "require_usable s w = (Inr (Some h), w)" and "s_done_p (stmts w s) = 0"
    and "sqlite_run (callback_handler L U) (l_run L) (StmtCall (Some h) Step) w = (Inr value, v)"
    and "errinfo v = Some x"
  shows "step L U s w = (Inl (Raised x), v\<lparr>errinfo := None\<rparr>)"
  using assms(3,4) by (simp add: step_run [OF assms(1,2)] reraise_run)

text \<open>C3: what \<open>step\<close> does with the exceptions that the user's functions and aggregates raise inside
  \<open>sqlite3_step\<close>, whatever the library does there and with any sequence of callbacks. When the call
  returns and at least one has been raised, \<open>step\<close> raises the last one, as the same object, instead
  of giving a row or an error of SQLite, and none is left pending; when none has been raised, what was
  pending is as before. The one way around this is a callback without \<open>rb_protect\<close> (tracer, busy
  handler, authorizer, collation) whose own exception unwinds the call: \<open>step\<close> is left with that
  one, and the last exception of a function stays pending.\<close>

theorem step_raises_callback_exception:
  assumes "require_usable s w = (Inr (Some h), w)" and "s_done_p (stmts w s) = 0"
    and "raised = run_exceptions L U (l_run L (StmtCall (Some h) Step) (env w))
        (w\<lparr>calls := calls w @ [StmtCall (Some h) Step]\<rparr>)"
  shows "case sqlite_run (callback_handler L U) (l_run L) (StmtCall (Some h) Step) w of
      (Inr status, v) \<Rightarrow>
        (raised \<noteq> [] \<longrightarrow> step L U s w = (Inl (Raised (last raised)), v\<lparr>errinfo := None\<rparr>)) \<and>
        (raised = [] \<longrightarrow> errinfo v = errinfo w)
    | (Inl x, v) \<Rightarrow> step L U s w = (Inl x, v) \<and> errinfo v = (if raised = [] then errinfo w else Some (last raised))"
proof (cases "sqlite_run (callback_handler L U) (l_run L) (StmtCall (Some h) Step) w")
  case (Pair r v)
  let ?w = "w\<lparr>calls := calls w @ [StmtCall (Some h) Step]\<rparr>"
  have "exec_run (callback_handler L U) (l_run L (StmtCall (Some h) Step) (env w)) ?w = (r, v)"
    using Pair by (simp add: sqlite_run_def)
  with exec_run_errinfo [of L U "l_run L (StmtCall (Some h) Step) (env w)" ?w] assms(3)
  have v: "errinfo v = last_pending raised (errinfo w)" by simp
  show ?thesis
  proof (cases r)
    case (Inl x)
    with Pair v show ?thesis by (simp add: step_run [OF assms(1,2)])
  next
    case (Inr status)
    with Pair v step_reraise [OF assms(1,2), of L U status v "last raised"] show ?thesis by simp
  qed
qed

section \<open>Errors of the library\<close>

lemma raise_run:
  "\<exists>e cs. rb_sqlite3_raise L db status w =
     (case status2klass status of
        None \<Rightarrow> (Inr (), w)
      | Some k \<Rightarrow> (Inl (Raised (case fst (l_text L (DbCall db Errmsg) (env w)) of
            None \<Rightarrow> rb_error ArgumentError ''NULL pointer given''
          | Some m \<Rightarrow> Exn k (cstr m) (Some (sint status)) None None)), w\<lparr>env := e, calls := cs\<rparr>))"
  by (auto simp: rb_sqlite3_raise_def bindM_def sqlite_call_returns rb_exc_new2_def split: option.split)

text \<open>C25: an error of \<open>sqlite3_step\<close>. When the call returns neither a row nor the end and nothing is
  pending, the statement is reset, so that the next step starts the query again, and the
  exception of the status is raised, with the extended code and with the message that the
  connection of the statement has after the reset.\<close>

theorem step_error:
  assumes "require_usable s w = (Inr (Some h), w)" and "s_done_p (stmts w s) = 0"
    and "sqlite_run (callback_handler L U) (l_run L) (StmtCall (Some h) Step) w = (Inr c, v)"
    and "errinfo v = None" and "c \<noteq> SQLITE_ROW" and "c \<noteq> SQLITE_DONE"
    and "l_int L (StmtCall (Some h) Column_count) (env v) = (n, e1)"
    and "sqlite_run (callback_handler L U) (l_run L) (StmtCall (Some h) Reset)
        (v\<lparr>env := e1, calls := calls v @ [StmtCall (Some h) Column_count]\<rparr>) = (Inr z, u)"
    and "l_handle L (StmtCall (Some h) Db_handle) (env u) = (db, e2)"
    and "l_text L (DbCall db Errmsg) e2 = (Some m, e3)"
  shows "fst (step L U s w) =
      (case status2klass c of
         None \<Rightarrow> Inr (RArray [])
       | Some k \<Rightarrow> Inl (Raised (Exn k (cstr m) (Some (sint c)) None None))) \<and>
    s_done_p (stmts (snd (step L U s w)) s) = 0"
proof -
  let ?u = "(upd_stmt s (\<lambda>s. s\<lparr>s_done_p := 0\<rparr>) u)\<lparr>env := e2, calls := calls u @ [StmtCall (Some h) Db_handle]\<rparr>"
  have "step L U s w = bindM (rb_sqlite3_raise L db c) (\<lambda>_. ret (RArray [])) ?u"
    using assms by (simp add: step_run [OF assms(1,2)] reraise_run sqlite_call_returns)
  moreover have "fst (l_text L (DbCall db Errmsg) (env ?u)) = Some m"
    using assms(10) by simp
  then obtain e cs where "rb_sqlite3_raise L db c ?u =
     (case status2klass c of
        None \<Rightarrow> (Inr (), ?u)
      | Some k \<Rightarrow> (Inl (Raised (Exn k (cstr m) (Some (sint c)) None None)), ?u\<lparr>env := e, calls := cs\<rparr>))"
    using raise_run [of L db c ?u] by (simp only: option.case) blast
  ultimately show ?thesis by (simp split: option.split)
qed

definition failing_lib :: "unit sqlite_lib" where
  "failing_lib = sample_lib\<lparr>l_run := \<lambda>k e. case k of
     StmtCall z Step \<Rightarrow> Return SQLITE_BUSY e | _ \<Rightarrow> Return SQLITE_OK e\<rparr>"

definition raising_lib :: "unit sqlite_lib" where
  "raising_lib = sample_lib\<lparr>l_run := \<lambda>c e. Callback e (CB_func (RObject 1) [])
     (\<lambda>p. Return SQLITE_ERROR e)\<rparr>"

definition raising_user :: "unit rb_user" where
  "raising_user = sample_user\<lparr>u_call := \<lambda>r m args u. (Inl (UserExn 3), u)\<rparr>"

definition stmt_world :: "(unit, unit) world" where
  "stmt_world = upd_stmt 1 (\<lambda>s. s\<lparr>s_db := Some 0, s_st := Some 9\<rparr>)
     (upd_db 0 (\<lambda>d. d\<lparr>d_db := Some 7\<rparr>) sample_world)"

lemma stmt_world_usable: "require_usable 1 stmt_world = (Inr (Some 9), stmt_world)"
  by (rule usable_open [of _ _ 0]) (simp_all add: stmt_world_def sample_defs)

theorem step_raises_callback_exception_witness:
  "\<exists>w'. step raising_lib raising_user 1 stmt_world = (Inl (Raised (UserExn 3)), w') \<and> errinfo w' = None"
proof -
  let ?w = "stmt_world\<lparr>calls := calls stmt_world @ [StmtCall (Some 9) Step]\<rparr>"
  have run: "sqlite_run (callback_handler raising_lib raising_user) (l_run raising_lib) (StmtCall (Some 9) Step)
      stmt_world = (Inr SQLITE_ERROR, ?w\<lparr>errinfo := Some (UserExn 3)\<rparr>)"
    by (simp add: sqlite_run_def bindM_def raising_lib_def raising_user_def rb_sqlite3_func_def
        rb_sqlite3_func_protected_def rb_protect_def rb_funcall_def TAG_RAISE_def)
  have fresh: "s_done_p (stmts stmt_world 1) = 0"
    by (simp add: stmt_world_def sample_defs)
  have raised: "[UserExn 3] = run_exceptions raising_lib raising_user
      (l_run raising_lib (StmtCall (Some 9) Step) (env stmt_world)) ?w"
    by (simp add: raising_lib_def raising_user_def bindM_def rb_sqlite3_func_def
        rb_sqlite3_func_protected_def rb_protect_def rb_funcall_def)
  have "step raising_lib raising_user 1 stmt_world = (Inl (Raised (UserExn 3)), ?w\<lparr>errinfo := None\<rparr>)"
    using step_raises_callback_exception [OF stmt_world_usable fresh raised] by (simp add: run del: run_exceptions.simps)
  then show ?thesis by simp
qed

theorem step_error_witness:
  "fst (step failing_lib sample_user 1 stmt_world) =
      Inl (Raised (Exn BusyException ''text'' (Some 5) None None)) \<and>
    s_done_p (stmts (snd (step failing_lib sample_user 1 stmt_world)) 1) = 0"
proof -
  let ?v = "stmt_world\<lparr>calls := calls stmt_world @ [StmtCall (Some 9) Step]\<rparr>"
  have "s_done_p (stmts stmt_world 1) = 0" "errinfo ?v = None"
    by (simp_all add: stmt_world_def sample_defs)
  moreover have "sqlite_run (callback_handler failing_lib sample_user) (l_run failing_lib) (StmtCall (Some 9) Step)
      stmt_world = (Inr SQLITE_BUSY, ?v)"
    by (simp add: sqlite_run_def failing_lib_def)
  moreover have "sqlite_run (callback_handler failing_lib sample_user) (l_run failing_lib) (StmtCall (Some 9) Reset) x =
      (Inr SQLITE_OK, x\<lparr>calls := calls x @ [StmtCall (Some 9) Reset]\<rparr>)" for x
    by (simp add: sqlite_run_def failing_lib_def)
  moreover have "l_int failing_lib (StmtCall (Some 9) Column_count) e = (0, e)"
      "l_handle failing_lib (StmtCall (Some 9) Db_handle) e = (Some 7, e)"
      "l_text failing_lib (DbCall (Some 7) Errmsg) e = (Some ''text'', e)" for e
    by (simp_all add: failing_lib_def sample_lib_def)
  ultimately show ?thesis
    using step_error [OF stmt_world_usable, of failing_lib sample_user SQLITE_BUSY ?v 0 "()" SQLITE_OK _ "Some 7" "()" "''text''" "()"]
    by (simp add: status2klass_def cstr_def nul_def)
qed

section \<open>The rows of a query\<close>

text \<open>
  A library whose statement \<open>h\<close> yields rows and calls nothing back: \<open>todo\<close> gives the rows that
  are left in a state of the library, \<open>cur\<close> the current one. \<open>sqlite3_step\<close> moves to the next
  row or reports the end; the column accessors read the current row and change nothing.
\<close>

definition yields_rows ::
  "'e sqlite_lib \<Rightarrow> sth \<Rightarrow> ('e \<Rightarrow> sqlite3_value list list) \<Rightarrow> ('e \<Rightarrow> sqlite3_value list) \<Rightarrow> bool" where
  "yields_rows L h todo cur \<longleftrightarrow>
     (\<forall>e. case todo e of
        [] \<Rightarrow> \<exists>e'. l_run L (StmtCall (Some h) Step) e = Return SQLITE_DONE e'
      | r # rs \<Rightarrow> \<exists>e'. l_run L (StmtCall (Some h) Step) e = Return SQLITE_ROW e' \<and>
          todo e' = rs \<and> cur e' = r) \<and>
     (\<forall>e. l_int L (StmtCall (Some h) Column_count) e = (word_of_nat (length (cur e)), e)) \<and>
     (\<forall>e i. i < length (cur e) \<longrightarrow> l_column L (StmtCall (Some h) (Column i)) e = (cur e ! i, e))"

lemma yields_rowsD:
  assumes "yields_rows L h todo cur"
  shows "case todo e of
        [] \<Rightarrow> \<exists>e'. l_run L (StmtCall (Some h) Step) e = Return SQLITE_DONE e'
      | r # rs \<Rightarrow> \<exists>e'. l_run L (StmtCall (Some h) Step) e = Return SQLITE_ROW e' \<and>
          todo e' = rs \<and> cur e' = r"
  using assms unfolding yields_rows_def by blast

text \<open>Rows as SQLite has them: at most 32767 columns, each of one of the five types.\<close>

definition valid_row :: "sqlite3_value list \<Rightarrow> bool" where
  "valid_row r \<longleftrightarrow> length r \<le> 32767 \<and> list_all (\<lambda>v. valid_type (v_type v)) r"

definition row_array :: "'u rb_user \<Rightarrow> sqlite3_value list \<Rightarrow> rb_value" where
  "row_array U r = RArray (map (\<lambda>v. projr (column_value U v)) r)"

lemma column_value_valid:
  "valid_type (v_type v) \<Longrightarrow> column_value U v = Inr (projr (column_value U v))"
  by (auto simp: column_value_def valid_type_def)

lemma columns_run:
  assumes "\<And>i. i < length r \<Longrightarrow> l_column L (StmtCall (Some h) (Column i)) (env w) = (r ! i, env w)"
    and "list_all (\<lambda>v. valid_type (v_type v)) r" and "list_all (\<lambda>i. i < length r) js"
  shows "mapM (\<lambda>i. bindM (sqlite_call (l_column L) (StmtCall (Some h) (Column i)))
        (\<lambda>v. liftE (column_value U v))) js w =
    (Inr (map (\<lambda>i. projr (column_value U (r ! i))) js),
     w\<lparr>calls := calls w @ map (\<lambda>i. StmtCall (Some h) (Column i)) js\<rparr>)"
  using assms(1,3)
proof (induction js arbitrary: w)
  case (Cons j js)
  then have j: "j < length r" "l_column L (StmtCall (Some h) (Column j)) (env w) = (r ! j, env w)"
    by auto
  then have "column_value U (r ! j) = Inr (projr (column_value U (r ! j)))"
    using assms(2) by (intro column_value_valid) (simp add: list_all_length)
  with j Cons.prems Cons.IH [of "w\<lparr>calls := calls w @ [StmtCall (Some h) (Column j)]\<rparr>"]
  show ?case by (simp add: sqlite_call_returns)
qed simp

text \<open>One step that finds a row, and the step that finds the end.\<close>

definition step_calls :: "sth \<Rightarrow> sqlite3_value list \<Rightarrow> sql_call list" where
  "step_calls h r = [StmtCall (Some h) Step, StmtCall (Some h) Column_count] @
     map (\<lambda>i. StmtCall (Some h) (Column i)) [0..<length r]"

lemma row_length: "length r \<le> 32767 \<Longrightarrow> nat (sint (word_of_nat (length r) :: cint)) = length r"
  by (simp add: sint_word_of_int [where 'a = 32, of "int (length r)", unfolded int_fits_def, simplified])

lemma step_row:
  assumes rows: "yields_rows L h todo cur" and todo: "todo (env w) = r # rs" and r: "valid_row r"
    and use: "require_usable s w = (Inr (Some h), w)" "s_done_p (stmts w s) = 0"
    and none: "errinfo w = None"
  shows "\<exists>e. step L U s w = (Inr (row_array U r), w\<lparr>env := e, calls := calls w @ step_calls h r\<rparr>) \<and>
    todo e = rs \<and> cur e = r"
proof -
  from rows todo obtain e where e: "l_run L (StmtCall (Some h) Step) (env w) = Return SQLITE_ROW e"
    "todo e = rs" "cur e = r"
    using yields_rowsD [OF rows, of "env w"] by auto
  have acc: "l_int L (StmtCall (Some h) Column_count) e = (word_of_nat (length r), e)"
    "\<And>i. i < length r \<Longrightarrow> l_column L (StmtCall (Some h) (Column i)) e = (r ! i, e)"
    using rows e(3) by (auto simp: yields_rows_def)
  have "map (\<lambda>i. projr (column_value U (r ! i))) [0..<length r] = map (\<lambda>v. projr (column_value U v)) r"
    by (rule nth_equalityI) simp_all
  moreover have "list_all (\<lambda>v. valid_type (v_type v)) r" "length r \<le> 32767"
    using r by (simp_all add: valid_row_def)
  ultimately show ?thesis
    using e none acc columns_run [of r L h "w\<lparr>env := e, calls := calls w @
        [StmtCall (Some h) Step, StmtCall (Some h) Column_count]\<rparr>" "[0..<length r]" U]
    by (intro exI [of _ e]) (simp add: step_run [OF use] sqlite_run_def reraise_run sqlite_call_returns
        row_length row_array_def step_calls_def list_all_length)
qed

lemma step_end:
  assumes rows: "yields_rows L h todo cur" and todo: "todo (env w) = []"
    and use: "require_usable s w = (Inr (Some h), w)" "s_done_p (stmts w s) = 0"
    and none: "errinfo w = None"
  shows "\<exists>e. step L U s w = (Inr RNil, upd_stmt s (\<lambda>s. s\<lparr>s_done_p := 1\<rparr>)
    (w\<lparr>env := e, calls := calls w @ step_calls h []\<rparr>))"
proof -
  from rows todo obtain e where e: "l_run L (StmtCall (Some h) Step) (env w) = Return SQLITE_DONE e"
    using yields_rowsD [OF rows, of "env w"] by auto
  have "snd (l_int L (StmtCall (Some h) Column_count) e) = e"
    using rows by (simp add: yields_rows_def)
  with e none show ?thesis
    by (intro exI [of _ e]) (simp add: step_run [OF use] sqlite_run_def reraise_run sqlite_call_returns
        step_calls_def)
qed

lemma step_done:
  assumes "require_usable s w = (Inr (Some h), w)" and "s_done_p (stmts w s) \<noteq> 0"
  shows "step L U s w = (Inr RNil, w)"
  using assms by (simp add: step_def)

lemma steps_done:
  assumes "require_usable s w = (Inr (Some h), w)" and "s_done_p (stmts w s) \<noteq> 0"
  shows "mapM (\<lambda>_. step L U s) xs w = (Inr (replicate (length xs) RNil), w)"
  by (induction xs) (simp_all add: step_done [OF assms])

lemma require_usable_cong:
  "dbs v = dbs w \<Longrightarrow> s_db (stmts v s) = s_db (stmts w s) \<Longrightarrow> s_st (stmts v s) = s_st (stmts w s) \<Longrightarrow>
     require_usable s w = (Inr h, w) \<Longrightarrow> require_usable s v = (Inr h, v)"
  by (auto simp: require_usable_run split: option.splits if_splits)

definition steps_made :: "sth \<Rightarrow> sql_call list \<Rightarrow> nat" where
  "steps_made h cs = length (filter (\<lambda>c. c = StmtCall (Some h) Step) cs)"

lemma steps_made_simps [simp]:
  "steps_made h (a @ b) = steps_made h a + steps_made h b" "steps_made h (step_calls h r) = 1"
  by (simp_all add: steps_made_def step_calls_def)

lemma cursor_run:
  assumes "yields_rows L h todo cur" and "todo (env w) = rows" and "list_all valid_row rows"
    and "require_usable s w = (Inr (Some h), w)" and "s_done_p (stmts w s) = 0"
    and "errinfo w = None" and "length xs = length rows + Suc k"
  shows "\<exists>w'. mapM (\<lambda>_. step L U s) xs w = (Inr (map (row_array U) rows @ replicate (Suc k) RNil), w') \<and>
    s_done_p (stmts w' s) = 1 \<and> steps_made h (calls w') = steps_made h (calls w) + length rows + 1"
  using assms(2-)
proof (induction rows arbitrary: w xs)
  case Nil
  from Nil.prems(6) obtain x ys where xs: "xs = x # ys" "length ys = k" by (cases xs) auto
  obtain e where e: "step L U s w = (Inr RNil, upd_stmt s (\<lambda>s. s\<lparr>s_done_p := 1\<rparr>)
      (w\<lparr>env := e, calls := calls w @ step_calls h []\<rparr>))"
    using step_end [OF assms(1) Nil.prems(1,3-5)] by blast
  let ?v = "upd_stmt s (\<lambda>s. s\<lparr>s_done_p := 1\<rparr>) (w\<lparr>env := e, calls := calls w @ step_calls h []\<rparr>)"
  have "require_usable s ?v = (Inr (Some h), ?v)"
    by (rule require_usable_cong [OF _ _ _ Nil.prems(3)]) simp_all
  from steps_done [OF this, of L U ys] xs(2) show ?case
    by (simp add: xs(1) e)
next
  case (Cons r rows)
  from Cons.prems(6) obtain x ys where xs: "xs = x # ys" "length ys = length rows + Suc k"
    by (cases xs) auto
  have r: "valid_row r" "list_all valid_row rows" using Cons.prems(2) by simp_all
  obtain e where e: "step L U s w = (Inr (row_array U r), w\<lparr>env := e, calls := calls w @ step_calls h r\<rparr>)"
    "todo e = rows"
    using step_row [OF assms(1) Cons.prems(1) r(1) Cons.prems(3-5)] by blast
  let ?v = "w\<lparr>env := e, calls := calls w @ step_calls h r\<rparr>"
  have v: "todo (env ?v) = rows" "s_done_p (stmts ?v s) = 0" "errinfo ?v = None"
    "require_usable s ?v = (Inr (Some h), ?v)"
    using e(2) Cons.prems(4,5) require_usable_cong [OF _ _ _ Cons.prems(3), of ?v] by simp_all
  from Cons.IH [OF v(1) r(2) v(4,2,3) xs(2)] show ?case
    by (auto simp: xs(1) e(1))
qed

text \<open>C14: a statement is a cursor over the rows of its query. With a library that yields rows,
  stepping gives every row once and in order, each as the array of its converted columns, then
  \<open>nil\<close>, and \<open>nil\<close> again for any further step: these do not reach SQLite (which would restart the
  query), so \<open>sqlite3_step\<close> is called once per row and once for the end.\<close>

theorem step_cursor:
  assumes "yields_rows L h todo cur" and "todo (env w) = rows" and "list_all valid_row rows"
    and "require_usable s w = (Inr (Some h), w)" and "s_done_p (stmts w s) = 0"
    and "errinfo w = None"
  shows "\<exists>w'. mapM (\<lambda>_. step L U s) [0..<length rows + Suc k] w =
      (Inr (map (row_array U) rows @ replicate (Suc k) RNil), w') \<and>
    s_done_p (stmts w' s) = 1 \<and> steps_made h (calls w') = steps_made h (calls w) + length rows + 1"
  by (rule cursor_run [OF assms]) simp

text \<open>A library whose state is the rows that are left and the current row.\<close>

type_synonym cursor_env = "sqlite3_value list list \<times> sqlite3_value list"

definition cursor_lib :: "cursor_env sqlite_lib" where
  "cursor_lib =
     \<lparr>l_int = (\<lambda>c e. (word_of_nat (length (snd e)), e)), l_i64 = (\<lambda>c e. (0, e)),
      l_text = (\<lambda>c e. (None, e)),
      l_column = (\<lambda>c e. case c of StmtCall z (Column i) \<Rightarrow> (snd e ! i, e)
        | _ \<Rightarrow> (\<lparr>v_type = SQLITE_NULL, v_int64 = 0, v_double = 0, v_text = [], v_blob = []\<rparr>, e)),
      l_open = (\<lambda>c e. ((SQLITE_OK, Some 7), e)), l_file = (\<lambda>c e. ((SQLITE_OK, 3, True), e)),
      l_backup = (\<lambda>c e. (Some 5, e)), l_handle = (\<lambda>c e. (Some 7, e)),
      l_status = (\<lambda>c e. ((0, 0), e)),
      l_run = (\<lambda>c e. case fst e of [] \<Rightarrow> Return SQLITE_DONE e | r # rs \<Rightarrow> Return SQLITE_ROW (rs, r)),
      l_prepare = (\<lambda>c e. Return (SQLITE_OK, Some 9, []) e),
      l_exec = (\<lambda>c e. Return (SQLITE_OK, None) e),
      l_has_db_name = True, l_has_error_offset = True, l_has_dqs = True, l_long64 = True,
      l_little_endian = True\<rparr>"

definition cursor_world :: "sqlite3_value list list \<Rightarrow> (cursor_env, unit) world" where
  "cursor_world rows =
     \<lparr>env = (rows, []), usr = (), pid = 1, errinfo = None, calls = [],
      dbs = (\<lambda>_. zero_sqlite3Ruby\<lparr>d_db := Some 7\<rparr>), ivars = ivars sample_world,
      stmts = (\<lambda>_. \<lparr>s_st = Some 9, s_db = Some 0, s_done_p = 0\<rparr>),
      sivars = sivars sample_world, backups = backups sample_world, aws = aws sample_world, insts = insts sample_world,
      aggmem = aggmem sample_world, arys = arys sample_world, hashes = hashes sample_world,
      next_ref = 0\<rparr>"

lemma cursor_lib_rows: "yields_rows cursor_lib h fst snd"
  by (simp add: yields_rows_def cursor_lib_def split: list.split)

theorem step_cursor_witness:
  "\<exists>w'. mapM (\<lambda>_. step cursor_lib sample_user 1) [0..<Suc (Suc 0)]
      (cursor_world [[\<lparr>v_type = SQLITE_INTEGER, v_int64 = 5, v_double = 0, v_text = [], v_blob = []\<rparr>]]) =
      (Inr [RArray [RInteger 5], RNil], w')"
proof -
  let ?r = "[\<lparr>v_type = SQLITE_INTEGER, v_int64 = 5, v_double = 0, v_text = [], v_blob = []\<rparr>]"
  have "require_usable 1 (cursor_world [?r]) = (Inr (Some 9), cursor_world [?r])"
    by (rule usable_open [of _ _ 0]) (simp_all add: cursor_world_def zero_sqlite3Ruby_def)
  moreover have "fst (env (cursor_world [?r])) = [?r]" "list_all valid_row [?r]"
    "s_done_p (stmts (cursor_world [?r]) 1) = 0" "errinfo (cursor_world [?r]) = None"
    by (simp_all add: cursor_world_def valid_row_def valid_type_def)
  ultimately show ?thesis
    using step_cursor [OF cursor_lib_rows, of "cursor_world [?r]" "[?r]" 1 9 sample_user 0]
    by (auto simp: row_array_def column_value_def LL2NUM_def)
qed

section \<open>Resetting\<close>

text \<open>
  \<open>reset!\<close> and \<open>clear_bindings!\<close> both make a finished statement step again, but only \<open>reset!\<close>
  rewinds the query in SQLite; each makes one call.
\<close>

lemma reset_run:
  assumes "require_usable s w = (Inr (Some h), w)"
    and "sqlite_run (callback_handler L U) (l_run L) (StmtCall (Some h) Reset) w = (Inr z, v)"
  shows "reset_bang L U s w = (Inr s, upd_stmt s (\<lambda>s. s\<lparr>s_done_p := 0\<rparr>) v)"
  using assms by (simp add: reset_bang_def)

lemma clear_bindings_run:
  assumes "require_usable s w = (Inr (Some h), w)"
  shows "\<exists>e. clear_bindings_bang L s w = (Inr s, upd_stmt s (\<lambda>s. s\<lparr>s_done_p := 0\<rparr>)
    (w\<lparr>env := e, calls := calls w @ [StmtCall (Some h) Clear_bindings]\<rparr>))"
  using assms by (simp add: clear_bindings_bang_def sqlite_call_returns) blast

text \<open>Only \<open>step\<close> looks at the pending exception. \<open>sqlite3_reset\<close> ends the aggregates that are in
  flight, which runs the user's \<open>finalize\<close>; when that raises, \<open>reset!\<close> returns normally with
  the exception pending, and the next \<open>step\<close> of any statement of any database raises it (or a
  newer one of its own callbacks), although nothing has failed in that step.\<close>

lemma reset_leaves_exception:
  assumes "require_usable s w = (Inr (Some h), w)"
    and "sqlite_run (callback_handler L U) (l_run L) (StmtCall (Some h) Reset) w = (Inr z, v)"
    and "errinfo v = Some x"
  shows "\<exists>v'. reset_bang L U s w = (Inr s, v') \<and> errinfo v' = Some x \<and>
    (\<forall>t g c u. require_usable t v' = (Inr (Some g), v') \<and> s_done_p (stmts v' t) = 0 \<and>
        sqlite_run (callback_handler L U) (l_run L) (StmtCall (Some g) Step) v' = (Inr c, u) \<longrightarrow>
      (\<exists>y. step L U t v' = (Inl (Raised y), u\<lparr>errinfo := None\<rparr>) \<and>
        (\<forall>e. l_run L (StmtCall (Some g) Step) (env v') = Return c e \<longrightarrow> y = x)))"
proof -
  let ?v = "upd_stmt s (\<lambda>s. s\<lparr>s_done_p := 0\<rparr>) v"
  have "\<exists>y. step L U t ?v = (Inl (Raised y), u\<lparr>errinfo := None\<rparr>) \<and>
      (\<forall>e. l_run L (StmtCall (Some g) Step) (env ?v) = Return c e \<longrightarrow> y = x)"
    if use: "require_usable t ?v = (Inr (Some g), ?v)" "s_done_p (stmts ?v t) = 0"
      and run: "sqlite_run (callback_handler L U) (l_run L) (StmtCall (Some g) Step) ?v = (Inr c, u)"
    for t g c u
  proof -
    have "keeps (\<lambda>w. errinfo w \<noteq> None) (sqlite_run (callback_handler L U) (l_run L) (StmtCall (Some g) Step))"
      by (rule pending.sqlite_run_keeps) simp_all
    from keepsE [OF this _ run] assms(3) obtain y where y: "errinfo u = Some y" by auto
    moreover have "y = x" if "l_run L (StmtCall (Some g) Step) (env ?v) = Return c e" for e
      using run that y assms(3) by (auto simp: sqlite_run_def)
    ultimately show ?thesis using step_reraise [OF use run y] by blast
  qed
  with reset_run [OF assms(1,2)] assms(3) show ?thesis
    by (intro exI [of _ ?v]) auto
qed

definition ending_lib :: "unit sqlite_lib" where
  "ending_lib = sample_lib\<lparr>l_run := \<lambda>c e. case c of
     StmtCall z Reset \<Rightarrow> Callback e (CB_agg_final 1 0 True) (\<lambda>p. Return SQLITE_OK e)
   | _ \<Rightarrow> Return SQLITE_ROW e\<rparr>"

end
