(* ===== verification/Statement_Life.thy ===== *)
theory Statement_Life
  imports Stepping
begin

text \<open>
  The life cycle of a prepared statement (\<open>ext/sqlite3/statement.c\<close>) from \<open>prepare\<close> to the
  finalizer of its object: the handle is used while it is open, finalized once and not used
  again, whatever else happens in the process between the calls.
\<close>

section \<open>The protocol of a statement handle\<close>

text \<open>
  The calls that the methods of one statement object make, in the state \<open>Some True\<close> (the handle \<open>h\<close>
  may be used) or \<open>Some False\<close> (it was finalized). \<open>None\<close> is a violation: a call on another
  handle or on a finalized one.
\<close>

fun next_use :: "sth \<Rightarrow> bool option \<Rightarrow> sql_call \<Rightarrow> bool option" where
  "next_use h None c = None"
| "next_use h (Some alive) (StmtCall z op) = (if alive \<and> z = Some h then Some (op \<noteq> Finalize) else None)"
| "next_use h (Some alive) c = Some alive"

abbreviation handle_use :: "sth \<Rightarrow> sql_call list \<Rightarrow> bool option" where
  "handle_use h cs \<equiv> foldl (next_use h) (Some True) cs"

text \<open>
  The steps of a Statement object after \<open>prepare\<close>, with the log of its own calls: any guarded
  method with any outcome, \<open>close\<close>, and anything else in the process that leaves this struct
  alone: methods of other objects (closing or discarding the database included), forks, Ruby. The
  flag tells whether an exception has left a \<open>close\<close> of the open statement, which is then an exception
  that a callback has thrown through \<open>sqlite3_finalize\<close>.
\<close>

inductive stmt_life ::
  "'e sqlite_lib \<Rightarrow> 'u rb_user \<Rightarrow> nat \<Rightarrow> ('e, 'u) world \<Rightarrow> sql_call list \<Rightarrow> bool \<Rightarrow> ('e, 'u) world \<Rightarrow> bool"
  for L U s w0 where
  start: "stmt_life L U s w0 [] False w0"
| usage: "stmt_life L U s w0 lg esc w \<Longrightarrow> m \<in> set (guarded_methods L U s a b) \<Longrightarrow> m w = (r, v) \<Longrightarrow>
    calls v = calls w @ cs \<Longrightarrow> stmt_life L U s w0 (lg @ cs) esc v"
| close: "stmt_life L U s w0 lg esc w \<Longrightarrow> statement_close L U s w = (r', v) \<Longrightarrow> calls v = calls w @ cs \<Longrightarrow>
    esc' = (esc \<or> s_st (stmts w s) \<noteq> None \<and> (\<exists>x. r' = Inl x)) \<Longrightarrow> stmt_life L U s w0 (lg @ cs) esc' v"
| others: "stmt_life L U s w0 lg esc w \<Longrightarrow> stmts v s = stmts w s \<Longrightarrow> stmt_life L U s w0 lg esc v"

inductive_cases stmt_lifeE: "stmt_life L U s w0 lg esc w"

text \<open>The invariant: the struct holds the handle exactly as long as it may be used.\<close>

definition stmt_inv :: "nat \<Rightarrow> sth \<Rightarrow> sql_call list \<Rightarrow> ('e, 'u) world \<Rightarrow> bool" where
  "stmt_inv s h lg w \<longleftrightarrow>
     s_st (stmts w s) = Some h \<and> handle_use h lg = Some True \<or>
     s_st (stmts w s) = None \<and> handle_use h lg = Some False"

definition using_handle :: "nat \<Rightarrow> sth \<Rightarrow> sql_call list \<Rightarrow> ('e, 'u) world \<Rightarrow> bool" where
  "using_handle s h c0 w \<longleftrightarrow>
     s_st (stmts w s) = Some h \<and> (\<exists>cs. calls w = c0 @ cs \<and> handle_use h cs = Some True)"

lemma using_handle_call:
  assumes "using_handle s h c0 w" and "next_use h (Some True) c = Some True"
  shows "using_handle s h c0 (w\<lparr>env := e, calls := calls w @ [c]\<rparr>)"
proof -
  obtain cs where "calls w = c0 @ cs" "handle_use h cs = Some True"
    using assms(1) by (auto simp: using_handle_def)
  with assms show ?thesis
    by (auto simp: using_handle_def intro!: exI [of _ "cs @ [c]"])
qed

interpretation usage: statement_frame "using_handle s h c0" s h for s h c0
  by unfold_locales (simp_all add: using_handle_call, auto simp: using_handle_def upd_defs)

lemma handle_use_append: "handle_use h (a @ b) = foldl (next_use h) (handle_use h a) b"
  by simp

lemma stmt_inv_usage:
  fixes w v :: "('e, 'u) world"
  assumes inv: "stmt_inv s h lg w" and m: "m \<in> set (guarded_methods L U s a b)"
    and run: "m w = (r, v)" and cs: "calls v = calls w @ cs"
  shows "stmt_inv s h (lg @ cs) v"
proof (cases "s_st (stmts w s)")
  case None
  then obtain x where "m w = (Inl x, w)" using guarded_cases [OF m, of w] by auto
  with run cs inv show ?thesis by simp
next
  case (Some g)
  with inv have g: "s_st (stmts w s) = Some h" "handle_use h lg = Some True"
    by (auto simp: stmt_inv_def)
  then have "using_handle s h (calls w) w" by (simp add: using_handle_def)
  from keepsE [OF usage.base.keeps_guarded [OF m] this run] cs g show ?thesis
    by (auto simp: stmt_inv_def using_handle_def)
qed

lemma stmt_inv_close:
  assumes inv: "stmt_inv s h lg w" and run: "statement_close L U s w = (r, v)" and cs: "calls v = calls w @ cs"
    and r: "s_st (stmts w s) = None \<or> (\<forall>x. r \<noteq> Inl x)"
  shows "stmt_inv s h (lg @ cs) v"
proof (cases "s_st (stmts w s)")
  case None
  with run cs inv show ?thesis by (simp add: statement_close_def open_stmt.guarded_closed)
next
  case (Some g)
  with inv have g: "s_st (stmts w s) = Some h" "handle_use h lg = Some True"
    by (auto simp: stmt_inv_def)
  then show ?thesis
    using run cs r by (cases rule: close_cases [OF g(1), of L U]) (auto simp: stmt_inv_def)
qed

text \<open>Before the first exception the invariant holds; the log up to and with the \<open>close\<close> that it left is in order.\<close>

definition escaped_log :: "sth \<Rightarrow> sql_call list \<Rightarrow> bool" where
  "escaped_log h lg \<longleftrightarrow> (\<exists>before after. lg = before @ StmtCall (Some h) Finalize # after \<and> handle_use h before = Some True)"

lemma escaped_log_append: "escaped_log h lg \<Longrightarrow> escaped_log h (lg @ cs)"
  unfolding escaped_log_def by (metis append.assoc append_Cons)

lemma stmt_life_inv:
  assumes "stmt_life L U s w0 lg esc w" and "s_st (stmts w0 s) = Some h"
  shows "if esc then escaped_log h lg else stmt_inv s h lg w"
  using assms
proof (induction rule: stmt_life.induct)
  case start
  then show ?case by (simp add: stmt_inv_def)
next
  case (usage lg esc w m a b r v cs)
  then show ?case
    using stmt_inv_usage [OF _ usage.hyps(2-4)] escaped_log_append [of h lg cs] by (auto split: if_splits)
next
  case (close lg esc w r' v cs esc')
  show ?case
  proof (cases "\<not> esc \<and> esc'")
    case True
    with close have g: "s_st (stmts w s) = Some h" "handle_use h lg = Some True" by (auto simp: stmt_inv_def)
    from close_calls [OF g(1), of L U] close.hyps(2,3) have "cs = [StmtCall (Some h) Finalize]" by simp
    with g(2) True show ?thesis unfolding escaped_log_def by auto
  next
    case False
    with close show ?thesis
      using stmt_inv_close [OF _ close.hyps(2,3), of h lg] escaped_log_append [of h lg cs] by (auto split: if_splits)
  qed
next
  case (others lg esc w v)
  then show ?case by (auto simp: stmt_inv_def)
qed

lemma deallocate_finalizes:
  assumes "stmt_inv s h lg w"
  shows "\<exists>r v cs. statement_deallocate L U s w = (r, v) \<and> calls v = calls w @ cs \<and> handle_use h (lg @ cs) = Some False"
proof (cases "s_st (stmts w s)")
  case None
  with assms show ?thesis by (simp add: stmt_inv_def statement_deallocate_def)
next
  case (Some g)
  with assms have g: "s_st (stmts w s) = Some h" "handle_use h lg = Some True" by (auto simp: stmt_inv_def)
  obtain r v where run: "sqlite_run (callback_handler L U) (l_run L) (StmtCall (Some h) Finalize) w = (r, v)" by force
  with structs_same_run [OF run] g show ?thesis
    by (cases r) (simp_all add: statement_deallocate_def structs_same_def)
qed

text \<open>C4: the life cycle of a statement, over any history of a prepared statement with any interference
  of the rest of the process. As long as no exception has left a \<open>close\<close> of it: its methods have
  called SQLite on its own handle only, never after the handle was finalized, and \<open>closed?\<close> tells
  whether it was; and when the collector releases the object, the handle has been finalized exactly
  once, by \<open>close\<close> or by the finalizer of the object, neither twice nor never. The condition is about
  a callback that throws an exception through \<open>sqlite3_finalize\<close> (an aggregate whose result cannot be
  converted does): then all this holds up to that \<open>close\<close>, but not after it, since the object keeps
  the handle.\<close>

theorem statement_life_safe:
  assumes "stmt_life L U s w0 lg escaped w" and "s_st (stmts w0 s) = Some h"
  shows "(\<not> escaped \<longrightarrow> handle_use h lg \<noteq> None \<and>
      statement_closed_p s w = (Inr (rb_bool (handle_use h lg = Some False)), w) \<and>
      (\<exists>r v cs. statement_deallocate L U s w = (r, v) \<and> calls v = calls w @ cs \<and>
        handle_use h (lg @ cs) = Some False)) \<and>
    (escaped \<longrightarrow> (\<exists>before after. lg = before @ StmtCall (Some h) Finalize # after \<and> handle_use h before = Some True))"
proof (cases escaped)
  case True
  with stmt_life_inv [OF assms] show ?thesis by (simp add: escaped_log_def)
next
  case False
  with stmt_life_inv [OF assms] have inv: "stmt_inv s h lg w" by simp
  with deallocate_finalizes [OF inv, of L U] False show ?thesis
    by (auto simp: stmt_inv_def statement_closed_p_def)
qed

theorem statement_life_safe_witness:
  "\<exists>lg (w :: (unit, unit) world). stmt_life sample_lib sample_user 1 stmt_world lg False w \<and>
    lg = [StmtCall (Some 9) Reset, StmtCall (Some 9) Finalize] \<and> handle_use 9 lg \<noteq> None \<and>
    statement_closed_p 1 w = (Inr RTrue, w)"
proof -
  let ?m = "bindM (reset_bang sample_lib sample_user 1) (\<lambda>_. ret ())"
  have "sqlite_run (callback_handler sample_lib sample_user) (l_run sample_lib) (StmtCall (Some 9) Reset)
      stmt_world = (Inr SQLITE_OK, stmt_world\<lparr>calls := calls stmt_world @ [StmtCall (Some 9) Reset]\<rparr>)"
    by (simp add: sqlite_run_def sample_lib_def)
  from reset_run [OF stmt_world_usable this]
  obtain v where v: "?m stmt_world = (Inr (), v)" "calls v = calls stmt_world @ [StmtCall (Some 9) Reset]"
      "s_st (stmts v 1) = Some 9"
    by (simp add: stmt_world_def)
  have "stmt_life sample_lib sample_user 1 stmt_world ([] @ [StmtCall (Some 9) Reset]) False v"
    by (rule stmt_life.usage [where m = ?m and a = RNil and b = RNil, OF stmt_life.start _ v(1,2)])
      (simp add: guarded_methods_def)
  moreover obtain w where w: "statement_close sample_lib sample_user 1 v = (Inr 1, w)"
      "calls w = calls v @ [StmtCall (Some 9) Finalize]"
    using v(3) by (auto simp: statement_close_def open_stmt.guarded_open sqlite_run_def sample_lib_def)
  moreover from v(2) w(2) have "calls w = calls v @ [StmtCall (Some 9) Finalize]" by simp
  ultimately have life: "stmt_life sample_lib sample_user 1 stmt_world
      [StmtCall (Some 9) Reset, StmtCall (Some 9) Finalize] False w"
    using stmt_life.close [of sample_lib sample_user 1 stmt_world "[StmtCall (Some 9) Reset]" False v "Inr 1" w
        "[StmtCall (Some 9) Finalize]" False] by simp
  have "s_st (stmts stmt_world 1) = Some 9" by (simp add: stmt_world_def)
  from statement_life_safe [OF life this] life show ?thesis by (auto simp: rb_bool_def)
qed

end
