(* ===== verification/Backup.thy ===== *)
theory Backup
  imports Database_Laws
begin

unbundle bit_operations_syntax

text \<open>
  \<open>ext/sqlite3/backup.c\<close>: the methods of \<open>SQLite3::Backup\<close>, which owns one
  \<open>sqlite3_backup\<close> handle between \<open>initialize\<close> and \<open>finish\<close>, and its life cycle.
\<close>

section \<open>The methods\<close>

definition backup_allocate :: "('e, 'u, nat) rb" where
  "backup_allocate =
     bindM fresh_ref (\<lambda>object.
     bindM (modM (upd_backup object (\<lambda>_. zero_sqlite3BackupRuby))) (\<lambda>_.
     ret object))"

text \<open>The arguments of \<open>sqlite3_backup_init\<close> are converted from left to right here.\<close>

definition backup_initialize ::
  "'e sqlite_lib \<Rightarrow> nat \<Rightarrow> nat \<Rightarrow> rb_value \<Rightarrow> nat \<Rightarrow> rb_value \<Rightarrow> ('e, 'u, nat) rb" where
  "backup_initialize L self dstdb dstname srcdb srcname =
     bindM (getM (\<lambda>w. d_db (dbs w dstdb))) (\<lambda>ddb.
     bindM (getM (\<lambda>w. d_db (dbs w srcdb))) (\<lambda>sdb.
     bindM (require (sdb \<noteq> None)
       (Raised (rb_error ArgumentError ''cannot backup from a closed database''))) (\<lambda>_.
     bindM (require (ddb \<noteq> None)
       (Raised (rb_error ArgumentError ''cannot backup to a closed database''))) (\<lambda>_.
     bindM (liftE (StringValue dstname)) (\<lambda>zDst.
     bindM (liftE (StringValue srcname)) (\<lambda>zSrc.
     bindM (sqlite_call (l_backup L) (Backup_init ddb (cstr zDst) sdb (cstr zSrc))) (\<lambda>pBackup.
     bindM (if pBackup \<noteq> None then modM (upd_backup self (\<lambda>b. b\<lparr>b_p := pBackup\<rparr>))
            else bindM (sqlite_call (l_int L) (DbCall ddb Errcode)) (\<lambda>status.
                 rb_sqlite3_raise L ddb status)) (\<lambda>_.
     ret self))))))))"

definition backup_step :: "'e sqlite_lib \<Rightarrow> 'u rb_user \<Rightarrow> nat \<Rightarrow> rb_value \<Rightarrow> ('e, 'u, rb_value) rb" where
  "backup_step L U self nPage =
     bindM (require_open_backup self) (\<lambda>p.
     bindM (liftE (NUM2INT nPage)) (\<lambda>n.
     bindM (sqlite_run (callback_handler L U) (l_run L) (BackupCall p (Backup_step n))) (\<lambda>status.
     ret (INT2NUM status))))"

definition backup_finish :: "'e sqlite_lib \<Rightarrow> nat \<Rightarrow> ('e, 'u, rb_value) rb" where
  "backup_finish L self =
     bindM (require_open_backup self) (\<lambda>p.
     bindM (sqlite_call (l_int L) (BackupCall p Backup_finish)) (\<lambda>_.
     bindM (modM (upd_backup self (\<lambda>b. b\<lparr>b_p := None\<rparr>))) (\<lambda>_.
     ret RNil)))"

definition backup_remaining :: "'e sqlite_lib \<Rightarrow> nat \<Rightarrow> ('e, 'u, rb_value) rb" where
  "backup_remaining L self =
     bindM (require_open_backup self) (\<lambda>p.
     bindM (sqlite_call (l_int L) (BackupCall p Backup_remaining)) (\<lambda>n. ret (INT2NUM n)))"

definition backup_pagecount :: "'e sqlite_lib \<Rightarrow> nat \<Rightarrow> ('e, 'u, rb_value) rb" where
  "backup_pagecount L self =
     bindM (require_open_backup self) (\<lambda>p.
     bindM (sqlite_call (l_int L) (BackupCall p Backup_pagecount)) (\<lambda>n. ret (INT2NUM n)))"

text \<open>The object's finalizer only frees the struct (\<open>RUBY_TYPED_DEFAULT_FREE\<close>).\<close>

definition backup_deallocate :: "nat \<Rightarrow> ('e, 'u, unit) rb" where
  "backup_deallocate self = ret ()"

section \<open>The life cycle\<close>

text \<open>
  The life of one Backup object after its allocation: the calls of its methods, with any
  arguments and outcomes, on databases \<open>dst\<close> and \<open>src\<close>, and its finalizer at the end.
\<close>

datatype backup_method =
    B_initialize rb_value rb_value | B_step rb_value | B_finish | B_remaining | B_pagecount

fun call_backup :: "'e sqlite_lib \<Rightarrow> 'u rb_user \<Rightarrow> nat \<Rightarrow> nat \<Rightarrow> nat \<Rightarrow> backup_method \<Rightarrow> ('e, 'u, unit) rb" where
  "call_backup L U s dst src (B_initialize a b) = bindM (backup_initialize L s dst a src b) (\<lambda>_. ret ())"
| "call_backup L U s dst src (B_step n) = bindM (backup_step L U s n) (\<lambda>_. ret ())"
| "call_backup L U s dst src B_finish = bindM (backup_finish L s) (\<lambda>_. ret ())"
| "call_backup L U s dst src B_remaining = bindM (backup_remaining L s) (\<lambda>_. ret ())"
| "call_backup L U s dst src B_pagecount = bindM (backup_pagecount L s) (\<lambda>_. ret ())"

inductive backup_life ::
  "'e sqlite_lib \<Rightarrow> 'u rb_user \<Rightarrow> nat \<Rightarrow> nat \<Rightarrow> nat \<Rightarrow> ('e, 'u) world \<Rightarrow> ('e, 'u) world \<Rightarrow> bool"
  for L U s dst src w0 where
  start: "backup_life L U s dst src w0 w0"
| call: "backup_life L U s dst src w0 w \<Longrightarrow> call_backup L U s dst src m w = (r, v) \<Longrightarrow>
    backup_life L U s dst src w0 v"

inductive_cases backup_lifeE: "backup_life L U s dst src w0 w"

text \<open>
  The protocol of the library: a backup is stepped, asked and finished only between a
  \<open>sqlite3_backup_init\<close> and the \<open>sqlite3_backup_finish\<close> that ends it. \<open>next_phase\<close> reads one call in
  the state \<open>Some started\<close>; \<open>None\<close> is a violation.
\<close>

fun next_phase :: "bool option \<Rightarrow> sql_call \<Rightarrow> bool option" where
  "next_phase None c = None"
| "next_phase (Some started) (Backup_init a b c d) = Some True"
| "next_phase (Some started) (BackupCall p Backup_finish) = (if started then Some False else None)"
| "next_phase (Some started) (BackupCall p op) = (if started then Some started else None)"
| "next_phase (Some started) c = Some started"

definition phase :: "('e, 'u) world \<Rightarrow> bool option" where
  "phase w = foldl next_phase (Some False) (calls w)"

definition backup_inv :: "nat \<Rightarrow> ('e, 'u) world \<Rightarrow> bool" where
  "backup_inv s w \<longleftrightarrow> no_null w \<and> phase w \<noteq> None \<and> (b_p (backups w s) \<noteq> None \<longrightarrow> phase w = Some True)"

lemma phase_simps [simp]:
  "phase (w\<lparr>env := e, calls := calls w @ [c]\<rparr>) = next_phase (phase w) c"
  "phase (w\<lparr>calls := calls w @ [c]\<rparr>) = next_phase (phase w) c"
  "phase (upd_backup s f w) = phase w"
  by (simp_all add: phase_def)

fun backup_call :: "sql_call \<Rightarrow> bool" where
  "backup_call (BackupCall p op) \<longleftrightarrow> True"
| "backup_call (Backup_init a b c d) \<longleftrightarrow> True"
| "backup_call _ \<longleftrightarrow> False"

lemma next_phase_other: "\<not> backup_call c \<Longrightarrow> next_phase x c = x"
  by (cases x; cases c) simp_all

lemma next_phase_use: "op \<noteq> Backup_finish \<Longrightarrow> next_phase (Some True) (BackupCall p op) = Some True"
  by (cases op) simp_all

interpretation backups: callback_frame "backup_inv s" for s
  by unfold_locales (simp_all add: backup_inv_def no_null_def phase_def upd_defs)

lemma allows_backup: "\<not> null_call c \<Longrightarrow> \<not> backup_call c \<Longrightarrow> allows (backup_inv s) c"
  by (auto simp: allows_def backup_inv_def no_null_def next_phase_other)

lemma backup_inv_use:
  "backup_inv s w \<Longrightarrow> b_p (backups w s) \<noteq> None \<Longrightarrow> op \<noteq> Backup_finish \<Longrightarrow>
     backup_inv s (w\<lparr>env := e, calls := calls w @ [BackupCall (Some p) op]\<rparr>)"
  by (simp add: backup_inv_def no_null_def next_phase_use)

lemma keeps_backup_query:
  assumes "op \<noteq> Backup_finish"
  shows "keeps (backup_inv s :: ('e, 'u) world \<Rightarrow> bool) (bindM (require_open_backup s)
    (\<lambda>p. bindM (sqlite_call f (BackupCall p op)) (\<lambda>n. ret (INT2NUM n))))"
proof (rule keepsI)
  fix w :: "('e, 'u) world" assume inv: "backup_inv s w"
  then show "backup_inv s (snd (bindM (require_open_backup s)
      (\<lambda>p. bindM (sqlite_call f (BackupCall p op)) (\<lambda>n. ret (INT2NUM n))) w))"
    using backup_inv_use [OF inv _ assms]
    by (cases "b_p (backups w s)")
      (simp_all add: open_backup.guarded_closed open_backup.guarded_open sqlite_call_returns)
qed

lemma keeps_backup_queries:
  "keeps (backup_inv s) (backup_remaining L s)" "keeps (backup_inv s) (backup_pagecount L s)"
  unfolding backup_remaining_def backup_pagecount_def by (rule keeps_backup_query; simp)+

lemma snd_bindM_ret: "snd (bindM m (\<lambda>x. ret (f x)) w) = snd (m w)"
  by (simp add: bindM_def ret_def split: prod.split sum.split)

lemma keeps_backup_step: "keeps (backup_inv s) (backup_step L U s n)"
proof (rule keepsI)
  fix w :: "('a, 'b) world" assume inv: "backup_inv s w"
  show "backup_inv s (snd (backup_step L U s n w))"
  proof (cases "b_p (backups w s)"; cases "NUM2INT n")
    fix h k assume h: "b_p (backups w s) = Some h" and k: "NUM2INT n = Inr k"
    have "backup_inv s (w\<lparr>calls := calls w @ [BackupCall (Some h) (Backup_step k)]\<rparr>)"
      using backup_inv_use [OF inv, where op = "Backup_step k" and e = "env w" and p = h] h by simp
    then have "backup_inv s (snd (sqlite_run (callback_handler L U) (l_run L) (BackupCall (Some h) (Backup_step k)) w))"
      using keepsD [OF backups.exec_run_keeps] by (simp add: sqlite_run_def)
    then show ?thesis
      by (simp add: backup_step_def open_backup.guarded_open h k snd_bindM_ret)
  qed (simp_all add: backup_step_def open_backup.guarded_closed open_backup.guarded_open inv)
qed

lemma keeps_backup_finish: "keeps (backup_inv s) (backup_finish L s)"
proof (rule keepsI)
  fix w :: "('a, 'b) world" assume inv: "backup_inv s w"
  then show "backup_inv s (snd (backup_finish L s w))"
    by (cases "b_p (backups w s)")
      (simp_all add: backup_finish_def open_backup.guarded_closed open_backup.guarded_open
        sqlite_call_returns backup_inv_def no_null_def)
qed

lemma keeps_backup_initialize: "keeps (backup_inv s) (backup_initialize L s dst a src b)"
proof (rule keepsI)
  fix w :: "('a, 'b) world" assume inv: "backup_inv s w"
  show "backup_inv s (snd (backup_initialize L s dst a src b w))"
  proof (cases "d_db (dbs w dst)"; cases "d_db (dbs w src)")
    fix d e assume d: "d_db (dbs w dst) = Some d" and e: "d_db (dbs w src) = Some e"
    have "keeps (backup_inv s) (bindM (sqlite_call (l_int L) (DbCall (Some d) Errcode)) (\<lambda>status.
        rb_sqlite3_raise L (Some d) status))"
      by (intro keeps_bindM keeps_sqlite_call keeps_rb_sqlite3_raise allows_backup) simp_all
    note err = keepsD [OF this]
    show ?thesis
    proof (cases "StringValue a"; cases "StringValue b")
      fix za zb assume "StringValue a = Inr za" "StringValue b = Inr zb"
      moreover define c where "c = Backup_init (Some d) (cstr za) (Some e) (cstr zb)"
      moreover obtain p e' where p: "l_backup L c (env w) = (p, e')" by fastforce
      moreover have "backup_inv s (w\<lparr>env := e', calls := calls w @ [c]\<rparr>)"
        using inv by (auto simp: c_def backup_inv_def no_null_def)
      moreover have "backup_inv s (upd_backup s (\<lambda>x. x\<lparr>b_p := p\<rparr>) (w\<lparr>env := e', calls := calls w @ [c]\<rparr>))"
        using inv by (auto simp: c_def backup_inv_def no_null_def)
      ultimately show ?thesis
        using err [of "w\<lparr>env := e', calls := calls w @ [c]\<rparr>"]
        by (auto simp: backup_initialize_def d e sqlite_call_returns bindM_def [of "if _ then _ else _"]
            split: prod.split sum.split)
    qed (simp_all add: backup_initialize_def d e inv)
  qed (simp_all add: backup_initialize_def inv)
qed

lemma keeps_call_backup: "keeps (backup_inv s) (call_backup L U s dst src m)"
  by (cases m) (simp_all add: keeps_bindM keeps_backup_initialize keeps_backup_queries keeps_backup_step
      keeps_backup_finish)

text \<open>C37: the life cycle of a backup. Over any sequence of calls of its methods, in any order and
  with any outcome, no call on a NULL backup or connection reaches SQLite, and the calls follow
  the protocol of the library: nothing is stepped, asked or finished before a
  \<open>sqlite3_backup_init\<close>, nor after a \<open>sqlite3_backup_finish\<close> until the next one. So no handle is
  finished twice or used after it was finished.\<close>

theorem backup_life_safe:
  assumes "backup_life L U s dst src w0 w" and "b_p (backups w0 s) = None" and "calls w0 = []"
  shows "(\<forall>c \<in> set (calls w). \<not> null_call c) \<and> foldl next_phase (Some False) (calls w) \<noteq> None \<and>
    (b_p (backups w s) \<noteq> None \<longrightarrow> foldl next_phase (Some False) (calls w) = Some True)"
proof -
  have "backup_inv s w0"
    using assms(2,3) by (simp add: backup_inv_def no_null_def phase_def)
  with assms(1) have "backup_inv s w"
    by (induction rule: backup_life.induct) (auto intro: keepsE [OF keeps_call_backup])
  then show ?thesis by (auto simp: backup_inv_def no_null_def phase_def)
qed

theorem backup_life_safe_witness:
  "\<exists>w :: (unit, unit) world. calls w = [Backup_init (Some 7) ''main'' (Some 7) ''main'', BackupCall (Some 5) Backup_finish] \<and>
    foldl next_phase (Some False) (calls w) \<noteq> None \<and> b_p (backups w 0) = None"
proof -
  let ?w0 = "upd_db 2 (\<lambda>d. d\<lparr>d_db := Some 7\<rparr>) (upd_db 1 (\<lambda>d. d\<lparr>d_db := Some 7\<rparr>) sample_world)"
  let ?m = "RString False UTF_8 ''main'' False"
  let ?call = "call_backup sample_lib sample_user 0 1 2"
  obtain v where v: "?call (B_initialize ?m ?m) ?w0 = (Inr (), v)" "b_p (backups v 0) = Some 5"
      "calls v = [Backup_init (Some 7) ''main'' (Some 7) ''main'']"
    by (simp add: backup_initialize_def sqlite_call_returns StringValue_def cstr_def nul_def sample_defs)
  obtain u where u: "?call B_finish v = (Inr (), u)" "b_p (backups u 0) = None"
      "calls u = [Backup_init (Some 7) ''main'' (Some 7) ''main'', BackupCall (Some 5) Backup_finish]"
    using v by (simp add: backup_finish_def open_backup.guarded_open sqlite_call_returns)
  have "backup_life sample_lib sample_user 0 1 2 ?w0 u"
    by (rule backup_life.call [OF backup_life.call [OF backup_life.start v(1)] u(1)])
  moreover have "b_p (backups ?w0 0) = None" "calls ?w0 = []"
    by (simp_all add: sample_defs)
  ultimately have "foldl next_phase (Some False) (calls u) \<noteq> None"
    using backup_life_safe by blast
  with u show ?thesis by (intro exI [of _ u]) simp
qed

text \<open>Starting a backup. Both databases must be open, the source is checked first; on success
  the object holds the handle; when SQLite returns NULL the exception of the destination's
  error code is raised. A second \<open>initialize\<close> overwrites the first handle, which nothing finishes.\<close>

lemma backup_initialize_spec:
  assumes "StringValue a = Inr za" and "StringValue b = Inr zb"
  shows "(case (d_db (dbs w src), d_db (dbs w dst)) of
      (None, _) \<Rightarrow> backup_initialize L s dst a src b w =
        (Inl (Raised (rb_error ArgumentError ''cannot backup from a closed database'')), w)
    | (Some e, None) \<Rightarrow> backup_initialize L s dst a src b w =
        (Inl (Raised (rb_error ArgumentError ''cannot backup to a closed database'')), w)
    | (Some e, Some d) \<Rightarrow>
        (let c = Backup_init (Some d) (cstr za) (Some e) (cstr zb) in
         case l_backup L c (env w) of
           (Some p, e') \<Rightarrow> backup_initialize L s dst a src b w =
             (Inr s, upd_backup s (\<lambda>x. x\<lparr>b_p := Some p\<rparr>) (w\<lparr>env := e', calls := calls w @ [c]\<rparr>))
         | (None, e') \<Rightarrow>
             (case l_int L (DbCall (Some d) Errcode) e' of (status, e2) \<Rightarrow>
               fst (backup_initialize L s dst a src b w) =
                 (case status2klass status of
                    None \<Rightarrow> Inr s
                  | Some k \<Rightarrow>
                      (case fst (l_text L (DbCall (Some d) Errmsg) e2) of
                         None \<Rightarrow> Inl (Raised (rb_error ArgumentError ''NULL pointer given''))
                       | Some m \<Rightarrow> Inl (Raised (Exn k (cstr m) (Some (sint status)) None None)))))))"
  using assms
  by (auto simp: backup_initialize_def sqlite_call_returns rb_sqlite3_raise_def rb_exc_new2_def
      bindM_def Let_def split: option.splits prod.splits)

end
