(* ===== verification/Process.thy ===== *)
theory Process
  imports Opening Statement_Life Backup
begin

unbundle bit_operations_syntax

text \<open>
  Everything that one process does with the objects of the extension, as one relation, and the
  contract of an invariant that all of it keeps. An invariant that only has to allow the calls
  to SQLite and the writes of the methods is carried through each of them by the locale
  \<open>object_base\<close>, and through any activity of the process by \<open>activity_base\<close>.
\<close>

section \<open>The contract of one object\<close>

locale object_base = call_base I L U
  for I :: "('e, 'u) world \<Rightarrow> bool" and L :: "'e sqlite_lib" and U :: "'u rb_user" +
  assumes any_call: "I w \<Longrightarrow> I (w\<lparr>env := e, calls := calls w @ [c]\<rparr>)"
    and stmt_field: "I w \<Longrightarrow> I (upd_stmt s g w)"
    and backup_field: "I w \<Longrightarrow> I (upd_backup s j w)"
    and errinfo_field: "I w \<Longrightarrow> I (w\<lparr>errinfo := x\<rparr>)"
    and new_ref: "I w \<Longrightarrow> I (w\<lparr>next_ref := Suc (next_ref w)\<rparr>)"
    and handle_field: "(\<And>d. d_owner (k d) = d_owner d \<and> d_functions (k d) = d_functions d \<and>
          d_aggregators (k d) = d_aggregators d \<and>
          d_flags (k d) AND SQLITE3_RB_DATABASE_READONLY = d_flags d AND SQLITE3_RB_DATABASE_READONLY) \<Longrightarrow>
        I w \<Longrightarrow> I (upd_db s k w)"
    and any_run: "keeps I (sqlite_run (callback_handler L U) (l_run L) c)"
    and any_prepare: "keeps I (sqlite_run (callback_handler L U) (l_prepare L) c)"
begin

lemma allows_any: "allows I c"
  by (simp add: allows_def any_call)

lemma keeps_fields:
  "keeps I (modM (upd_stmt s g))" "keeps I (modM (upd_backup s j))"
  "keeps I (modM (upd_db s (\<lambda>d. d\<lparr>d_db := z\<rparr>)))" "keeps I (modM (upd_db s (\<lambda>d. d\<lparr>d_stmt_deadline := t\<rparr>)))"
  "keeps I (modM (upd_db s (\<lambda>d. d\<lparr>d_db := None, d_flags := d_flags d OR SQLITE3_RB_DATABASE_DISCARDED\<rparr>)))"
  by (intro keeps_modM stmt_field backup_field handle_field; simp add: readonly_discarded)+

lemma keeps_close: "keeps I (discard_db L s)" "keeps I (close_or_discard_db L s)"
  by (rule keeps_close_or_discard [OF allows_any]; rule handle_field; simp add: readonly_discarded)+

lemma keeps_closing:
  "keeps I (database_close L s)" "keeps I (database_discard L s)" "keeps I (database_deallocate L s)"
  unfolding database_close_def database_discard_def database_deallocate_def
  by (intro keeps_bindM keeps_ret keeps_close)+

lemma keeps_statement:
  "keeps I (prepare L U s db sql)" "keeps I (statement_close L U s)" "keeps I (statement_deallocate L U s)"
  unfolding prepare_def statement_close_def statement_deallocate_def require_open_stmt_def
  by (intro keeps_ret keeps_bindM keeps_if keeps_case_prod keeps_getM keeps_require keeps_liftE any_run any_prepare
      keeps_fields keeps_rb_sqlite3_raise_with_sql allows_any)+

lemma statement_contract: "statement_base (\<lambda>w. I w \<and> s_st (stmts w s) = Some h) s h L U"
proof unfold_locales
  fix op
  have "keeps (\<lambda>w :: ('e, 'u) world. s_st (stmts w s) = Some h) (sqlite_run (callback_handler L U) (l_run L) (StmtCall (Some h) op))"
  proof (rule keepsI)
    fix w :: "('e, 'u) world" assume "s_st (stmts w s) = Some h"
    then show "s_st (stmts (snd (sqlite_run (callback_handler L U) (l_run L) (StmtCall (Some h) op) w)) s) = Some h"
      using structs_same_run [of L U "l_run L" "StmtCall (Some h) op" w, OF surjective_pairing]
      by (simp add: structs_same_def)
  qed
  with any_run show "keeps (\<lambda>w. I w \<and> s_st (stmts w s) = Some h)
      (sqlite_run (callback_handler L U) (l_run L) (StmtCall (Some h) op))"
    by (intro keeps_conj)
qed (simp_all add: any_call stmt_field errinfo_field)

lemma keeps_guarded:
  assumes "m \<in> set (guarded_methods L U s a b)"
  shows "keeps I m"
proof (rule keepsI)
  fix w assume "I w"
  then show "I (snd (m w))"
    using guarded_cases [OF assms, of w] keepsD [OF statement_base.keeps_guarded [OF statement_contract assms]] by fastforce
qed

lemma keeps_backup: "keeps I (call_backup L U s dst src bm)"
  by (cases bm) (auto simp: backup_initialize_def backup_step_def backup_finish_def backup_remaining_def
      backup_pagecount_def require_open_backup_def
      intro!: keeps_bindM keeps_getM keeps_require keeps_liftE keeps_ret keeps_sqlite_call
        any_run keeps_fields keeps_if keeps_rb_sqlite3_raise allows_any)

lemma keeps_allocate: "keeps I statement_allocate" "keeps I backup_allocate"
  unfolding statement_allocate_def backup_allocate_def
  by (intro keeps_bindM keeps_ret keeps_fields keepsI; simp add: fresh_ref_def new_ref)+

end

section \<open>The activity of a process\<close>

text \<open>
  What the methods and the finalizers do to objects that exist, with any outcome: the methods of
  a Database, among them closing and discarding, those of Statements and of Backups and the
  allocation of these, and Ruby code on its own objects.
\<close>

inductive object_step :: "'e sqlite_lib \<Rightarrow> 'u rb_user \<Rightarrow> ('e, 'u) world \<Rightarrow> ('e, 'u) world \<Rightarrow> bool"
  for L U where
  database: "call_method L U s m w = (r, v) \<Longrightarrow> object_step L U w v"
| close: "database_close L s w = (r', v) \<Longrightarrow> object_step L U w v"
| discard: "database_discard L s w = (r', v) \<Longrightarrow> object_step L U w v"
| deallocate: "database_deallocate L s w = (r, v) \<Longrightarrow> object_step L U w v"
| new_statement: "statement_allocate w = (r', v) \<Longrightarrow> object_step L U w v"
| prepare: "prepare L U s db sql w = (r3, v) \<Longrightarrow> object_step L U w v"
| statement: "m \<in> set (guarded_methods L U s a b) \<Longrightarrow> m w = (r, v) \<Longrightarrow> object_step L U w v"
| finalize: "statement_close L U s w = (r', v) \<Longrightarrow> object_step L U w v"
| collect: "statement_deallocate L U s w = (r, v) \<Longrightarrow> object_step L U w v"
| new_backup: "backup_allocate w = (r', v) \<Longrightarrow> object_step L U w v"
| backup: "call_backup L U s dst src bm w = (r, v) \<Longrightarrow> object_step L U w v"
| ruby: "object_step L U w (w\<lparr>usr := u\<rparr>)"

text \<open>A process also makes Databases, opens them again and forks.\<close>

inductive activity :: "'e sqlite_lib \<Rightarrow> 'u rb_user \<Rightarrow> ('e, 'u) world \<Rightarrow> ('e, 'u) world \<Rightarrow> bool"
  for L U w0 where
  start: "activity L U w0 w0"
| new_database: "activity L U w0 w \<Longrightarrow> database_new L U databases path options zvfs w = (r0, v) \<Longrightarrow> activity L U w0 v"
| open_v2: "activity L U w0 w \<Longrightarrow> rb_sqlite3_open_v2 L s path mode zvfs w = (r', v) \<Longrightarrow> activity L U w0 v"
| open16: "activity L U w0 w \<Longrightarrow> rb_sqlite3_open16 L s path w = (r'', v) \<Longrightarrow> activity L U w0 v"
| step: "activity L U w0 w \<Longrightarrow> object_step L U w v \<Longrightarrow> activity L U w0 v"
| fork: "activity L U w0 w \<Longrightarrow> activity L U w0 (w\<lparr>pid := p\<rparr>)"

context object_base
begin

lemma object_step_keeps:
  assumes "object_step L U w v" and "I w"
  shows "I v"
  using assms
proof (cases rule: object_step.cases)
  case (statement m s a b r)
  with assms(2) show ?thesis using keepsE [OF keeps_guarded] by blast
qed (use assms(2) in \<open>auto simp: user intro: keepsE [OF keeps_call_method]
    keepsE [OF keeps_closing(1)] keepsE [OF keeps_closing(2)] keepsE [OF keeps_closing(3)]
    keepsE [OF keeps_statement(1)] keepsE [OF keeps_statement(2)] keepsE [OF keeps_statement(3)]
    keepsE [OF keeps_allocate(1)] keepsE [OF keeps_allocate(2)] keepsE [OF keeps_backup]\<close>)

end

section \<open>The contract of a process\<close>

locale activity_base = object_base I L U
  for I :: "('e, 'u) world \<Rightarrow> bool" and L :: "'e sqlite_lib" and U :: "'u rb_user" +
  assumes open_field: "(\<And>d. d_owner (k d) = d_owner d \<and> d_functions (k d) = d_functions d \<and>
          d_aggregators (k d) = d_aggregators d) \<Longrightarrow> I w \<Longrightarrow> I (upd_db s k w)"
    and pid_field: "I w \<Longrightarrow> I (w\<lparr>pid := p\<rparr>)"
    and new_object: "I w \<Longrightarrow> I (allocated w)"
    and set_collations: "I w \<Longrightarrow> I (upd_ivars s (\<lambda>i. i\<lparr>iv_collations := r\<rparr>) w)"
    and new_functions: "I w \<Longrightarrow> iv_functions (ivars w s) = None \<Longrightarrow>
        I (upd_ivars s (\<lambda>i. i\<lparr>iv_functions := Some (next_ref w)\<rparr>) (new_array w))"
    and set_rows: "I w \<Longrightarrow> I (upd_ivars s (\<lambda>i. i\<lparr>iv_results_as_hash := x\<rparr>) w)"
begin

lemma opening_contract: "opening_base (\<lambda>w. I w \<and> iv_functions (ivars w s) = None) s"
  by unfold_locales (simp_all add: user any_call open_field)

lemma opening_contract_any: "opening_base I s"
  by unfold_locales (simp_all add: user any_call open_field)

lemma keeps_extensions: "keeps I (initialize_extensions L U s exts)"
  unfolding initialize_extensions_def load_extension_def extension_path_def
  by (auto split: rb_value.split list.split intro!: keeps_intros keeps_rb_funcall user keeps_registrations)

lemma ivars_initialized:
  assumes "I w" and "iv_functions (ivars w s) = None"
  shows "I (snd (init_ivars s h w))"
proof -
  let ?r = "next_ref w" and ?w = "w\<lparr>next_ref := Suc (next_ref w)\<rparr>"
  let ?v = "upd_ivars s (\<lambda>i. i\<lparr>iv_collations := Some ?r\<rparr>) (upd_hash ?r (\<lambda>_. []) ?w)"
  have "I ?v" by (intro set_collations hash new_ref assms(1))
  moreover have "iv_functions (ivars ?v s) = None" using assms(2) by simp
  ultimately show ?thesis
    using set_rows [OF new_functions [of ?v s], of s h] by (simp add: init_ivars_def fresh_ref_def rb_ary_new_def bindM_def)
qed

lemma keeps_database_new: "keeps I (database_new L U databases path options zvfs)"
proof (rule keepsI)
  fix w assume "I w"
  let ?s = "next_ref w" and ?J = "\<lambda>v. I v \<and> iv_functions (ivars v (next_ref w)) = None"
  define rest where "rest mode = bindM (init_ivars ?s (option_value options ''results_as_hash'')) (\<lambda>_. bindM (liftE (mode_readonly mode)) (\<lambda>readonly.
     bindM (initialize_extensions L U ?s (option_value options ''extensions'')) (\<lambda>_.
     ret \<lparr>at_readonly = readonly,
          at_default_transaction_mode = (let m = option_value options ''default_transaction_mode''
             in if RTEST m then m else RSymbol ''deferred'')\<rparr>)))" for mode
  have rest: "I (snd (rest mode v))" if "?J v" for mode v
    unfolding rest_def
    by (rule bindM_keeps) (use that in \<open>auto intro!: ivars_initialized keeps_bindM keeps_liftE keeps_ret keeps_extensions\<close>)
  have start: "?J (allocated w)"
    using new_object [OF \<open>I w\<close>] by (simp add: allocated_def no_ivars_def)
  have opened: "?J (snd (open_connection L U ?s path options zvfs (allocated w)))"
    by (rule keepsD [OF opening_base.keeps_open_connection [OF opening_contract] start])
  have "I (snd (database_initialize L U ?s path options zvfs (allocated w)))"
    using opened rest
    by (cases "open_connection L U ?s path options zvfs (allocated w)"; cases "fst (open_connection L U ?s path options zvfs (allocated w))")
      (auto simp: database_initialize_def rest_def)
  then show "I (snd (database_new L U databases path options zvfs w))"
    by (simp add: database_new_run snd_bindM_ret del: ret_run)
qed

lemma activity_keeps:
  assumes "activity L U w0 w" and "I w0"
  shows "I w"
  using assms
  by (induction rule: activity.induct)
    (auto simp: pid_field intro: object_step_keeps keepsE [OF keeps_database_new]
      keepsE [OF opening_base.keeps_opens(1) [OF opening_contract_any]]
      keepsE [OF opening_base.keeps_opens(2) [OF opening_contract_any]])

end

section \<open>A concrete process\<close>

text \<open>A process with the one Database that \<open>Database.new("f")\<close> makes.\<close>

definition one_database :: "(unit, unit) world" where
  "one_database = snd (database_new sample_lib sample_user [] (RString False UTF_8 ''f'' False) [] RNil sample_world)"

lemma one_database_run:
  "l_open L = l_open sample_lib \<Longrightarrow> \<not> u_respond_to U (RString False UTF_8 ''f'' False) ''to_path'' \<Longrightarrow>
   database_new L U [] (RString False UTF_8 ''f'' False) [] RNil sample_world =
     (Inr (0, \<lparr>at_readonly = False, at_default_transaction_mode = RSymbol ''deferred''\<rparr>, [0]),
      one_database)"
  "d_db (dbs one_database 0) = Some 7" "d_owner (dbs one_database 0) = 1" "pid one_database = 1" "d_flags (dbs one_database 0) = 0"
  "iv_functions (ivars one_database 0) = Some 2" "iv_aggregators (ivars one_database 0) = None"
  "next_ref one_database = 3" "calls one_database = [Open_v2 ''f'' 6 None]" "errinfo one_database = None"
  "arys one_database = (\<lambda>_. [])" "aggmem one_database = (\<lambda>_. None)" "instances (aws one_database a) = None"
  by (simp_all add: one_database_def database_new_run allocated_def database_initialize_def open_connection_def
      file_path_def option_value_def RTEST_def utf16_name_def open_mode_def encode_name_def rb_str_encode_utf8_def
      rb_sqlite3_open_v2_def require_closed_db_def check_opened_def sqlite_call_returns int_in_range_def int_fits_def
      StringValueCStr_def StringValue_def nul_def NIL_P_def init_ivars_def fresh_ref_def rb_ary_new_def mode_readonly_def
      initialize_extensions_def OPEN_READONLY_def OPEN_READWRITE_def OPEN_CREATE_def no_ivars_def bindM_def
      sample_defs upd_defs fun_eq_iff)

end
