(* ===== verification/Gc_Persistence.thy ===== *)
theory Gc_Persistence
  imports Gc_Marking Process
begin

text \<open>
  What a Database keeps alive it keeps alive: the functions and aggregator wrappers that it marks
  stay marked over every method of every Database and Statement, whatever they do and however
  they end. Together with the registration (\<open>Gc_Marking\<close>) SQLite never holds an object of
  these kinds that the collector may free or move.
\<close>

section \<open>Arrays that only grow\<close>

text \<open>
  The struct's arrays are those of the instance variables, once they are set, and these exist.
  \<open>Database#initialize\<close> makes the array of the functions; nothing replaces it.
\<close>

definition linked :: "('e, 'u) world \<Rightarrow> bool" where
  "linked w \<longleftrightarrow>
     (\<forall>s. d_functions (dbs w s) \<in> {None, iv_functions (ivars w s)} \<and>
          d_aggregators (dbs w s) \<in> {None, iv_aggregators (ivars w s)} \<and>
          (\<forall>r. iv_functions (ivars w s) = Some r \<or> iv_aggregators (ivars w s) = Some r \<longrightarrow> r < next_ref w))"

definition is_inst :: "rb_value \<Rightarrow> bool" where
  "is_inst v \<longleftrightarrow> (\<exists>i. v = RInst i)"

definition stays :: "'a option \<Rightarrow> 'a option \<Rightarrow> bool" where
  "stays a b \<longleftrightarrow> a = None \<or> b = a"

definition present :: "'a option \<Rightarrow> 'a option \<Rightarrow> bool" where
  "present a b \<longleftrightarrow> a = None \<or> b \<noteq> None"

lemma stays_simps [simp]: "stays a a" "stays a None = (a = None)" "stays None b"
  by (auto simp: stays_def)

lemma stays_trans_None: "stays a b \<Longrightarrow> b = None \<Longrightarrow> stays a c"
  by (auto simp: stays_def)

lemma present_simps [simp]: "present a a" "present a (Some x)" "present None b"
  by (auto simp: present_def)

text \<open>What is compared is what existed: objects and arrays are numbered in the order of their allocation.\<close>

definition grown :: "('e, 'u) world \<Rightarrow> ('e, 'u) world \<Rightarrow> bool" where
  "grown w0 w \<longleftrightarrow>
     next_ref w0 \<le> next_ref w \<and>
     (\<forall>r < next_ref w0. \<forall>x \<in> set (arys w0 r). is_inst x \<or> x \<in> set (arys w r)) \<and>
     (\<forall>s < next_ref w0. stays (iv_functions (ivars w0 s)) (iv_functions (ivars w s)) \<and>
        stays (iv_aggregators (ivars w0 s)) (iv_aggregators (ivars w s)) \<and>
        present (d_functions (dbs w0 s)) (d_functions (dbs w s)) \<and>
        present (d_aggregators (dbs w0 s)) (d_aggregators (dbs w s)))"

definition pinning :: "('e, 'u) world \<Rightarrow> ('e, 'u) world \<Rightarrow> bool" where
  "pinning w0 w \<longleftrightarrow> linked w \<and> grown w0 w"

lemma pinning_refl: "linked w \<Longrightarrow> pinning w w"
  by (simp add: pinning_def grown_def)

text \<open>Every method keeps this: it is an instance of the frames of both classes.\<close>

interpretation pinning: call_frame "pinning w0" for w0
  by unfold_locales (auto simp: pinning_def linked_def grown_def is_inst_def upd_defs less_Suc_eq
      intro: stays_trans_None)

text \<open>So does whatever else happens in the process.\<close>

interpretation pinning_process: activity_base "pinning w0" L U for w0 L U
proof unfold_locales
  show "keeps (pinning w0) (sqlite_run (callback_handler L U) (l_run L) c)"
    "keeps (pinning w0) (sqlite_run (callback_handler L U) (l_prepare L) c)" for c
    by (rule pinning.sqlite_run_keeps; simp add: pinning_def linked_def grown_def)+
qed (auto simp: pinning_def linked_def grown_def is_inst_def upd_defs allocated_def no_ivars_def zero_sqlite3Ruby_def
    less_Suc_eq intro: stays_trans_None)

section \<open>Registered for life\<close>

text \<open>A process that has not made an object of the extension yet.\<close>

definition pristine :: "('e, 'u) world \<Rightarrow> bool" where
  "pristine w \<longleftrightarrow>
     (\<forall>s. dbs w s = zero_sqlite3Ruby \<and> ivars w s = no_ivars) \<and> (\<forall>a. instances (aws w a) = None) \<and>
     (\<forall>c. aggmem w c = None)"

lemma pristine_linked: "pristine w \<Longrightarrow> linked w"
  by (simp add: pristine_def linked_def no_ivars_def zero_sqlite3Ruby_def)

lemma activity_linked:
  assumes "pristine w0" and "activity L U w0 w"
  shows "linked w"
  using pinning_process.activity_keeps [OF assms(2) pinning_refl [OF pristine_linked [OF assms(1)]]]
  by (simp add: pinning_def)

lemma activity_trans: "activity L U w v \<Longrightarrow> activity L U w0 w \<Longrightarrow> activity L U w0 v"
  by (induction rule: activity.induct) (auto intro: activity.intros)

text \<open>What the struct points to is the array of the instance variable, before and after.\<close>

lemma pinned_array:
  assumes "pinning w0 w" and "linked w0" and "s < next_ref w0"
    and "d_functions (dbs w0 s) = Some r \<or> d_aggregators (dbs w0 s) = Some r"
  shows "r < next_ref w0" and "d_functions (dbs w0 s) = Some r \<Longrightarrow> d_functions (dbs w s) = Some r"
    and "d_aggregators (dbs w0 s) = Some r \<Longrightarrow> d_aggregators (dbs w s) = Some r"
proof -
  have linked: "\<forall>s. (d_functions (dbs v s) = None \<or> d_functions (dbs v s) = iv_functions (ivars v s)) \<and>
      (d_aggregators (dbs v s) = None \<or> d_aggregators (dbs v s) = iv_aggregators (ivars v s)) \<and>
      (\<forall>r. iv_functions (ivars v s) = Some r \<or> iv_aggregators (ivars v s) = Some r \<longrightarrow> r < next_ref v)"
    if "linked v" for v :: "('a, 'b) world"
    using that by (simp add: linked_def)
  have now: "linked w" "stays (iv_functions (ivars w0 s)) (iv_functions (ivars w s))"
    "stays (iv_aggregators (ivars w0 s)) (iv_aggregators (ivars w s))"
    "present (d_functions (dbs w0 s)) (d_functions (dbs w s))"
    "present (d_aggregators (dbs w0 s)) (d_aggregators (dbs w s))"
    using assms(1,3) by (simp_all add: pinning_def grown_def)
  note before = linked [OF assms(2), rule_format, of s] and after = linked [OF now(1), rule_format, of s]
  from before assms(4) show "r < next_ref w0" by auto
  show "d_functions (dbs w0 s) = Some r \<Longrightarrow> d_functions (dbs w s) = Some r"
    using before after now(2,4) by (auto simp: stays_def present_def)
  show "d_aggregators (dbs w0 s) = Some r \<Longrightarrow> d_aggregators (dbs w s) = Some r"
    using before after now(3,5) by (auto simp: stays_def present_def)
qed

lemma pinned_stays:
  assumes "pinning w0 w" and "linked w0" and "s < next_ref w0" and "x \<in> set (arys w0 r)" and "\<not> is_inst x"
    and "d_functions (dbs w0 s) = Some r \<or> d_aggregators (dbs w0 s) = Some r"
  shows "GValue x \<in> set (database_mark w s)"
proof -
  from pinned_array [OF assms(1-3,6)] assms(1,4,5) have "x \<in> set (arys w r)"
    by (auto simp: pinning_def grown_def)
  with pinned_array(2,3) [OF assms(1-3,6)] assms(6) show ?thesis by (auto intro: marked_function marked_wrapper)
qed

text \<open>C7: what SQLite calls stays alive. Take any activity of a process that has begun without objects of
  the extension, and a Database that exists then. From the return of \<open>define_function\<close> on, the block given
  to SQLite is marked by its Database at any later time, and so is the wrapper of an aggregate from the
  return of \<open>define_aggregator2\<close> on: whatever objects are made, whatever methods are called, whatever the
  callbacks and the library do, and however the calls end.\<close>

theorem registered_for_life:
  assumes "pristine w0" and "activity L U w0 w" and "self < next_ref w"
  shows "(\<forall>v u. define_function_with_flags L U self name flags (Some block) w = (Inr self, v) \<and>
      activity L U v u \<and> \<not> is_inst block \<longrightarrow> GValue block \<in> set (database_mark u self)) \<and>
    (\<forall>v u. rb_sqlite3_define_aggregator2 L U self klass name w = (Inr self, v) \<and> activity L U v u \<longrightarrow>
      (\<exists>aw h nm arity. DbCall (Some h) (Create_function nm arity SQLITE_UTF8 (RAw aw) AggregateFunction)
          \<in> set (calls v) \<and> handler_klass (aws v aw) = klass \<and>
        GValue (RAw aw) \<in> set (database_mark u self)))"
proof (intro conjI allI impI; elim conjE)
  note linked_w = activity_linked [OF assms(1,2)]
  fix v u assume run: "define_function_with_flags L U self name flags (Some block) w = (Inr self, v)"
    and act: "activity L U v u" and "\<not> is_inst block"
  have "pinning w v"
    by (rule keepsE [OF pinning.base.keeps_define_function(1) pinning_refl [OF linked_w] run])
  then have "linked v" "self < next_ref v" using assms(3) by (simp_all add: pinning_def grown_def)
  moreover from pinning_process.activity_keeps [OF act pinning_refl] \<open>linked v\<close> have "pinning v u" by blast
  ultimately show "GValue block \<in> set (database_mark u self)"
    using \<open>\<not> is_inst block\<close> define_function_stores [OF run] by (auto intro: pinned_stays)
next
  note linked_w = activity_linked [OF assms(1,2)]
  fix v u assume run: "rb_sqlite3_define_aggregator2 L U self klass name w = (Inr self, v)"
    and act: "activity L U v u"
  have "pinning w v"
    by (rule keepsE [OF pinning.base.keeps_define_aggregator pinning_refl [OF linked_w] run])
  then have linked: "linked v" "self < next_ref v" using assms(3) by (simp_all add: pinning_def grown_def)
  from pinning_process.activity_keeps [OF act pinning_refl [OF linked(1)]] have "pinning v u" .
  moreover obtain aw h nm arity r where
    "DbCall (Some h) (Create_function nm arity SQLITE_UTF8 (RAw aw) AggregateFunction) \<in> set (calls v)"
    "handler_klass (aws v aw) = klass" "d_aggregators (dbs v self) = Some r" "RAw aw \<in> set (arys v r)"
    using define_aggregator_stores [OF run] by blast
  moreover from this linked \<open>pinning v u\<close> have "GValue (RAw aw) \<in> set (database_mark u self)"
    by (intro pinned_stays [of v u self "RAw aw" r]) (simp_all add: is_inst_def)
  ultimately show "\<exists>aw h nm arity. DbCall (Some h) (Create_function nm arity SQLITE_UTF8 (RAw aw) AggregateFunction)
      \<in> set (calls v) \<and> handler_klass (aws v aw) = klass \<and> GValue (RAw aw) \<in> set (database_mark u self)"
    by blast
qed

lemma pristine_sample: "pristine sample_world"
  by (simp add: pristine_def sample_world_def no_ivars_def)

theorem registered_for_life_witness:
  "\<exists>v. define_function_with_flags sample_lib (sample_user\<lparr>u_call := \<lambda>r m args u. (Inr (RInteger 1), u)\<rparr>) 0
      (RString False UTF_8 ''g'' False) (RInteger 1) (Some (RObject 4)) one_database = (Inr 0, v) \<and>
    GValue (RObject 4) \<in> set (database_mark (v\<lparr>pid := 3\<rparr>) 0)"
proof -
  let ?U = "sample_user\<lparr>u_call := \<lambda>r m args u. (Inr (RInteger 1), u)\<rparr>"
  let ?f = "define_function_with_flags sample_lib ?U 0 (RString False UTF_8 ''g'' False) (RInteger 1) (Some (RObject 4)) one_database"
  have "\<not> u_respond_to ?U (RString False UTF_8 ''f'' False) ''to_path''" by (simp add: sample_user_def)
  from activity.new_database [OF activity.start one_database_run(1) [OF refl this]]
  have made: "activity sample_lib ?U sample_world one_database" .
  have "fst ?f = Inr 0"
    by (simp add: define_function_with_flags_def open_db.guarded_open rb_block_proc_def StringValue_def
        rb_proc_arity_def rb_funcall_def NUM2INT_def int_in_range_def int_fits_def sqlite_call_returns
        rb_ary_push_def sample_lib_def one_database_run(2-))
  then obtain v where v: "?f = (Inr 0, v)" by (metis prod.collapse)
  have "activity sample_lib ?U v (v\<lparr>pid := 3\<rparr>)" by (intro activity.fork activity.start)
  moreover have "\<not> is_inst (RObject 4)" by (simp add: is_inst_def)
  ultimately show ?thesis
    using v registered_for_life [OF pristine_sample made] by (auto simp: one_database_run(8))
qed

end
