(* ===== verification/Gc_Instances.thy ===== *)
theory Gc_Instances
  imports Gc_Persistence
begin

text \<open>
  The instances of aggregates in flight over the life of a process: as long as SQLite ties every
  aggregate context to one wrapper, the bookkeeping of \<open>aggregator.c\<close> stays right over every
  activity of the process, so that every instance SQLite refers to is marked by the Database
  its aggregate was defined on.
\<close>

section \<open>The bookkeeping over every method\<close>

text \<open>
  What is assumed of SQLite: a context belongs to one function, the one with the wrapper \<open>A cid\<close>,
  and \<open>sqlite3_exec\<close> hands its rows to the array it was given.
\<close>

definition owns_contexts :: "(nat \<Rightarrow> nat) \<Rightarrow> 'e sqlite_lib \<Rightarrow> bool" where
  "owns_contexts A L \<longleftrightarrow>
     (\<forall>c e. requests_in (owned_request A {}) (l_run L c e)) \<and>
     (\<forall>c e. requests_in (owned_request A {}) (l_prepare L c e)) \<and>
     (\<forall>h q e. requests_in (owned_request A {}) (l_exec L (DbCall h (Load_extension q)) e)) \<and>
     (\<forall>h q m r e. requests_in (owned_request A {r}) (l_exec L (DbCall h (Exec q m r)) e))"

lemma agg_rows_none: "agg_rows_inv A {} = agg_inv A"
  by (simp add: agg_rows_inv_def fun_eq_iff)

lemma agg_inv_others:
  "agg_inv A (w\<lparr>pid := p\<rparr>) = agg_inv A w" "agg_inv A (upd_backup s k w) = agg_inv A w"
  "agg_inv A (upd_hash r j w) = agg_inv A w"
  by (simp_all add: agg_inv_def slots_bounded_def slots_injective_def arrays_owned_def arrays_live_def
      arrays_exist_def live_def refs_bounded_def arrays_separate_def ivar_arrays_def upd_defs)

lemma agg_inv_store:
  assumes "agg_inv A w" and "iv_functions (ivars w s) = Some r \<or> iv_aggregators (ivars w s) = Some r"
  shows "agg_inv A (upd_ary r f w)"
proof (rule agg_inv_upd_ary_other [OF assms(1)])
  have "r \<in> ivar_arrays w s" using assms(2) by (auto simp: ivar_arrays_def)
  then show "instances (aws w a) \<noteq> Some r" for a
    using agg_inv_refs [OF assms(1)] by (auto simp: arrays_separate_def)
qed

lemma agg_inv_run:
  assumes "\<And>e. requests_in (owned_request A {}) (f c e)"
  shows "keeps (agg_inv A) (sqlite_run (callback_handler L U) f c)"
  using agg_rows.sqlite_run_keeps [of A "{}" f c L U] assms by (simp add: agg_rows_none)

lemma agg_inv_exec:
  assumes "owns_contexts A L" and inv: "agg_inv A w"
  shows "agg_inv A (snd (sqlite_run (callback_handler L U) (l_exec L) (DbCall h (Exec q m (next_ref w))) (new_array w)))"
proof -
  let ?r = "next_ref w"
  have "keeps (agg_rows_inv A {?r}) (sqlite_run (callback_handler L U) (l_exec L) (DbCall h (Exec q m ?r)))"
    using assms(1) by (intro agg_rows.sqlite_run_keeps) (auto simp: owns_contexts_def agg_rows_inv_def)
  moreover have "agg_rows_inv A {?r} (new_array w)"
    using agg_inv_new_array [OF inv] by (auto simp: agg_rows_inv_def)
  ultimately have "agg_rows_inv A {?r} (snd (sqlite_run (callback_handler L U) (l_exec L) (DbCall h (Exec q m ?r)) (new_array w)))"
    by (rule keepsD)
  then show ?thesis by (simp add: agg_rows_inv_def)
qed

text \<open>The bookkeeping is an instance of the contracts of the methods of Database and of Statement.\<close>

lemma agg_call_base:
  assumes "owns_contexts A L"
  shows "call_base (agg_inv A) L U"
proof unfold_locales
  show "keeps (agg_inv A) (sqlite_run (callback_handler L U) (l_exec L) (DbCall (Some h) (Load_extension q)))" for h q
    using assms by (intro agg_inv_run) (simp add: owns_contexts_def)
  show "agg_inv A w \<Longrightarrow> iv_aggregators (ivars w s) = None \<Longrightarrow>
      agg_inv A (upd_ivars s (\<lambda>v. v\<lparr>iv_aggregators := Some (next_ref w)\<rparr>) (new_array w))" for s w
    using agg_inv_ensure [of A w s] by (simp add: ensure_aggregators_run)
qed (simp_all add: agg_inv_others agg_inv_store agg_inv_wrapper_world agg_inv_new_array agg_inv_exec [OF assms])

lemma agg_activity_base:
  assumes "owns_contexts A L"
  shows "activity_base (agg_inv A) L U"
proof -
  note methods = agg_call_base [OF assms, unfolded call_base_def]
  have "object_base (agg_inv A) L U"
    unfolding object_base_def object_base_axioms_def
    using assms by (auto simp: agg_call_base agg_inv_others agg_inv_next_ref owns_contexts_def intro!: agg_inv_run)
  then show ?thesis
    unfolding activity_base_def activity_base_axioms_def
  proof (intro conjI allI impI)
    fix w :: "('a, 'b) world" and s r assume inv: "agg_inv A w"
    show "agg_inv A (allocated w)"
      unfolding allocated_def
      using agg_inv_next_ref [OF inv, of "Suc (next_ref w)"]
      by (intro agg_inv_upd_ivars [where R = "{}"]) (auto simp: ivar_arrays_def no_ivars_def)
    show "agg_inv A (upd_ivars s (\<lambda>i. i\<lparr>iv_collations := r\<rparr>) w)"
      by (intro agg_inv_upd_ivars [where R = "{}"] inv) (auto simp: ivar_arrays_def)
    show "agg_inv A (upd_ivars s (\<lambda>i. i\<lparr>iv_results_as_hash := x\<rparr>) w)" for x
      by (intro agg_inv_upd_ivars [where R = "{}"] inv) (auto simp: ivar_arrays_def)
    show "agg_inv A (upd_ivars s (\<lambda>i. i\<lparr>iv_functions := Some (next_ref w)\<rparr>) (new_array w))"
      using agg_inv_new_array [OF inv]
      by (intro agg_inv_upd_ivars [where R = "{next_ref w}"]) (auto simp: ivar_arrays_def)
  qed (simp_all add: agg_inv_others)
qed

section \<open>Instances in flight stay marked\<close>

lemma pristine_agg_inv: "pristine w \<Longrightarrow> agg_inv A w"
  by (rule agg_invI)
    (auto simp: pristine_def live_def refs_bounded_def arrays_separate_def ivar_arrays_def no_ivars_def)

lemma pinned_wrapper:
  assumes "pinning w0 w" and "linked w0" and "s < next_ref w0" and "RAw a \<in> set (arys w0 r)"
    and "d_aggregators (dbs w0 s) = Some r"
  shows "d_aggregators (dbs w s) = Some r \<and> RAw a \<in> set (arys w r)"
  using pinned_array [OF assms(1-3) disjI2 [OF assms(5)]] assms(1,4,5)
  by (auto simp: pinning_def grown_def is_inst_def)

text \<open>C22: no aggregate in flight loses its state to the collector. Take any activity of a process that has begun
  without objects of the extension, and a Database that exists then. After \<open>define_aggregator2\<close> has
  returned, and over everything that the process does from then on, with any outcome of any call:
  whenever a context of the new aggregate holds an instance, the Database marks that instance.
  SQLite is assumed to tie a context to one function.\<close>

theorem instances_marked_for_life:
  assumes "pristine w0" and "activity L U w0 w" and "self < next_ref w" and "owns_contexts A L"
    and "rb_sqlite3_define_aggregator2 L U self klass name w = (Inr self, v)" and "activity L U v u"
  shows "\<exists>aw h nm arity.
    DbCall (Some h) (Create_function nm arity SQLITE_UTF8 (RAw aw) AggregateFunction) \<in> set (calls v) \<and>
    handler_klass (aws v aw) = klass \<and>
    (\<forall>c i. A c = aw \<and> aggmem u c = Some (SlotInst i) \<longrightarrow> GValue (RInst i) \<in> set (database_mark u self))"
proof -
  note linked_w = activity_linked [OF assms(1,2)]
  have "pinning w v"
    by (rule keepsE [OF pinning.base.keeps_define_aggregator pinning_refl [OF linked_w] assms(5)])
  then have v: "linked v" "self < next_ref v" using assms(3) by (simp_all add: pinning_def grown_def)
  have "agg_inv A w"
    by (rule activity_base.activity_keeps [OF agg_activity_base [OF assms(4)] assms(2) pristine_agg_inv [OF assms(1)]])
  then have "agg_inv A v"
    by (rule keepsE [OF keeps_define_aggregator2 _ assms(5)])
  then have inv: "agg_inv A u"
    by (rule activity_base.activity_keeps [OF agg_activity_base [OF assms(4)] assms(6)])
  obtain aw h nm arity r where
    aw: "DbCall (Some h) (Create_function nm arity SQLITE_UTF8 (RAw aw) AggregateFunction) \<in> set (calls v)"
    "handler_klass (aws v aw) = klass" "d_aggregators (dbs v self) = Some r" "RAw aw \<in> set (arys v r)"
    using define_aggregator_stores [OF assms(5)] by blast
  with pinned_wrapper [OF pinning_process.activity_keeps [OF assms(6) pinning_refl] v(1,2)] v(1)
  have "d_aggregators (dbs u self) = Some r" "RAw aw \<in> set (arys u r)" by blast+
  with inv have "\<forall>c i. A c = aw \<and> aggmem u c = Some (SlotInst i) \<longrightarrow> GValue (RInst i) \<in> set (database_mark u self)"
    using live_instances_marked by blast
  with aw show ?thesis by blast
qed

section \<open>A concrete query\<close>

definition stepping_lib :: "unit sqlite_lib" where
  "stepping_lib = sample_lib\<lparr>l_run := \<lambda>c e. case c of
       StmtCall z Step \<Rightarrow> Callback e (CB_agg_step 5 0 True []) (\<lambda>p. Return SQLITE_DONE e)
     | _ \<Rightarrow> Return SQLITE_OK e\<rparr>"

text \<open>The process has made one Database, and a Statement on it.\<close>

definition prepared_world :: "(unit, unit) world" where
  "prepared_world = snd (prepare stepping_lib sample_user 3 0 (RString False UTF_8 ''q'' False)
     (snd (statement_allocate one_database)))"

lemma prepared_activity: "activity stepping_lib sample_user sample_world prepared_world"
proof -
  have "activity stepping_lib sample_user sample_world one_database"
    by (rule activity.new_database [OF activity.start one_database_run(1)])
      (simp_all add: stepping_lib_def sample_user_def)
  then have "activity stepping_lib sample_user sample_world (snd (statement_allocate one_database))"
    by (rule activity.step [OF _ object_step.new_statement [OF surjective_pairing]])
  then show ?thesis
    unfolding prepared_world_def by (rule activity.step [OF _ object_step.prepare [OF surjective_pairing]])
qed

lemma prepared_fields:
  "s_db (stmts prepared_world 3) = Some 0" "s_st (stmts prepared_world 3) = Some 9"
  "s_done_p (stmts prepared_world 3) = 0" "d_flags (dbs prepared_world 0) = 0" "d_db (dbs prepared_world 0) = Some 7"
  "next_ref prepared_world = 4" "errinfo prepared_world = None" "aggmem prepared_world = (\<lambda>_. None)"
  "iv_aggregators (ivars prepared_world 0) = None" "arys prepared_world = (\<lambda>_. [])"
  "calls prepared_world = [Open_v2 ''f'' 6 None, DbCall (Some 7) (Prepare_v2 ''q'' 1)]"
  by (simp_all add: prepared_world_def prepare_def statement_allocate_def fresh_ref_def bindM_def
      open_db.guarded_open one_database_run(2-) StringValue_def sqlite_run_def
      zero_sqlite3StmtRuby_def stepping_lib_def sample_lib_def sample_user_def upd_defs)

lemma stepping_run:
  assumes "instances (aws v 5) = Some r" and "aggmem v 0 = None" and "errinfo v = None" and "next_ref v = 7"
    and "s_db (stmts v 3) = Some 0" and "s_st (stmts v 3) = Some 9" and "s_done_p (stmts v 3) = 0" and "d_flags (dbs v 0) = 0"
  shows "\<exists>u. step stepping_lib sample_user 3 v = (Inr RNil, u) \<and> aggmem u 0 = Some (SlotInst 7)"
proof -
  have use: "require_usable 3 v = (Inr (Some 9), v)"
    using assms by (intro usable_open [of _ _ 0]) simp_all
  have user: "u_call sample_user k m args x = (Inr RNil, x)" for k m args x
    by (simp add: sample_user_def)
  have lib: "l_run stepping_lib (StmtCall (Some 9) Step) e =
      Callback e (CB_agg_step 5 0 True []) (\<lambda>p. Return SQLITE_DONE e)" for e
    by (simp add: stepping_lib_def)
  show ?thesis
    using assms by (simp add: step_run [OF use] sqlite_run_def lib user rb_sqlite3_aggregator_step_def
        rb_sqlite3_aggregate_instance_def aggregate_context_def new_aggregate_instance_def rb_sqlite3_protected_funcall_def
        rb_protect_def rb_funcall_def fresh_ref_def bindM_def reraise_run sqlite_call_returns rb_ary_push_def)
qed

theorem instances_marked_for_life_witness:
  "\<exists>v u. rb_sqlite3_define_aggregator2 stepping_lib sample_user 0 (RObject 1) (RString False UTF_8 ''f'' False) prepared_world =
      (Inr 0, v) \<and> step stepping_lib sample_user 3 v = (Inr RNil, u) \<and>
    aggmem u 0 = Some (SlotInst 7) \<and> GValue (RInst 7) \<in> set (database_mark u 0)"
proof -
  let ?name = "RString False UTF_8 ''f'' False"
  have owns: "owns_contexts (\<lambda>_. 5) stepping_lib"
    by (simp add: owns_contexts_def stepping_lib_def sample_lib_def split: sql_call.split st_op.split)
  let ?def = "rb_sqlite3_define_aggregator2 stepping_lib sample_user 0 (RObject 1) ?name prepared_world"
  have fields: "fst ?def = Inr 0" "instances (aws (snd ?def) 5) = Some 6" "aggmem (snd ?def) 0 = None"
    "errinfo (snd ?def) = None" "next_ref (snd ?def) = 7" "s_db (stmts (snd ?def) 3) = Some 0"
    "s_st (stmts (snd ?def) 3) = Some 9" "s_done_p (stmts (snd ?def) 3) = 0" "d_flags (dbs (snd ?def) 0) = 0"
    by (simp_all add: rb_sqlite3_define_aggregator2_def ensure_aggregators_run new_wrapper_run open_db.guarded_open
        prepared_fields stepping_lib_def sample_lib_def sample_user_def StringValueCStr_def StringValue_def nul_def
        sqlite_call_returns rb_ary_push_def wrapper_world_def upd_defs)
  have made: "DbCall (Some h) (Create_function nm n SQLITE_UTF8 (RAw aw) AggregateFunction) \<in> set (calls (snd ?def)) \<Longrightarrow> aw = 5"
    for h nm n aw
    by (auto simp add: rb_sqlite3_define_aggregator2_def ensure_aggregators_run new_wrapper_run open_db.guarded_open
        prepared_fields stepping_lib_def sample_lib_def sample_user_def StringValueCStr_def StringValue_def nul_def
        sqlite_call_returns rb_ary_push_def wrapper_world_def upd_defs)
  obtain v where v: "?def = (Inr 0, v)" using fields(1) by (metis prod.collapse)
  with fields obtain u where u: "step stepping_lib sample_user 3 v = (Inr RNil, u)" "aggmem u 0 = Some (SlotInst 7)"
    using stepping_run [of v 6] by auto
  let ?m = "bindM (step stepping_lib sample_user 3) (\<lambda>_. ret ())"
  have "?m \<in> set (guarded_methods stepping_lib sample_user 3 RNil RNil)" by (simp add: guarded_methods_def)
  moreover have "?m v = (Inr (), u)" using u(1) by simp
  ultimately have "activity stepping_lib sample_user v u"
    by (rule activity.step [OF activity.start object_step.statement])
  from instances_marked_for_life [OF pristine_sample prepared_activity _ owns v this] made u(2) v
  have "GValue (RInst 7) \<in> set (database_mark u 0)" by (auto simp: prepared_fields(6))
  with v u show ?thesis by blast
qed

end
