(* ===== verification/Registration.thy ===== *)
theory Registration
  imports Gc_Persistence
begin

unbundle bit_operations_syntax

text \<open>
  What the extension registers with the interpreter when it is loaded (\<open>Init_sqlite3_native\<close> and the
  \<open>init_*\<close> functions): the classes with their data types, allocators and method tables, the
  functions of the module and the constants; and how Ruby calls a registered method by its name.
  The tables are where a C function becomes a method, so the properties here speak of names: what
  a call by any registered name can do.
\<close>

section \<open>Methods\<close>

text \<open>
  A C function that implements a method takes the receiver, the block of the call (which it finds
  with \<open>rb_block_given_p\<close>) and its parameters, or \<open>argc\<close> and \<open>argv\<close>. A method returns its receiver or
  a value.
\<close>

datatype rb_return = Itself nat | Returned rb_value

datatype ('e, 'u) cfunc =
    CFunV "nat \<Rightarrow> rb_value option \<Rightarrow> rb_value list \<Rightarrow> ('e, 'u, rb_return) rb"
  | CFun0 "nat \<Rightarrow> rb_value option \<Rightarrow> ('e, 'u, rb_return) rb"
  | CFun1 "nat \<Rightarrow> rb_value option \<Rightarrow> rb_value \<Rightarrow> ('e, 'u, rb_return) rb"
  | CFun2 "nat \<Rightarrow> rb_value option \<Rightarrow> rb_value \<Rightarrow> rb_value \<Rightarrow> ('e, 'u, rb_return) rb"
  | CFun3 "nat \<Rightarrow> rb_value option \<Rightarrow> rb_value \<Rightarrow> rb_value \<Rightarrow> rb_value \<Rightarrow> ('e, 'u, rb_return) rb"
  | CFun4 "nat \<Rightarrow> rb_value option \<Rightarrow> rb_value \<Rightarrow> rb_value \<Rightarrow> rb_value \<Rightarrow> rb_value \<Rightarrow> ('e, 'u, rb_return) rb"

fun parameters :: "('e, 'u) cfunc \<Rightarrow> int" where
  "parameters (CFunV f) = - 1"
| "parameters (CFun0 f) = 0"
| "parameters (CFun1 f) = 1"
| "parameters (CFun2 f) = 2"
| "parameters (CFun3 f) = 3"
| "parameters (CFun4 f) = 4"

abbreviation itself :: "('e, 'u, nat) rb \<Rightarrow> ('e, 'u, rb_return) rb" where
  "itself m \<equiv> bindM m (\<lambda>s. ret (Itself s))"

abbreviation returned :: "('e, 'u, rb_value) rb \<Rightarrow> ('e, 'u, rb_return) rb" where
  "returned m \<equiv> bindM m (\<lambda>v. ret (Returned v))"

datatype rb_visibility = Public | Private

record ('e, 'u) rb_method =
  m_visibility :: rb_visibility
  m_func :: "('e, 'u) cfunc"
  m_arity :: int

type_synonym ('e, 'u) rb_methods = "(string \<times> ('e, 'u) rb_method) list"

text \<open>Ruby makes a method of the name \<open>initialize\<close> private.\<close>

definition rb_define_method :: "string \<Rightarrow> ('e, 'u) cfunc \<Rightarrow> int \<Rightarrow> string \<times> ('e, 'u) rb_method" where
  "rb_define_method name func arity =
     (name, \<lparr>m_visibility = (if name = ''initialize'' then Private else Public), m_func = func, m_arity = arity\<rparr>)"

definition rb_define_private_method :: "string \<Rightarrow> ('e, 'u) cfunc \<Rightarrow> int \<Rightarrow> string \<times> ('e, 'u) rb_method" where
  "rb_define_private_method name func arity = (name, \<lparr>m_visibility = Private, m_func = func, m_arity = arity\<rparr>)"

text \<open>
  The data type that ties a Ruby object to its struct: what the collector marks, the finalizer, and
  the size of the struct on a 64-bit build. With \<open>RUBY_TYPED_FREE_IMMEDIATELY\<close> the finalizer runs
  during the collection.
\<close>

record ('e, 'u) rb_data_type =
  wrap_struct_name :: string
  dmark :: "(('e, 'u) world \<Rightarrow> nat \<Rightarrow> gc_ref list) option"
  dfree :: "nat \<Rightarrow> ('e, 'u, unit) rb"
  dsize :: nat
  free_immediately :: bool
  wb_protected :: bool

record ('e, 'u) rb_class_def =
  c_name :: string
  c_super :: string
  c_data :: "('e, 'u) rb_data_type option"
  c_alloc :: "('e, 'u, nat) rb option"
  c_methods :: "('e, 'u) rb_methods"

section \<open>Calling a method by name\<close>

text \<open>
  The later of two definitions of a name counts. A call with an explicit receiver does not reach a
  private method. The interpreter checks the number of arguments and then calls the C function
  with as many as were registered, whatever the function takes.
\<close>

definition lookup_method :: "('e, 'u) rb_methods \<Rightarrow> string \<Rightarrow> ('e, 'u) rb_method option" where
  "lookup_method table name = map_of (rev table) name"

definition arity_error :: "nat \<Rightarrow> int \<Rightarrow> abort" where
  "arity_error given expected = Raised (rb_error ArgumentError
     (''wrong number of arguments (given '' @ show_nat given @ '', expected '' @ show_int expected @ '')''))"

fun call_cfunc ::
  "('e, 'u) cfunc \<Rightarrow> int \<Rightarrow> nat \<Rightarrow> rb_value option \<Rightarrow> rb_value list \<Rightarrow> ('e, 'u, rb_return) rb" where
  "call_cfunc (CFunV f) arity self blk argv = (if arity = - 1 then f self blk argv else fail (Undefined WrongArity))"
| "call_cfunc (CFun0 f) arity self blk argv = (if arity = 0 then f self blk else fail (Undefined WrongArity))"
| "call_cfunc (CFun1 f) arity self blk argv =
     (if arity = 1 then f self blk (argv ! 0) else fail (Undefined WrongArity))"
| "call_cfunc (CFun2 f) arity self blk argv =
     (if arity = 2 then f self blk (argv ! 0) (argv ! 1) else fail (Undefined WrongArity))"
| "call_cfunc (CFun3 f) arity self blk argv =
     (if arity = 3 then f self blk (argv ! 0) (argv ! 1) (argv ! 2) else fail (Undefined WrongArity))"
| "call_cfunc (CFun4 f) arity self blk argv =
     (if arity = 4 then f self blk (argv ! 0) (argv ! 1) (argv ! 2) (argv ! 3) else fail (Undefined WrongArity))"

definition invoke_method ::
  "('e, 'u) rb_method \<Rightarrow> nat \<Rightarrow> rb_value option \<Rightarrow> rb_value list \<Rightarrow> ('e, 'u, rb_return) rb" where
  "invoke_method m self blk args =
     (if 0 \<le> m_arity m \<and> int (length args) \<noteq> m_arity m
      then fail (arity_error (length args) (m_arity m))
      else call_cfunc (m_func m) (m_arity m) self blk args)"

definition rb_send ::
  "('e, 'u) rb_class_def \<Rightarrow> bool \<Rightarrow> string \<Rightarrow> nat \<Rightarrow> rb_value option \<Rightarrow> rb_value list \<Rightarrow>
     ('e, 'u, rb_return) rb" where
  "rb_send k fcall name self blk args =
     (case lookup_method (c_methods k) name of
        None \<Rightarrow> fail (Raised (rb_error NoMethodError
          (''undefined method '' @ name @ '' for an instance of '' @ c_name k)))
      | Some m \<Rightarrow>
          if m_visibility m = Private \<and> \<not> fcall
          then fail (Raised (rb_error NoMethodError
            (''private method '' @ name @ '' called for an instance of '' @ c_name k)))
          else invoke_method m self blk args)"

section \<open>Unwrapping a Database\<close>

text \<open>
  \<open>prepare\<close> and \<open>Backup#initialize\<close> get a Database as an argument; \<open>db_of\<close> tells which values are Databases,
  and of which struct. The name in the message is the \<open>wrap_struct_name\<close> of the data type, which
  is the same string in all three types.
\<close>

fun displaying_class_of :: "rb_value \<Rightarrow> string" where
  "displaying_class_of RNil = ''nil''"
| "displaying_class_of RTrue = ''true''"
| "displaying_class_of RFalse = ''false''"
| "displaying_class_of v = rb_class2name v"

definition database_type :: "'e sqlite_lib \<Rightarrow> ('e, 'u) rb_data_type" where
  "database_type L =
     \<lparr>wrap_struct_name = ''SQLite3::Backup'', dmark = Some database_mark, dfree = database_deallocate L,
      dsize = 88, free_immediately = False, wb_protected = True\<rparr>"

definition statement_type :: "'e sqlite_lib \<Rightarrow> 'u rb_user \<Rightarrow> ('e, 'u) rb_data_type" where
  "statement_type L U =
     \<lparr>wrap_struct_name = ''SQLite3::Backup'', dmark = None, dfree = statement_deallocate L U,
      dsize = 24, free_immediately = True, wb_protected = True\<rparr>"

definition backup_type :: "('e, 'u) rb_data_type" where
  "backup_type =
     \<lparr>wrap_struct_name = ''SQLite3::Backup'', dmark = None, dfree = backup_deallocate,
      dsize = 8, free_immediately = True, wb_protected = True\<rparr>"

definition sqlite3_database_unwrap :: "'e sqlite_lib \<Rightarrow> (rb_value \<Rightarrow> nat option) \<Rightarrow> rb_value \<Rightarrow> abort + nat" where
  "sqlite3_database_unwrap L db_of database =
     (case db_of database of
        Some ctx \<Rightarrow> Inr ctx
      | None \<Rightarrow> Inl (Raised (rb_error TypeError (''wrong argument type '' @ displaying_class_of database @
          '' (expected '' @ wrap_struct_name (database_type L :: ('e, unit) rb_data_type) @ '')''))))"

section \<open>The tables\<close>

text \<open>What the preprocessor decides.\<close>

record build =
  have_initialize :: bool
  have_backup :: bool
  have_column_database_name :: bool
  have_memused :: bool
  have_progress_callback :: bool
  have_load_extension :: bool
  have_enable_load_extension :: bool
  have_open_autoproxy :: bool
  have_open_uri :: bool
  have_open_memory :: bool
  using_sqlcipher_library :: bool
  using_packaged_libraries :: bool
  using_precompiled_libraries :: bool
  sqlite_version :: string
  sqlite_version_number :: int

definition init_sqlite3_database :: "'e sqlite_lib \<Rightarrow> 'u rb_user \<Rightarrow> build \<Rightarrow> ('e, 'u) rb_class_def" where
  "init_sqlite3_database L U B =
     \<lparr>c_name = ''SQLite3::Database'', c_super = ''Object'', c_data = Some (database_type L),
      c_alloc = Some database_allocate,
      c_methods =
       [rb_define_private_method ''open_v2'' (CFun3 (\<lambda>s b x y z. itself (rb_sqlite3_open_v2 L s x y z))) 3,
        rb_define_private_method ''open16''
          (CFun1 (\<lambda>s b x. bindM (rb_sqlite3_open16 L s x) (\<lambda>(v, file). ret (Returned v)))) 1,
        rb_define_method ''collation'' (CFun2 (\<lambda>s b x y. itself (collation L s x y))) 2,
        rb_define_method ''close'' (CFun0 (\<lambda>s b. itself (database_close L s))) 0,
        rb_define_private_method ''discard'' (CFun0 (\<lambda>s b. itself (database_discard L s))) 0,
        rb_define_method ''closed?'' (CFun0 (\<lambda>s b. returned (database_closed_p s))) 0,
        rb_define_method ''total_changes'' (CFun0 (\<lambda>s b. returned (total_changes L s))) 0,
        rb_define_method ''trace'' (CFunV (\<lambda>s b argv. itself (trace L argv b s))) (- 1),
        rb_define_method ''last_insert_row_id'' (CFun0 (\<lambda>s b. returned (last_insert_row_id L s))) 0,
        rb_define_method ''define_function'' (CFun1 (\<lambda>s b x. itself (define_function L U s x b))) 1,
        rb_define_method ''define_function_with_flags''
          (CFun2 (\<lambda>s b x y. itself (define_function_with_flags L U s x y b))) 2,
        rb_define_private_method ''define_aggregator2''
          (CFun2 (\<lambda>s b x y. itself (rb_sqlite3_define_aggregator2 L U s x y))) 2,
        rb_define_private_method ''disable_quirk_mode''
          (CFun0 (\<lambda>s b. returned (rb_sqlite3_disable_quirk_mode L s))) 0,
        rb_define_method ''interrupt'' (CFun0 (\<lambda>s b. itself (interrupt L s))) 0,
        rb_define_method ''errmsg'' (CFun0 (\<lambda>s b. returned (errmsg L s))) 0,
        rb_define_method ''errcode'' (CFun0 (\<lambda>s b. returned (errcode L s))) 0,
        rb_define_method ''complete?'' (CFun1 (\<lambda>s b x. returned (complete_p L s x))) 1,
        rb_define_method ''changes'' (CFun0 (\<lambda>s b. returned (changes L s))) 0,
        rb_define_method ''authorizer='' (CFun1 (\<lambda>s b x. itself (set_authorizer L s x))) 1,
        rb_define_method ''busy_handler'' (CFunV (\<lambda>s b argv. itself (busy_handler L argv b s))) (- 1),
        rb_define_method ''busy_timeout='' (CFun1 (\<lambda>s b x. itself (set_busy_timeout L s x))) 1] @
       (if have_progress_callback B
        then [rb_define_method ''statement_timeout='' (CFun1 (\<lambda>s b x. itself (set_statement_timeout L s x))) 1]
        else []) @
       [rb_define_method ''extended_result_codes='' (CFun1 (\<lambda>s b x. itself (set_extended_result_codes L s x))) 1,
        rb_define_method ''transaction_active?'' (CFun0 (\<lambda>s b. returned (transaction_active_p L s))) 0,
        rb_define_private_method ''exec_batch'' (CFun2 (\<lambda>s b x y. returned (exec_batch L U s x y))) 2,
        rb_define_private_method ''db_filename'' (CFun1 (\<lambda>s b x. returned (db_filename L s x))) 1] @
       (if have_load_extension B
        then rb_define_private_method ''load_extension_internal''
               (CFun1 (\<lambda>s b x. itself (load_extension_internal L U s x))) 1 #
             (if have_enable_load_extension B
              then [rb_define_method ''enable_load_extension'' (CFun1 (\<lambda>s b x. itself (enable_load_extension L s x))) 1]
              else [])
        else [])\<rparr>"

definition init_sqlite3_statement ::
  "'e sqlite_lib \<Rightarrow> 'u rb_user \<Rightarrow> (rb_value \<Rightarrow> nat option) \<Rightarrow> build \<Rightarrow> ('e, 'u) rb_class_def" where
  "init_sqlite3_statement L U db_of B =
     \<lparr>c_name = ''SQLite3::Statement'', c_super = ''Object'', c_data = Some (statement_type L U),
      c_alloc = Some statement_allocate,
      c_methods =
       [rb_define_method ''close'' (CFun0 (\<lambda>s b. itself (statement_close L U s))) 0,
        rb_define_method ''closed?'' (CFun0 (\<lambda>s b. returned (statement_closed_p s))) 0,
        rb_define_method ''bind_param'' (CFun2 (\<lambda>s b x y. itself (bind_param L U s x y))) 2,
        rb_define_method ''reset!'' (CFun0 (\<lambda>s b. itself (reset_bang L U s))) 0,
        rb_define_method ''clear_bindings!'' (CFun0 (\<lambda>s b. itself (clear_bindings_bang L s))) 0,
        rb_define_method ''step'' (CFun0 (\<lambda>s b. returned (step L U s))) 0,
        rb_define_method ''done?'' (CFun0 (\<lambda>s b. returned (done_p s))) 0,
        rb_define_method ''column_count'' (CFun0 (\<lambda>s b. returned (column_count L s))) 0,
        rb_define_method ''column_name'' (CFun1 (\<lambda>s b x. returned (column_name L s x))) 1,
        rb_define_method ''column_decltype'' (CFun1 (\<lambda>s b x. returned (column_decltype L s x))) 1,
        rb_define_method ''bind_parameter_count'' (CFun0 (\<lambda>s b. returned (bind_parameter_count L s))) 0,
        rb_define_method ''named_params'' (CFun0 (\<lambda>s b. returned (named_params L s))) 0,
        rb_define_method ''sql'' (CFun0 (\<lambda>s b. returned (get_sql L s))) 0,
        rb_define_method ''expanded_sql'' (CFun0 (\<lambda>s b. returned (get_expanded_sql L s))) 0] @
       (if have_column_database_name B
        then [rb_define_method ''database_name'' (CFun1 (\<lambda>s b x. returned (database_name L s x))) 1] else []) @
       (if have_memused B then [rb_define_method ''memused'' (CFun0 (\<lambda>s b. returned (memused L s))) 0] else []) @
       [rb_define_private_method ''prepare''
          (CFun2 (\<lambda>s b x y. bindM (liftE (sqlite3_database_unwrap L db_of x)) (\<lambda>db. returned (prepare L U s db y)))) 2,
        rb_define_private_method ''stats_as_hash'' (CFun0 (\<lambda>s b. returned (stats_as_hash L s))) 0,
        rb_define_private_method ''stat_for'' (CFun1 (\<lambda>s b x. returned (stat_for L s x))) 1]\<rparr>"

definition init_sqlite3_backup ::
  "'e sqlite_lib \<Rightarrow> 'u rb_user \<Rightarrow> (rb_value \<Rightarrow> nat option) \<Rightarrow> ('e, 'u) rb_class_def" where
  "init_sqlite3_backup L U db_of =
     \<lparr>c_name = ''SQLite3::Backup'', c_super = ''Object'', c_data = Some backup_type,
      c_alloc = Some backup_allocate,
      c_methods =
       [rb_define_method ''initialize''
          (CFun4 (\<lambda>s b w x y z. bindM (liftE (sqlite3_database_unwrap L db_of w)) (\<lambda>dst.
             bindM (liftE (sqlite3_database_unwrap L db_of y)) (\<lambda>src.
             itself (backup_initialize L s dst x src z))))) 4,
        rb_define_method ''step'' (CFun1 (\<lambda>s b x. returned (backup_step L U s x))) 1,
        rb_define_method ''finish'' (CFun0 (\<lambda>s b. returned (backup_finish L s))) 0,
        rb_define_method ''remaining'' (CFun0 (\<lambda>s b. returned (backup_remaining L s))) 0,
        rb_define_method ''pagecount'' (CFun0 (\<lambda>s b. returned (backup_pagecount L s))) 0]\<rparr>"

section \<open>The module\<close>

text \<open>The flags of \<open>sqlite3_open_v2\<close> (\<open>sqlite3.h\<close>) that become constants of \<open>Constants::Open\<close>.\<close>

abbreviation SQLITE_OPEN_READWRITE :: cint where "SQLITE_OPEN_READWRITE \<equiv> 0x2"
abbreviation SQLITE_OPEN_CREATE :: cint where "SQLITE_OPEN_CREATE \<equiv> 0x4"
abbreviation SQLITE_OPEN_MASTER_JOURNAL :: cint where "SQLITE_OPEN_MASTER_JOURNAL \<equiv> 0x4000"

definition init_sqlite3_constants :: "build \<Rightarrow> (string \<times> rb_value) list" where
  "init_sqlite3_constants B =
     [(''READONLY'', INT2NUM SQLITE_OPEN_READONLY),
      (''READWRITE'', INT2NUM SQLITE_OPEN_READWRITE),
      (''CREATE'', INT2NUM SQLITE_OPEN_CREATE),
      (''DELETEONCLOSE'', INT2NUM 0x8),
      (''EXCLUSIVE'', INT2NUM 0x10),
      (''MAIN_DB'', INT2NUM 0x100),
      (''TEMP_DB'', INT2NUM 0x200),
      (''TRANSIENT_DB'', INT2NUM 0x400),
      (''MAIN_JOURNAL'', INT2NUM 0x800),
      (''TEMP_JOURNAL'', INT2NUM 0x1000),
      (''SUBJOURNAL'', INT2NUM 0x2000),
      (''MASTER_JOURNAL'', INT2NUM SQLITE_OPEN_MASTER_JOURNAL),
      (''SUPER_JOURNAL'', INT2NUM SQLITE_OPEN_MASTER_JOURNAL),
      (''NOMUTEX'', INT2NUM 0x8000),
      (''FULLMUTEX'', INT2NUM 0x10000)] @
     (if have_open_autoproxy B
      then [(''AUTOPROXY'', INT2NUM 0x20), (''SHAREDCACHE'', INT2NUM 0x20000),
            (''PRIVATECACHE'', INT2NUM 0x40000), (''WAL'', INT2NUM 0x80000)]
      else []) @
     (if have_open_uri B then [(''URI'', INT2NUM 0x40)] else []) @
     (if have_open_memory B then [(''MEMORY'', INT2NUM 0x80)] else [])"

definition rb_const_get :: "(string \<times> rb_value) list \<Rightarrow> string \<Rightarrow> rb_value option" where
  "rb_const_get constants name = map_of (rev constants) name"

text \<open>\<open>SQLite3.status\<close> takes one or two arguments.\<close>

definition status_singleton :: "'e sqlite_lib \<Rightarrow> rb_value list \<Rightarrow> ('e, 'u, rb_value) rb" where
  "status_singleton L argv =
     (case argv of
        [opArg] \<Rightarrow> rb_sqlite3_status L opArg RNil
      | [opArg, resetFlagArg] \<Rightarrow> rb_sqlite3_status L opArg resetFlagArg
      | _ \<Rightarrow> fail (Raised (rb_error ArgumentError
          (''wrong number of arguments (given '' @ show_nat (length argv) @ '', expected 1..2)''))))"

record ('e, 'u) rb_module =
  mod_classes :: "('e, 'u) rb_class_def list"
  mod_functions :: "('e, 'u) rb_methods"
  mod_constants :: "(string \<times> rb_value) list"
  mod_open :: "(string \<times> rb_value) list"

definition blob_class :: "('e, 'u) rb_class_def" where
  "blob_class = \<lparr>c_name = ''SQLite3::Blob'', c_super = ''String'', c_data = None, c_alloc = None, c_methods = []\<rparr>"

definition Init_sqlite3_native ::
  "'e sqlite_lib \<Rightarrow> 'u rb_user \<Rightarrow> (rb_value \<Rightarrow> nat option) \<Rightarrow> build \<Rightarrow> ('e, 'u, ('e, 'u) rb_module) rb" where
  "Init_sqlite3_native L U db_of B =
     bindM (if have_initialize B then bindM (sqlite_call (l_int L) Initialize_library) (\<lambda>_. ret ()) else ret ()) (\<lambda>_.
     bindM (sqlite_call (l_text L) Libversion) (\<lambda>loaded.
     bindM (liftE (rb_str_new2 loaded)) (\<lambda>loaded_version.
     ret \<lparr>mod_classes = [blob_class, init_sqlite3_database L U B, init_sqlite3_statement L U db_of B] @
            (if have_backup B then [init_sqlite3_backup L U db_of] else []),
          mod_functions =
            [rb_define_method ''sqlcipher?'' (CFun0 (\<lambda>s b. returned (ret (using_sqlcipher (using_sqlcipher_library B))))) 0,
             rb_define_method ''libversion'' (CFun0 (\<lambda>s b. returned (libversion L))) 0,
             rb_define_method ''threadsafe'' (CFun0 (\<lambda>s b. returned (threadsafe_p L))) 0,
             rb_define_method ''status'' (CFunV (\<lambda>s b argv. returned (status_singleton L argv))) (- 1)],
          mod_constants =
            [(''SQLITE_VERSION'', rb_str_new_cstr (sqlite_version B)),
             (''SQLITE_VERSION_NUMBER'', RInteger (sqlite_version_number B)),
             (''SQLITE_LOADED_VERSION'', loaded_version),
             (''SQLITE_PACKAGED_LIBRARIES'', rb_bool (using_packaged_libraries B)),
             (''SQLITE_PRECOMPILED_LIBRARIES'', rb_bool (using_precompiled_libraries B))],
          mod_open = init_sqlite3_constants B\<rparr>)))"

end
