(* ===== verification/Registration_Laws.thy ===== *)
theory Registration_Laws
  imports Registration
begin

unbundle bit_operations_syntax

text \<open>
  What a call by name can do: no registered method hands a NULL handle to SQLite, closed objects
  refuse, and every call is one of the moves that the theorems about the life of connections,
  statements and registered objects quantify over.
\<close>

section \<open>From the tables to the calls\<close>

text \<open>
  A property of actions that holds of every C function of a class, for any block and
  parameters, and of the exceptions that Ruby itself raises, holds of every call by name.
\<close>

fun always :: "(('e, 'u, rb_return) rb \<Rightarrow> bool) \<Rightarrow> nat \<Rightarrow> ('e, 'u) cfunc \<Rightarrow> bool" where
  "always P s (CFunV f) \<longleftrightarrow> (\<forall>blk argv. P (f s blk argv))"
| "always P s (CFun0 f) \<longleftrightarrow> (\<forall>blk. P (f s blk))"
| "always P s (CFun1 f) \<longleftrightarrow> (\<forall>blk a. P (f s blk a))"
| "always P s (CFun2 f) \<longleftrightarrow> (\<forall>blk a b. P (f s blk a b))"
| "always P s (CFun3 f) \<longleftrightarrow> (\<forall>blk a b c. P (f s blk a b c))"
| "always P s (CFun4 f) \<longleftrightarrow> (\<forall>blk a b c d. P (f s blk a b c d))"

definition fits :: "('e, 'u) rb_method \<Rightarrow> bool" where
  "fits m \<longleftrightarrow> parameters (m_func m) = m_arity m"

definition all_methods :: "(string \<Rightarrow> ('e, 'u, rb_return) rb \<Rightarrow> bool) \<Rightarrow> ('e, 'u) rb_class_def \<Rightarrow> nat \<Rightarrow> bool" where
  "all_methods P k s \<longleftrightarrow> list_all (\<lambda>(name, m). fits m \<and> always (P name) s (m_func m)) (c_methods k)"

lemma invoke_always:
  assumes "fits m" and "always P s (m_func m)" and "\<And>x. P (fail (Raised x))"
  shows "P (invoke_method m s blk args)"
proof (cases "0 \<le> m_arity m \<and> int (length args) \<noteq> m_arity m")
  case False
  then have "P (call_cfunc (m_func m) (m_arity m) s blk args)"
    using assms(1,2) unfolding fits_def
    by (cases "m_func m") auto
  then show ?thesis using False by (simp only: invoke_method_def if_False)
qed (simp add: invoke_method_def arity_error_def assms(3))

lemma rb_send_all:
  assumes "all_methods P k s" and "\<And>x. P name (fail (Raised x))"
  shows "P name (rb_send k fcall name s blk args)"
proof (cases "lookup_method (c_methods k) name")
  case (Some m)
  then have "(name, m) \<in> set (c_methods k)"
    by (auto simp: lookup_method_def dest: map_of_SomeD)
  with assms(1) have "fits m" "always (P name) s (m_func m)"
    by (auto simp: all_methods_def list_all_iff)
  then have "P name (invoke_method m s blk args)"
    using assms(2) by (rule invoke_always)
  with Some assms(2) show ?thesis by (simp add: rb_send_def)
qed (simp add: rb_send_def assms(2))

lemma all_methods_both:
  assumes "all_methods P k s" and "all_methods Q k s" and "\<And>name m. P name m \<Longrightarrow> Q name m \<Longrightarrow> R name m"
  shows "all_methods R k s"
proof -
  have "always (R name) s f" if "always (P name) s f" "always (Q name) s f" for name f
    using that assms(3) by (cases f) auto
  with assms(1,2) show ?thesis by (fastforce simp: all_methods_def list_all_iff)
qed

lemmas table_defs = all_methods_def fits_def rb_define_method_def rb_define_private_method_def
  init_sqlite3_database_def init_sqlite3_statement_def init_sqlite3_backup_def

lemma snd_ret: "snd (ret a w) = w"
  by simp

lemma keeps_value [simp]: "keeps I (bindM m (\<lambda>a. ret (f a))) = keeps I m"
  by (simp add: keeps_def snd_bindM_ret del: ret_run)

lemma snd_bindM_ret_pair: "snd (bindM m (\<lambda>(a, b). ret (f a b)) w) = snd (m w)"
  using snd_bindM_ret [of m "\<lambda>p. f (fst p) (snd p)" w] by (simp add: split_def del: ret_run)

lemma keeps_value_pair [simp]: "keeps I (bindM m (\<lambda>(a, b). ret (f a b))) = keeps I m"
  using keeps_value [of I m "\<lambda>p. f (fst p) (snd p)"] by (simp add: split_def)

section \<open>No call on a NULL handle\<close>

text \<open>The classes that the extension defines.\<close>

lemma native_classes:
  assumes "Init_sqlite3_native L U db_of B w = (Inr M, v)" and "k \<in> set (mod_classes M)"
  shows "k = blob_class \<or> k = init_sqlite3_database L U B \<or> k = init_sqlite3_statement L U db_of B \<or>
    k = init_sqlite3_backup L U db_of"
  using assms by (auto simp: Init_sqlite3_native_def bindM_returns_iff split: if_splits)

lemma no_methods: "all_methods P blob_class s"
  by (simp add: all_methods_def blob_class_def)

definition unguarded :: "string \<Rightarrow> bool" where
  "unguarded name \<longleftrightarrow> name \<in> {''statement_timeout='', ''discard'', ''prepare''}"

lemma release_no_null: "release_call (Some h) c \<Longrightarrow> \<not> null_call c"
  by (cases "(Some h, c)" rule: release_call.cases) auto

lemma keeps_no_null_close: "keeps no_null (close_or_discard_db L s)"
  by (intro keeps_close_open) (auto simp: no_null_def upd_defs allows_no_null dest: release_no_null)

lemma no_null_database:
  "all_methods (\<lambda>name m. unguarded name \<or> keeps no_null m) (init_sqlite3_database L U B) s"
  by (simp add: table_defs unguarded_def database_close_def database_closed_p_def keeps_no_null_close
      keeps_no_null_open nn.base.keeps_queries nn.base.keeps_complete_p nn.base.keeps_registrations
      nn.base.keeps_define_function nn.base.keeps_quirk_mode nn.base.keeps_exec_batch nn.base.keeps_define_aggregator)

lemma no_null_statement:
  "all_methods (\<lambda>name m. unguarded name \<or> keeps no_null m) (init_sqlite3_statement L U db_of B) s"
  using statement_methods_no_null [of L U s]
  by (simp add: table_defs unguarded_def guarded_methods_def statement_closed_p_def done_p_def)

lemma keeps_no_null_initialize:
  fixes L :: "'e sqlite_lib"
  shows "keeps (no_null :: ('e, 'u) world \<Rightarrow> bool) (backup_initialize L s dst a src b)"
proof (rule keepsI)
  fix w :: "('e, 'u) world" assume "no_null w"
  show "no_null (snd (backup_initialize L s dst a src b w))"
  proof (cases "d_db (dbs w dst)"; cases "d_db (dbs w src)")
    fix d e assume d: "d_db (dbs w dst) = Some d" and e: "d_db (dbs w src) = Some e"
    have "keeps no_null (bindM (liftE (StringValue a)) (\<lambda>zDst.
       bindM (liftE (StringValue b)) (\<lambda>zSrc.
       bindM (sqlite_call (l_backup L) (Backup_init (Some d) (cstr zDst) (Some e) (cstr zSrc))) (\<lambda>pBackup.
       bindM (if pBackup \<noteq> None then modM (upd_backup s (\<lambda>b. b\<lparr>b_p := pBackup\<rparr>))
            else bindM (sqlite_call (l_int L) (DbCall (Some d) Errcode)) (\<lambda>status.
                 rb_sqlite3_raise L (Some d) status)) (\<lambda>_.
       ret s)))))"
      by (intro keeps_intros keeps_rb_sqlite3_raise allows_no_null) (simp_all add: no_null_def)
    from keepsD [OF this \<open>no_null w\<close>] show ?thesis by (simp add: backup_initialize_def d e)
  qed (simp_all add: backup_initialize_def \<open>no_null w\<close>)
qed

lemma no_null_backup:
  "all_methods (\<lambda>name m. unguarded name \<or> keeps no_null m) (init_sqlite3_backup L U db_of) s"
  by (auto simp: table_defs unguarded_def backup_step_def backup_finish_def backup_remaining_def backup_pagecount_def
      no_null_def upd_defs
      intro!: keeps_bindM open_backup.guarded_keeps keeps_sqlite_call keeps_no_null_initialize
        keeps_modM no_null.sqlite_run_keeps allows_no_null)

lemma no_null_registered:
  assumes "Init_sqlite3_native L U db_of B w0 = (Inr M, w1)" and "k \<in> set (mod_classes M)"
  shows "all_methods (\<lambda>name m. unguarded name \<or> keeps no_null m) k s"
  using native_classes [OF assms] no_null_database no_null_statement no_null_backup no_methods by metis

text \<open>C5: the interface never hands a NULL handle to SQLite. Take any method that the extension registers
  on its classes, called by its name with any number and kind of arguments, with and without a
  block, on an object in any state: every call it makes has a handle, except for the three methods
  that have no guard, \<open>statement_timeout=\<close> and the private \<open>discard\<close> and \<open>prepare\<close>. The finalizers
  of the objects keep the same promise.\<close>

theorem registered_methods_no_null:
  assumes "Init_sqlite3_native L U db_of B w0 = (Inr M, w1)" and "k \<in> set (mod_classes M)"
  shows "(name \<notin> {''statement_timeout='', ''discard'', ''prepare''} \<longrightarrow>
      keeps no_null (rb_send k fcall name s blk args)) \<and>
    (\<forall>t. c_data k = Some t \<longrightarrow> keeps no_null (dfree t s))"
proof (intro conjI impI allI)
  assume "name \<notin> {''statement_timeout='', ''discard'', ''prepare''}"
  then show "keeps no_null (rb_send k fcall name s blk args)"
    using rb_send_all [OF no_null_registered [OF assms], of name] by (simp add: unguarded_def)
next
  fix t assume "c_data k = Some t"
  with native_classes [OF assms] show "keeps no_null (dfree t s)"
    using statement_methods_no_null [of L U s]
    by (auto simp: blob_class_def init_sqlite3_database_def init_sqlite3_statement_def init_sqlite3_backup_def
        database_type_def statement_type_def backup_type_def database_deallocate_def backup_deallocate_def
        keeps_no_null_close)
qed

definition sample_build :: build where
  "sample_build =
     \<lparr>have_initialize = True, have_backup = True, have_column_database_name = True, have_memused = True,
      have_progress_callback = True, have_load_extension = True, have_enable_load_extension = True,
      have_open_autoproxy = True, have_open_uri = True, have_open_memory = True,
      using_sqlcipher_library = False, using_packaged_libraries = True, using_precompiled_libraries = False,
      sqlite_version = ''3.51.2'', sqlite_version_number = 3051002\<rparr>"

lemma sample_native:
  "\<exists>M w. Init_sqlite3_native sample_lib sample_user db_of sample_build sample_world = (Inr M, w) \<and>
    init_sqlite3_database sample_lib sample_user sample_build \<in> set (mod_classes M) \<and>
    init_sqlite3_statement sample_lib sample_user db_of sample_build \<in> set (mod_classes M)"
  by (auto simp: Init_sqlite3_native_def sample_build_def sqlite_call_returns sample_lib_def rb_str_new2_def)

theorem registered_methods_no_null_witness:
  "no_null (snd (rb_send (init_sqlite3_database sample_lib sample_user sample_build) False ''errmsg'' 0 None []
      (upd_db 0 (\<lambda>d. d\<lparr>d_db := Some 7\<rparr>) sample_world)))"
proof -
  obtain M w where "Init_sqlite3_native sample_lib sample_user (\<lambda>_. None) sample_build sample_world = (Inr M, w)"
    "init_sqlite3_database sample_lib sample_user sample_build \<in> set (mod_classes M)"
    using sample_native by blast
  from registered_methods_no_null [OF this, of "''errmsg''" False 0 None "[]"]
  have "keeps no_null (rb_send (init_sqlite3_database sample_lib sample_user sample_build) False ''errmsg'' 0 None [])"
    by simp
  then show ?thesis by (rule keepsD) (simp add: no_null_def sample_world_def)
qed

text \<open>The two other methods without a guard: \<open>discard\<close> of a closed Database calls SQLite with NULL, and
  so does \<open>prepare\<close> with one.\<close>


section \<open>The flags of \<open>Database.new\<close>\<close>

text \<open>The constants that the Ruby code opens with are those that SQLite gets.\<close>

lemma open_constants:
  assumes "Init_sqlite3_native L U db_of B w = (Inr M, v)"
  shows "rb_const_get (mod_open M) ''READONLY'' = Some (RInteger OPEN_READONLY)"
    "rb_const_get (mod_open M) ''READWRITE'' = Some (RInteger OPEN_READWRITE)"
    "rb_const_get (mod_open M) ''CREATE'' = Some (RInteger OPEN_CREATE)"
proof -
  have "mod_open M = init_sqlite3_constants B"
    using assms by (auto simp only: Init_sqlite3_native_def bindM_returns_iff ret_run prod.inject sum.inject rb_module.simps)
  then show "rb_const_get (mod_open M) ''READONLY'' = Some (RInteger OPEN_READONLY)"
    "rb_const_get (mod_open M) ''READWRITE'' = Some (RInteger OPEN_READWRITE)"
    "rb_const_get (mod_open M) ''CREATE'' = Some (RInteger OPEN_CREATE)"
    by (simp_all add: init_sqlite3_constants_def rb_const_get_def INT2NUM_def OPEN_READONLY_def OPEN_READWRITE_def
        OPEN_CREATE_def)
qed

section \<open>Closed objects\<close>

text \<open>The call raises, and neither reaches SQLite nor changes any object.\<close>

definition refuses :: "('e, 'u, 'a) rb \<Rightarrow> ('e, 'u) world \<Rightarrow> bool" where
  "refuses m w \<longleftrightarrow> (\<exists>x v. m w = (Inl (Raised x), v) \<and> calls v = calls w \<and> dbs v = dbs w \<and> stmts v = stmts w \<and>
     backups v = backups w \<and> errinfo v = errinfo w)"

lemma refuses_fail [simp]: "refuses (fail (Raised x)) w"
  by (simp add: refuses_def)

lemma refuses_bindM: "refuses m w \<Longrightarrow> refuses (bindM m f) w"
  by (auto simp: refuses_def)

lemma refuses_closed_db: "d_db (dbs w s) = None \<Longrightarrow> refuses (bindM (require_open_db s) f) w"
  by (simp add: refuses_def open_db.guarded_closed)

lemma refuses_closed_backup: "b_p (backups w s) = None \<Longrightarrow> refuses (bindM (require_open_backup s) f) w"
  by (simp add: refuses_def open_backup.guarded_closed)

definition works_closed :: "string \<Rightarrow> bool" where
  "works_closed name \<longleftrightarrow> name \<in> {''open_v2'', ''open16'', ''close'', ''discard'', ''closed?'', ''complete?'',
     ''disable_quirk_mode'', ''statement_timeout=''}"

lemma refuses_batch: "d_db (dbs w s) = None \<Longrightarrow> refuses (exec_batch L U s a b) w"
  by (simp add: refuses_def exec_batch_def rb_ary_new_def fresh_ref_def bindM_def open_db.guard_closed)

lemma refuses_aggregator: "d_db (dbs w s) = None \<Longrightarrow> refuses (rb_sqlite3_define_aggregator2 L U s a b) w"
  by (simp add: refuses_def rb_sqlite3_define_aggregator2_def)

lemma refuses_database:
  assumes "d_db (dbs w s) = None"
  shows "all_methods (\<lambda>name m. works_closed name \<or> refuses m w) (init_sqlite3_database L U B) s"
  using assms
  by (simp add: table_defs works_closed_def query_defs registration_defs
      refuses_batch refuses_aggregator refuses_closed_db refuses_bindM)

lemma refuses_guarded:
  assumes "s_db (stmts w s) = Some d" and "s_st (stmts w s) = None"
  shows "list_all (\<lambda>m. refuses m w) (guarded_methods L U s a b)"
proof -
  have "\<exists>x. m w = (Inl (Raised x), w)" if "m \<in> set (guarded_methods L U s a b)" for m
    using assms guarded_abort [OF _ that, where w = w]
    by (cases "d_flags (dbs w d) AND SQLITE3_RB_DATABASE_DISCARDED = 0") (auto simp: require_usable_run)
  then show ?thesis unfolding list_all_iff refuses_def by blast
qed

lemma refuses_value: "refuses (bindM m (\<lambda>a. ret (f a))) w \<longleftrightarrow> refuses m w"
  by (auto simp: refuses_def bindM_aborts_iff)

lemma refuses_close: "s_st (stmts w s) = None \<Longrightarrow> refuses (statement_close L U s) w"
  by (simp add: refuses_def statement_close_def open_stmt.guarded_closed)

lemma refuses_statement:
  assumes "s_db (stmts w s) = Some d" and "s_st (stmts w s) = None"
  shows "all_methods (\<lambda>name m. name \<in> {''closed?'', ''done?'', ''prepare''} \<or> refuses m w)
    (init_sqlite3_statement L U db_of B) s"
  using refuses_guarded [OF assms, of L U] assms(2)
  by (simp add: table_defs guarded_methods_def refuses_value refuses_close)

lemma refuses_backup:
  assumes "b_p (backups w s) = None"
  shows "all_methods (\<lambda>name m. name = ''initialize'' \<or> refuses m w) (init_sqlite3_backup L U db_of) s"
  using assms
  by (simp add: table_defs backup_step_def backup_finish_def backup_remaining_def backup_pagecount_def
      refuses_closed_backup refuses_value)

text \<open>C21: a closed object refuses to work. Whatever method is called by its name on a closed Database, a
  closed Statement or a Backup that is not running, with any arguments and a block or none: it raises
  an exception of Ruby or of the extension, and neither reaches SQLite nor changes any object. The
  exceptions are the methods that open, close and ask for the state, \<open>complete?\<close>, which needs no
  connection, and \<open>statement_timeout=\<close>, which has no guard.\<close>

theorem closed_objects_refuse:
  "(d_db (dbs w s) = None \<and>
      name \<notin> {''open_v2'', ''open16'', ''close'', ''discard'', ''closed?'', ''complete?'', ''disable_quirk_mode'',
        ''statement_timeout=''} \<longrightarrow>
      refuses (rb_send (init_sqlite3_database L U B) fcall name s blk args) w) \<and>
   (s_db (stmts w s) = Some d \<and> s_st (stmts w s) = None \<and> name \<notin> {''closed?'', ''done?'', ''prepare''} \<longrightarrow>
      refuses (rb_send (init_sqlite3_statement L U db_of B) fcall name s blk args) w) \<and>
   (b_p (backups w s) = None \<and> name \<noteq> ''initialize'' \<longrightarrow>
      refuses (rb_send (init_sqlite3_backup L U db_of) fcall name s blk args) w)"
proof (intro conjI impI; elim conjE)
  let ?names = "{''open_v2'', ''open16'', ''close'', ''discard'', ''closed?'', ''complete?'', ''disable_quirk_mode'',
        ''statement_timeout=''}"
  assume closed: "d_db (dbs w s) = None" and "name \<notin> ?names"
  then show "refuses (rb_send (init_sqlite3_database L U B) fcall name s blk args) w"
    using rb_send_all [OF refuses_database [OF closed], of name L U B fcall blk args]
    by (simp only: works_closed_def refuses_fail) simp
next
  assume st: "s_db (stmts w s) = Some d" "s_st (stmts w s) = None" and "name \<notin> {''closed?'', ''done?'', ''prepare''}"
  then show "refuses (rb_send (init_sqlite3_statement L U db_of B) fcall name s blk args) w"
    using rb_send_all [OF refuses_statement [OF st], of name L U db_of B fcall blk args]
    by (simp only: refuses_fail) simp
next
  assume bk: "b_p (backups w s) = None" and "name \<noteq> ''initialize''"
  then show "refuses (rb_send (init_sqlite3_backup L U db_of) fcall name s blk args) w"
    using rb_send_all [OF refuses_backup [OF bk], of name L U db_of fcall blk args] by simp
qed

theorem closed_objects_refuse_witness:
  "refuses (rb_send (init_sqlite3_database sample_lib sample_user sample_build) False ''changes'' 0 None []) sample_world \<and>
   refuses (rb_send (init_sqlite3_backup sample_lib sample_user (\<lambda>_. None)) False ''finish'' 0 None []) sample_world \<and>
   refuses (rb_send (init_sqlite3_statement sample_lib sample_user (\<lambda>_. None) sample_build) False ''step'' 3 None [])
     (upd_stmt 3 (\<lambda>s. s\<lparr>s_db := Some 0\<rparr>) sample_world)"
proof -
  have "d_db (dbs sample_world 0) = None" "b_p (backups sample_world 0) = None"
    by (simp_all add: sample_defs)
  moreover have "s_db (stmts (upd_stmt 3 (\<lambda>s. s\<lparr>s_db := Some 0\<rparr>) sample_world) 3) = Some 0"
    "s_st (stmts (upd_stmt 3 (\<lambda>s. s\<lparr>s_db := Some 0\<rparr>) sample_world) 3) = None"
    by (simp_all add: sample_defs upd_defs)
  ultimately show ?thesis
    using closed_objects_refuse [of sample_world 0 "''changes''"] closed_objects_refuse [of sample_world 0 "''finish''"]
      closed_objects_refuse [of "upd_stmt 3 (\<lambda>s. s\<lparr>s_db := Some 0\<rparr>) sample_world" 3 "''step''"]
    by auto
qed

section \<open>Every call is a move\<close>

text \<open>The methods of a connection, by the names of the moves of its life cycle.\<close>

definition a_method :: "'e sqlite_lib \<Rightarrow> 'u rb_user \<Rightarrow> nat \<Rightarrow> ('e, 'u, 'a) rb \<Rightarrow> bool" where
  "a_method L U s m \<longleftrightarrow> (\<exists>k. \<forall>w. snd (m w) = snd (call_method L U s k w))"

lemma a_method_value [simp]: "a_method L U s (bindM m (\<lambda>a. ret (f a))) = a_method L U s m"
  by (simp add: a_method_def snd_bindM_ret del: ret_run)

lemma a_methods:
  "a_method L U s (total_changes L s)" "a_method L U s (last_insert_row_id L s)" "a_method L U s (interrupt L s)"
  "a_method L U s (errmsg L s)" "a_method L U s (errcode L s)" "a_method L U s (changes L s)"
  "a_method L U s (complete_p L s a)" "a_method L U s (transaction_active_p L s)"
  "a_method L U s (db_filename L s a)" "a_method L U s (trace L args blk s)"
  "a_method L U s (busy_handler L args blk s)" "a_method L U s (set_authorizer L s a)"
  "a_method L U s (set_statement_timeout L s a)" "a_method L U s (set_busy_timeout L s a)"
  "a_method L U s (set_extended_result_codes L s a)" "a_method L U s (define_function L U s a blk)"
  "a_method L U s (define_function_with_flags L U s a b blk)" "a_method L U s (collation L s a b)"
  "a_method L U s (load_extension_internal L U s a)" "a_method L U s (enable_load_extension L s a)"
  "a_method L U s (exec_batch L U s a b)" "a_method L U s (rb_sqlite3_define_aggregator2 L U s a b)"
  "a_method L U s (rb_sqlite3_disable_quirk_mode L s)"
  unfolding a_method_def
  by (rule exI, rule allI, rule call_method.simps [THEN fun_cong, THEN arg_cong [where f = snd], unfolded snd_bindM_ret, symmetric])+

definition db_move :: "'e sqlite_lib \<Rightarrow> 'u rb_user \<Rightarrow> nat \<Rightarrow> ('e, 'u, 'a) rb \<Rightarrow> bool" where
  "db_move L U s m \<longleftrightarrow> a_method L U s m \<or> (\<forall>w. snd (m w) = snd (database_close L s w)) \<or>
     (\<forall>w. snd (m w) = snd (database_discard L s w)) \<or> (\<forall>w. snd (m w) = w)"

lemma db_move_value [simp]: "db_move L U s (bindM m (\<lambda>a. ret (f a))) = db_move L U s m"
  by (simp add: db_move_def snd_bindM_ret del: ret_run)

lemma db_moves:
  "a_method L U s m \<Longrightarrow> db_move L U s m" "db_move L U s (database_close L s)"
  "db_move L U s (database_discard L s)" "db_move L U s (database_closed_p s)" "db_move L U s (fail x)"
  by (simp_all add: db_move_def database_closed_p_def)

lemma moves_database:
  "all_methods (\<lambda>name m. name \<in> {''open_v2'', ''open16''} \<or> db_move L U s m) (init_sqlite3_database L U B) s"
  by (simp add: table_defs db_moves a_methods)

lemma activity_db_move:
  assumes "db_move L U s m"
  shows "activity L U w (snd (m w))"
proof -
  have "activity L U w (snd (call_method L U s k w))" "activity L U w (snd (database_close L s w))"
    "activity L U w (snd (database_discard L s w))" for k
    by (intro activity.step [OF activity.start object_step.database [OF surjective_pairing]] activity.step [OF activity.start object_step.close [OF surjective_pairing]]
        activity.step [OF activity.start object_step.discard [OF surjective_pairing]])+
  with assms activity.start show ?thesis unfolding db_move_def a_method_def by metis
qed

text \<open>The moves of the other classes.\<close>

lemma activity_guarded:
  "list_all (\<lambda>m. activity L U w (snd (m w))) (guarded_methods L U s a b)"
  by (auto simp: list_all_iff intro: activity.step [OF activity.start object_step.statement [OF _ surjective_pairing]])

lemma activity_prepare: "activity L U w (snd (bindM (liftE r) (\<lambda>db. prepare L U s db sql) w))"
  by (cases r) (auto intro: activity.start activity.step [OF activity.start object_step.prepare [OF surjective_pairing]])

lemma activity_backup: "activity L U w (snd (call_backup L U s dst src bm w))"
  by (rule activity.step [OF activity.start object_step.backup [OF surjective_pairing]])

lemma activity_statement:
  "all_methods (\<lambda>name m. activity L U w (snd (m w))) (init_sqlite3_statement L U db_of B) s"
  using activity_guarded [of L U w s] activity.step [OF activity.start object_step.finalize [OF surjective_pairing], of L U w s]
    activity_prepare [of L U w _ s]
  by (simp add: table_defs guarded_methods_def snd_bindM_ret bindM_assoc [symmetric] statement_closed_p_def done_p_def
      activity.start snd_ret del: ret_run)

lemma activity_initialize:
  "activity L U w (snd (bindM (liftE r1) (\<lambda>dst. bindM (liftE r2) (\<lambda>src. backup_initialize L s dst x src z)) w))"
  using activity_backup [of L U w s _ _ "B_initialize x z"]
  by (cases r1; cases r2) (simp_all add: snd_bindM_ret activity.start del: ret_run)

lemma activity_backups:
  "all_methods (\<lambda>name m. activity L U w (snd (m w))) (init_sqlite3_backup L U db_of) s"
  using activity_backup [of L U w s _ _ "B_step _"] activity_backup [of L U w s _ _ B_finish]
    activity_backup [of L U w s _ _ B_remaining] activity_backup [of L U w s _ _ B_pagecount]
    activity_initialize [of L U w _ _ s]
  by (simp add: table_defs snd_bindM_ret bindM_assoc [symmetric] del: ret_run)

lemma activity_opens:
  "activity L U w (snd (rb_sqlite3_open_v2 L s a b c w))" "activity L U w (snd (rb_sqlite3_open16 L s a w))"
  by (rule activity.open_v2 [OF activity.start surjective_pairing] activity.open16 [OF activity.start surjective_pairing])+

lemma activity_opening:
  "all_methods (\<lambda>name m. name \<in> {''open_v2'', ''open16''} \<longrightarrow> activity L U w (snd (m w))) (init_sqlite3_database L U B) s"
  using activity_opens [of L U w s]
  by (simp add: table_defs snd_bindM_ret snd_bindM_ret_pair del: ret_run)




text \<open>The move of a statement that a method makes; an exception may escape from \<open>close\<close> only.\<close>

definition stmt_move :: "'e sqlite_lib \<Rightarrow> 'u rb_user \<Rightarrow> nat \<Rightarrow> ('e, 'u) world \<Rightarrow> bool \<Rightarrow> ('e, 'u, 'a) rb \<Rightarrow> bool" where
  "stmt_move L U s w closing m \<longleftrightarrow>
     (\<exists>cs esc. calls (snd (m w)) = calls w @ cs \<and> stmt_life L U s w cs esc (snd (m w)) \<and>
       (esc \<longrightarrow> closing \<and> s_st (stmts w s) \<noteq> None \<and> (\<exists>x. fst (m w) = Inl x)))"

lemma fst_bindM_ret: "(\<exists>x. fst (bindM m (\<lambda>a. ret (f a)) w) = Inl x) \<longleftrightarrow> (\<exists>x. fst (m w) = Inl x)"
  by (cases "m w"; cases "fst (m w)") auto

lemma stmt_move_value [simp]: "stmt_move L U s w closing (bindM m (\<lambda>a. ret (f a))) = stmt_move L U s w closing m"
  by (simp add: stmt_move_def snd_bindM_ret fst_bindM_ret del: ret_run)



lemma activity_registered:
  assumes "Init_sqlite3_native L U db_of B w0 = (Inr M, w1)" and "k \<in> set (mod_classes M)"
  shows "activity L U w (snd (rb_send k fcall name s blk args w))"
proof -
  have "all_methods (\<lambda>name m. activity L U w (snd (m w))) (init_sqlite3_database L U B) s"
    by (rule all_methods_both [OF activity_opening moves_database]) (auto intro: activity_db_move)
  then have "all_methods (\<lambda>name m. activity L U w (snd (m w))) k s"
    using native_classes [OF assms] activity_statement activity_backups no_methods by metis
  from rb_send_all [OF this, where name = name and fcall = fcall and blk = blk and args = args] show ?thesis by (simp add: activity.start)
qed

section \<open>Objects that are used by name\<close>










end
