(* ===== verification/Fork_Handler.thy ===== *)
theory Fork_Handler
  imports Fork_Safety Statement_Laws
begin

unbundle bit_operations_syntax

text \<open>
  \<open>lib/sqlite3/fork_safety.rb\<close>: what the child process does first after a fork. The hook on
  \<open>Process._fork\<close> closes every writable connection it inherited through \<open>Database#close\<close>, which
  discards it. The warning it prints is not modelled.
\<close>

section \<open>The hook\<close>

text \<open>
  \<open>ForkSafety.discard\<close> goes through the tracked Databases; \<open>alive\<close> tells whether the weak
  reference still has its object and \<open>readonly\<close> what \<open>readonly?\<close> answers, the mode the object was
  opened with. The result is the new list \<open>@databases\<close>, which the hook has cleared.
\<close>

definition discard_tracked ::
  "'e sqlite_lib \<Rightarrow> (nat \<Rightarrow> bool) \<Rightarrow> (nat \<Rightarrow> bool) \<Rightarrow> nat list \<Rightarrow> ('e, 'u, unit) rb" where
  "discard_tracked L alive readonly databases =
     iterM (\<lambda>db.
       if \<not> alive db then ret ()
       else bindM (database_closed_p db) (\<lambda>closed.
            if RTEST closed \<or> readonly db then ret ()
            else ignore (database_close L db))) databases"

definition fork_safety_discard ::
  "'e sqlite_lib \<Rightarrow> (nat \<Rightarrow> bool) \<Rightarrow> (nat \<Rightarrow> bool) \<Rightarrow> nat list \<Rightarrow> ('e, 'u, nat list) rb" where
  "fork_safety_discard L alive readonly databases =
     bindM (discard_tracked L alive readonly databases) (\<lambda>_. ret [])"

text \<open>The child of a fork: its process id, then the hook.\<close>

definition fork_child ::
  "'e sqlite_lib \<Rightarrow> (nat \<Rightarrow> bool) \<Rightarrow> (nat \<Rightarrow> bool) \<Rightarrow> nat list \<Rightarrow> int \<Rightarrow> ('e, 'u, nat list) rb" where
  "fork_child L alive readonly databases p =
     bindM (modM (\<lambda>w. w\<lparr>pid := p\<rparr>)) (\<lambda>_. fork_safety_discard L alive readonly databases)"

section \<open>What the child is left with\<close>

definition inherited :: "(nat \<Rightarrow> bool) \<Rightarrow> (nat \<Rightarrow> bool) \<Rightarrow> ('e, 'u) world \<Rightarrow> nat \<Rightarrow> bool" where
  "inherited alive readonly w db \<longleftrightarrow> alive db \<and> \<not> readonly db \<and> d_db (dbs w db) \<noteq> None"

definition discarded :: "sqlite3Ruby \<Rightarrow> sqlite3Ruby" where
  "discarded d = d\<lparr>d_db := None, d_flags := d_flags d OR SQLITE3_RB_DATABASE_DISCARDED\<rparr>"

lemma discarded_simps [simp]:
  "d_db (discarded d) = None" "d_owner (discarded d) = d_owner d"
  "d_flags (discarded d) AND SQLITE3_RB_DATABASE_READONLY = d_flags d AND SQLITE3_RB_DATABASE_READONLY"
  "d_flags (discarded d) AND SQLITE3_RB_DATABASE_DISCARDED \<noteq> 0"
proof -
  show "d_flags (discarded d) AND SQLITE3_RB_DATABASE_DISCARDED \<noteq> 0"
    by (simp add: discarded_def bit.conj_disj_distrib2)
qed (simp_all add: discarded_def readonly_discarded)

lemma discard_one:
  assumes "names_bounded L" and "inherited alive readonly w db"
    and "readonly db \<longleftrightarrow> d_flags (dbs w db) AND SQLITE3_RB_DATABASE_READONLY \<noteq> 0"
    and "d_owner (dbs w db) \<noteq> pid w"
  shows "\<exists>v cs. ignore (database_close L db) w = (Inr (), v) \<and> calls v = calls w @ cs \<and>
    list_all (\<lambda>c. \<not> close_call c) cs \<and> dbs v = (dbs w)(db := discarded (dbs w db)) \<and>
    stmts v = stmts w \<and> pid v = pid w"
proof -
  obtain u where u: "discard_db L db w = (Inr (), upd_db db discarded u)" "releasing (d_db (dbs w db)) w u"
    using discard_run [OF assms(1), of db w] unfolding discarded_def [abs_def] by blast
  have "close_or_discard_db L db w = discard_db L db w"
    using assms(2-4) by (auto simp: inherited_def close_or_discard_db_def bindM_def Let_def)
  with u show ?thesis
    by (auto simp: database_close_def releasing_def upd_db_def release_not_close)
qed

definition child_dbs ::
  "(nat \<Rightarrow> bool) \<Rightarrow> (nat \<Rightarrow> bool) \<Rightarrow> ('e, 'u) world \<Rightarrow> nat list \<Rightarrow> nat \<Rightarrow> sqlite3Ruby" where
  "child_dbs alive readonly w databases r =
     (if r \<in> set databases \<and> inherited alive readonly w r then discarded (dbs w r) else dbs w r)"

lemma discard_all:
  assumes "names_bounded L"
    and "\<forall>db \<in> set databases. readonly db = (d_flags (dbs w db) AND SQLITE3_RB_DATABASE_READONLY \<noteq> 0) \<and>
      d_owner (dbs w db) \<noteq> pid w"
  shows "\<exists>v cs. discard_tracked L alive readonly databases w = (Inr (), v) \<and> calls v = calls w @ cs \<and>
    list_all (\<lambda>c. \<not> close_call c) cs \<and> dbs v = child_dbs alive readonly w databases \<and> stmts v = stmts w"
  using assms(2)
proof (induction databases arbitrary: w)
  case Nil
  then show ?case by (simp add: discard_tracked_def child_dbs_def fun_eq_iff)
next
  case (Cons db databases)
  let ?one = "if \<not> alive db then ret ()
       else bindM (database_closed_p db) (\<lambda>closed.
            if RTEST closed \<or> readonly db then ret ()
            else ignore (database_close L db))"
  have step: "discard_tracked L alive readonly (db # databases) w =
      bindM ?one (\<lambda>_. discard_tracked L alive readonly databases) w"
    by (simp add: discard_tracked_def)
  show ?case
  proof (cases "inherited alive readonly w db")
    case False
    then have "?one w = (Inr (), w)"
      by (auto simp: inherited_def database_closed_p_def rb_bool_def RTEST_def)
    moreover have "child_dbs alive readonly w (db # databases) = child_dbs alive readonly w databases"
      using False by (auto simp: child_dbs_def fun_eq_iff)
    ultimately show ?thesis
      using Cons.IH [of w] Cons.prems by (simp add: step)
  next
    case True
    then obtain v cs where v: "ignore (database_close L db) w = (Inr (), v)" "calls v = calls w @ cs"
      "list_all (\<lambda>c. \<not> close_call c) cs" "dbs v = (dbs w)(db := discarded (dbs w db))"
      "stmts v = stmts w" "pid v = pid w"
      using discard_one [OF assms(1) True] Cons.prems by auto
    have "?one w = (Inr (), v)"
      using True v(1) by (auto simp: inherited_def database_closed_p_def rb_bool_def RTEST_def)
    moreover have "child_dbs alive readonly v databases = child_dbs alive readonly w (db # databases)"
      using True by (auto simp: child_dbs_def inherited_def v(4) fun_eq_iff)
    moreover have "\<forall>db \<in> set databases. readonly db = (d_flags (dbs v db) AND SQLITE3_RB_DATABASE_READONLY \<noteq> 0) \<and>
        d_owner (dbs v db) \<noteq> pid v"
      using Cons.prems by (simp add: v)
    from Cons.IH [OF this] obtain u ds where "discard_tracked L alive readonly databases v = (Inr (), u)"
      "calls u = calls v @ ds" "list_all (\<lambda>c. \<not> close_call c) ds"
      "dbs u = child_dbs alive readonly v databases" "stmts u = stmts v" by blast
    ultimately show ?thesis
      using v by (auto simp: step)
  qed
qed

text \<open>The first thing the child of a fork does is to give up the connections it inherited. The
  hook returns and forgets the list; it closes none of them with \<open>sqlite3_close_v2\<close>; afterwards every tracked writable
  Database that was open is closed and marked as discarded, the read-only and the closed ones are
  as they were, and every statement of a discarded one refuses to work: each of its guarded
  methods raises and neither reaches SQLite nor changes anything.\<close>

lemma fork_hook:
  assumes "names_bounded L"
    and "\<forall>db \<in> set databases. readonly db = (d_flags (dbs w db) AND SQLITE3_RB_DATABASE_READONLY \<noteq> 0) \<and>
      d_owner (dbs w db) \<noteq> p"
  shows "\<exists>v cs. fork_child L alive readonly databases p w = (Inr [], v) \<and> calls v = calls w @ cs \<and>
    list_all (\<lambda>c. \<not> close_call c) cs \<and>
    (\<forall>db \<in> set databases.
       if inherited alive readonly w db
       then d_db (dbs v db) = None \<and> d_flags (dbs v db) AND SQLITE3_RB_DATABASE_DISCARDED \<noteq> 0 \<and>
         (\<forall>s a b m. s_db (stmts w s) = Some db \<and> m \<in> set (guarded_methods L U s a b) \<longrightarrow>
            m v = (Inl discarded_error, v))
       else dbs v db = dbs w db)"
proof -
  obtain v cs where v: "fork_child L alive readonly databases p w = (Inr [], v)" "calls v = calls w @ cs"
    "list_all (\<lambda>c. \<not> close_call c) cs" "dbs v = child_dbs alive readonly (w\<lparr>pid := p\<rparr>) databases" "stmts v = stmts w"
    using discard_all [OF assms(1), of databases readonly "w\<lparr>pid := p\<rparr>" alive] assms(2)
    by (auto simp: fork_child_def fork_safety_discard_def)
  have inh: "inherited alive readonly (w\<lparr>pid := p\<rparr>) = inherited alive readonly w"
    by (simp add: inherited_def fun_eq_iff)
  have "m v = (Inl discarded_error, v)"
    if "s_db (stmts w s) = Some db" "m \<in> set (guarded_methods L U s a b)" "db \<in> set databases"
      "inherited alive readonly w db" for s a b m db
    by (rule guarded_abort [OF _ that(2)]) (use that in \<open>simp add: require_usable_run v(4,5) child_dbs_def inh\<close>)
  with v show ?thesis
    by (intro exI [of _ v] exI [of _ cs]) (auto simp: child_dbs_def inh)
qed

definition textless_lib :: "unit sqlite_lib" where
  "textless_lib = sample_lib\<lparr>l_text := \<lambda>c e. (None, e)\<rparr>"

end
