(* ===== verification/Opening_Laws.thy ===== *)
theory Opening_Laws
  imports Process Fork_Handler
begin

unbundle bit_operations_syntax

text \<open>
  What \<open>Database.new\<close> promises: the Ruby flag that the fork handler reads agrees with the flag in
  the struct, the process that made the object owns it, and the loading of extensions is
  switched off again however the constructor ends. With the first two, the hook in the child of a fork does its
  work over any history of the process.
\<close>

section \<open>The two read-only flags\<close>

lemma readonly_bit: "sint (flags :: cint) AND OPEN_READONLY \<noteq> 0 \<longleftrightarrow> flags AND SQLITE_OPEN_READONLY \<noteq> 0"
proof -
  have "odd (sint flags) \<longleftrightarrow> odd flags"
    by (simp add: bit_0 [symmetric] bit_sint_iff del: bit_0)
  then show ?thesis
    by (simp add: OPEN_READONLY_def and_one_eq even_iff_mod_2_eq_zero [symmetric])
qed

lemma mode_flags:
  assumes "NUM2INT mode = Inr flags" and "mode_readonly mode = Inr b"
  shows "b \<longleftrightarrow> flags AND SQLITE_OPEN_READONLY \<noteq> 0"
proof -
  obtain n where "mode = RInteger n" using assms(2) by (cases mode) (auto simp: mode_readonly_def)
  with assms readonly_bit [of flags] show ?thesis
    by (auto simp: mode_readonly_def dest: int_in_range_Inr)
qed

definition same_modes :: "nat \<Rightarrow> ('e, 'u) world \<Rightarrow> ('e, 'u) world \<Rightarrow> bool" where
  "same_modes s w v \<longleftrightarrow> pid v = pid w \<and> d_owner (dbs v s) = d_owner (dbs w s) \<and> d_flags (dbs v s) = d_flags (dbs w s)"

lemma same_modes_simps:
  "same_modes s w w" "same_modes s w (v\<lparr>env := e, calls := cs\<rparr>) = same_modes s w v"
  "same_modes s w (upd_db s (\<lambda>d. d\<lparr>d_db := z\<rparr>) v) = same_modes s w v"
  by (simp_all add: same_modes_def upd_db_def)

lemma same_modes_check: "keeps (same_modes s w) (check_opened L s status db)"
  unfolding check_opened_def
  by (intro keeps_intros) (simp_all add: allows_def same_modes_simps)

lemma open_v2_returns:
  assumes "rb_sqlite3_open_v2 L s file mode zvfs w = (Inr z, v)"
  shows "\<exists>flags u. NUM2INT mode = Inr flags \<and> same_modes s w u \<and>
    v = (if flags AND SQLITE_OPEN_READONLY \<noteq> 0
      then upd_db s (\<lambda>d. d\<lparr>d_flags := d_flags d OR SQLITE3_RB_DATABASE_READONLY\<rparr>) u else u)"
proof -
  from assms obtain flags fn vfs st db u1 u where "NUM2INT mode = Inr flags"
    and "sqlite_call (l_open L) (Open_v2 fn flags vfs) w = (Inr (st, db), u1)"
    and "check_opened L s st db (upd_db s (\<lambda>d. d\<lparr>d_db := db\<rparr>) u1) = (Inr (), u)"
    and "v = (if flags AND SQLITE_OPEN_READONLY \<noteq> 0
      then upd_db s (\<lambda>d. d\<lparr>d_flags := d_flags d OR SQLITE3_RB_DATABASE_READONLY\<rparr>) u else u)"
    by (auto simp: rb_sqlite3_open_v2_def require_closed_db_def bindM_returns_iff require_run split: if_splits)
  moreover from this(2) have "same_modes s w (upd_db s (\<lambda>d. d\<lparr>d_db := db\<rparr>) u1)"
    by (auto simp: sqlite_call_returns same_modes_simps)
  ultimately show ?thesis using keepsE [OF same_modes_check] by blast
qed

lemma open16_returns:
  assumes "rb_sqlite3_open16 L s file w = (Inr z, v)"
  shows "same_modes s w v"
proof -
  from assms obtain fn st db u where "sqlite_call (l_open L) (Open16 fn) w = (Inr (st, db), u)"
    and "check_opened L s st db (upd_db s (\<lambda>d. d\<lparr>d_db := db\<rparr>) u) = (Inr (), v)"
    by (auto simp: rb_sqlite3_open16_def require_closed_db_def bindM_returns_iff require_run split: if_splits)
  moreover from this(1) have "same_modes s w (upd_db s (\<lambda>d. d\<lparr>d_db := db\<rparr>) u)"
    by (auto simp: sqlite_call_returns same_modes_simps)
  ultimately show ?thesis using keepsE [OF same_modes_check] by blast
qed

interpretation modes: call_frame "same_modes s w" for s w
  by unfold_locales (auto simp: same_modes_def upd_defs)

lemma modes_extensions: "keeps (same_modes s w) (initialize_extensions L U s exts)"
  unfolding initialize_extensions_def load_extension_def extension_path_def
  by (auto split: rb_value.split list.split
      intro!: keeps_intros modes.keeps_funcall modes.base.keeps_registrations)

lemma modes_path: "keeps (same_modes s w) (file_path U path)"
  unfolding file_path_def by (intro keeps_intros modes.keeps_funcall)

lemma modes_ivars: "keeps (same_modes s w) (init_ivars s h)"
  unfolding init_ivars_def by (auto intro!: keeps_intros keepsI simp: same_modes_def fresh_ref_def upd_defs rb_ary_new_def)

lemma open_connection_returns:
  assumes "open_connection L U s path options zvfs w = (Inr mode, v)" and "mode_readonly mode = Inr b"
  shows "pid v = pid w \<and> d_owner (dbs v s) = d_owner (dbs w s) \<and>
    d_flags (dbs v s) = (if b then d_flags (dbs w s) OR SQLITE3_RB_DATABASE_READONLY else d_flags (dbs w s))"
proof -
  obtain name w1 utf16 where name: "file_path U path w = (Inr name, w1)"
    and rest: "(if utf16 \<or> RTEST (option_value options ''utf16'')
       then bindM (rb_sqlite3_open16 L s name) (\<lambda>_. ret (RInteger (OPEN_READWRITE OR OPEN_CREATE)))
       else bindM (liftE (open_mode options)) (\<lambda>mode.
            bindM (liftE (encode_name U name)) (\<lambda>file.
            bindM (rb_sqlite3_open_v2 L s file mode zvfs) (\<lambda>_.
            bindM (if RTEST (option_value options ''strict'') then ignore (rb_sqlite3_disable_quirk_mode L s)
              else ret ()) (\<lambda>_. ret mode))))) w1 = (Inr mode, v)"
    using assms(1) unfolding open_connection_def by (auto simp: bindM_returns_iff)
  have w1: "same_modes s w w1"
    by (rule keepsE [OF modes_path same_modes_simps(1) name])
  show ?thesis
  proof (cases "utf16 \<or> RTEST (option_value options ''utf16'')")
    case True
    with rest have "\<exists>z. rb_sqlite3_open16 L s name w1 = (Inr z, v)" and "mode = RInteger (OPEN_READWRITE OR OPEN_CREATE)"
      by (auto simp: bindM_returns_iff)
    moreover from this(2) assms(2) have "\<not> b"
      by (simp add: mode_readonly_def OPEN_READONLY_def OPEN_READWRITE_def OPEN_CREATE_def)
    ultimately show ?thesis using w1 open16_returns [of L s name w1 _ v] by (auto simp: same_modes_def)
  next
    case False
    with rest obtain fname z w2 where open_v2: "rb_sqlite3_open_v2 L s fname mode zvfs w1 = (Inr z, w2)"
      and quirk: "(if RTEST (option_value options ''strict'') then ignore (rb_sqlite3_disable_quirk_mode L s)
        else ret ()) w2 = (Inr (), v)"
      by (auto simp: bindM_returns_iff)
    have "keeps (same_modes s w2) (if RTEST (option_value options ''strict'')
        then ignore (rb_sqlite3_disable_quirk_mode L s) else ret ())"
      by (intro keeps_if keeps_bindM keeps_ret modes.base.keeps_quirk_mode)
    from keepsE [OF this same_modes_simps(1) quirk] have "same_modes s w2 v" .
    moreover from open_v2_returns [OF open_v2] obtain flags u where "NUM2INT mode = Inr flags"
      "same_modes s w1 u" "w2 = (if flags AND SQLITE_OPEN_READONLY \<noteq> 0
        then upd_db s (\<lambda>d. d\<lparr>d_flags := d_flags d OR SQLITE3_RB_DATABASE_READONLY\<rparr>) u else u)" by blast
    moreover from this(1) have "b \<longleftrightarrow> flags AND SQLITE_OPEN_READONLY \<noteq> 0" by (rule mode_flags [OF _ assms(2)])
    ultimately show ?thesis using w1 by (auto simp: same_modes_def upd_defs)
  qed
qed

lemma initialize_returns:
  assumes "database_initialize L U s path options zvfs w = (Inr ivs, v)"
  shows "pid v = pid w \<and> d_owner (dbs v s) = d_owner (dbs w s) \<and>
    d_flags (dbs v s) = (if at_readonly ivs then d_flags (dbs w s) OR SQLITE3_RB_DATABASE_READONLY else d_flags (dbs w s))"
proof -
  obtain mode w1 w2 b where opened: "open_connection L U s path options zvfs w = (Inr mode, w1)"
    and ivars: "init_ivars s (option_value options ''results_as_hash'') w1 = (Inr (), w2)"
    and mode: "mode_readonly mode = Inr b" "at_readonly ivs = b"
    and exts: "initialize_extensions L U s (option_value options ''extensions'') w2 = (Inr (), v)"
    using assms by (auto simp: database_initialize_def bindM_returns_iff)
  have "same_modes s w1 w2" by (rule keepsE [OF modes_ivars same_modes_simps(1) ivars])
  moreover have "same_modes s w2 v" by (rule keepsE [OF modes_extensions same_modes_simps(1) exts])
  ultimately show ?thesis using open_connection_returns [OF opened mode(1)] mode(2) by (auto simp: same_modes_def)
qed

lemma new_returns:
  assumes "database_new L U databases path options zvfs w = (Inr (db, ivs, databases'), v)"
  shows "db = next_ref w \<and> databases' = databases @ [db] \<and> pid v = pid w \<and> d_owner (dbs v db) = pid w \<and>
    d_flags (dbs v db) = (if at_readonly ivs then SQLITE3_RB_DATABASE_READONLY else 0)"
proof -
  have "database_initialize L U (next_ref w) path options zvfs (allocated w) = (Inr ivs, v)" "db = next_ref w"
    "databases' = databases @ [db]"
    using assms by (auto simp: database_new_run bindM_returns_iff)
  with initialize_returns [OF this(1)] show ?thesis by (simp add: allocated_def zero_sqlite3Ruby_def)
qed

section \<open>Processes that fork\<close>

text \<open>
  The history of a process, from its start without Databases through any number of forks, as the
  process at the end of the line sees it: the tracked list, what \<open>readonly?\<close> answers for each Database,
  and the world. The objects of the extension do anything that they can, with any outcome;
  Databases are made by \<open>Database.new\<close>. (The private \<open>open_v2\<close> and \<open>open16\<close> are only called by it.)
  At a fork the child is followed; its process id is a new one.
\<close>

inductive process ::
  "'e sqlite_lib \<Rightarrow> 'u rb_user \<Rightarrow> nat list \<Rightarrow> (nat \<Rightarrow> bool) \<Rightarrow> ('e, 'u) world \<Rightarrow> bool" for L U where
  start: "process L U [] (\<lambda>_. False) w"
| new: "process L U databases readonly w \<Longrightarrow>
    database_new L U databases path options zvfs w = (Inr (db, ivs, databases'), v) \<Longrightarrow>
    process L U databases' (readonly(db := at_readonly ivs)) v"
| failed_new: "process L U databases readonly w \<Longrightarrow>
    database_new L U databases path options zvfs w = (Inl x, v) \<Longrightarrow> process L U databases readonly v"
| step: "process L U databases readonly w \<Longrightarrow> object_step L U w v \<Longrightarrow> process L U databases readonly v"
| fork: "process L U databases readonly w \<Longrightarrow> p \<noteq> pid w \<Longrightarrow>
    fork_child L alive readonly databases p w = (Inr databases', v) \<Longrightarrow> process L U databases' readonly v"

definition tracked_inv :: "nat \<Rightarrow> nat list \<Rightarrow> (nat \<Rightarrow> bool) \<Rightarrow> ('e, 'u) world \<Rightarrow> bool" where
  "tracked_inv n databases readonly w \<longleftrightarrow>
     n \<le> next_ref w \<and>
     (\<forall>db \<in> set databases. db < n \<and> d_owner (dbs w db) = pid w \<and>
        (readonly db \<longleftrightarrow> d_flags (dbs w db) AND SQLITE3_RB_DATABASE_READONLY \<noteq> 0))"

interpretation tracked: call_frame "tracked_inv n databases readonly" for n databases readonly
  by unfold_locales (auto simp: tracked_inv_def upd_defs)

interpretation tracked_object: object_base "tracked_inv n databases readonly" L U for n databases readonly L U
proof unfold_locales
  show "keeps (tracked_inv n databases readonly) (sqlite_run (callback_handler L U) (l_run L) c)"
    "keeps (tracked_inv n databases readonly) (sqlite_run (callback_handler L U) (l_prepare L) c)" for c
    by (rule tracked.sqlite_run_keeps; simp add: tracked_inv_def)+
qed (auto simp: tracked_inv_def upd_defs)

text \<open>Opening one object leaves the others alone.\<close>

interpretation opening_other: opening_base "\<lambda>w. s \<in> set databases \<or> tracked_inv n databases readonly w" s
  for s n databases readonly
  by unfold_locales (auto simp: tracked_inv_def upd_defs)

lemma keeps_tracked_opening:
  assumes "s \<notin> set databases"
  shows "keeps (tracked_inv n databases readonly) (open_connection L U s path options zvfs)"
  using opening_other.keeps_open_connection [of s databases n readonly L U path options zvfs] assms by simp

lemma keeps_tracked_extensions: "keeps (tracked_inv n databases readonly) (initialize_extensions L U s exts)"
  unfolding initialize_extensions_def load_extension_def extension_path_def
  by (auto split: rb_value.split list.split
      intro!: keeps_intros keeps_rb_funcall tracked.base.user tracked.base.keeps_registrations)

lemma keeps_tracked_ivars: "keeps (tracked_inv n databases readonly) (init_ivars s h)"
  unfolding init_ivars_def
  by (auto intro!: keeps_intros keepsI simp: tracked_inv_def fresh_ref_def upd_defs rb_ary_new_def)

lemma allocated_fields:
  "next_ref (allocated w) = Suc (next_ref w)" "pid (allocated w) = pid w"
  "dbs (allocated w) = (dbs w)(next_ref w := zero_sqlite3Ruby\<lparr>d_owner := pid w\<rparr>)"
  by (simp_all add: allocated_def upd_defs)

lemma tracked_new:
  assumes "tracked_inv n databases readonly w"
    and "database_new L U databases path options zvfs w = (r, v)"
  shows "tracked_inv (Suc (next_ref w)) databases readonly v"
proof -
  let ?I = "tracked_inv (Suc (next_ref w)) databases readonly" and ?s = "next_ref w"
  have s: "?s \<notin> set databases" using assms(1) by (auto simp: tracked_inv_def)
  then have "keeps ?I (database_initialize L U ?s path options zvfs)"
    unfolding database_initialize_def
    by (intro keeps_bindM keeps_ret keeps_liftE keeps_tracked_extensions keeps_tracked_ivars
        keeps_tracked_opening)
  moreover have "?I (allocated w)"
    unfolding tracked_inv_def
  proof (intro conjI ballI)
    fix db assume db: "db \<in> set databases"
    with s have "dbs (allocated w) db = dbs w db" by (auto simp: allocated_fields)
    with db assms(1) show "db < Suc ?s" "d_owner (dbs (allocated w) db) = pid (allocated w)"
      "readonly db \<longleftrightarrow> d_flags (dbs (allocated w) db) AND SQLITE3_RB_DATABASE_READONLY \<noteq> 0"
      by (auto simp: tracked_inv_def allocated_fields)
  qed (simp add: allocated_fields)
  ultimately have "?I (snd (database_initialize L U ?s path options zvfs (allocated w)))" by (rule keepsD)
  moreover have "v = snd (database_initialize L U ?s path options zvfs (allocated w))"
    using arg_cong [OF assms(2), of snd] by (simp add: database_new_run snd_bindM_ret del: ret_run)
  ultimately show ?thesis by simp
qed

lemma tracked_process: "process L U databases readonly w \<Longrightarrow> \<exists>n. tracked_inv n databases readonly w"
proof (induction rule: process.induct)
  case (start w)
  show ?case by (auto simp: tracked_inv_def)
next
  case (new databases readonly w path options zvfs db ivs databases' v)
  then obtain n where n: "tracked_inv n databases readonly w" by blast
  note made = new_returns [OF new.hyps(2)]
  then have "db = next_ref w" "databases' = databases @ [db]" "d_owner (dbs v db) = pid v" by metis+
  moreover have flag: "at_readonly ivs \<longleftrightarrow> d_flags (dbs v db) AND SQLITE3_RB_DATABASE_READONLY \<noteq> 0"
    unfolding made [THEN conjunct2, THEN conjunct2, THEN conjunct2, THEN conjunct2] by simp
  moreover have "next_ref w \<notin> set databases" using n by (auto simp: tracked_inv_def)
  ultimately have "tracked_inv (Suc (next_ref w)) databases' (readonly(db := at_readonly ivs)) v"
    using tracked_new [OF n new.hyps(2)] by (simp add: tracked_inv_def ball_Un flag)
  then show ?case ..
next
  case (failed_new databases readonly w path options zvfs x v)
  then show ?case using tracked_new by blast
next
  case (step databases readonly w v)
  then show ?case using tracked_object.object_step_keeps by blast
next
  case (fork databases readonly w p alive databases' v)
  then have "databases' = []" by (auto simp: fork_child_def fork_safety_discard_def bindM_returns_iff)
  then show ?case by (auto simp: tracked_inv_def)
qed

text \<open>C2: no connection is used across a fork. In any history of a process, whatever Databases it has opened
  and however they were used, the hook in a forked child returns and forgets the tracked
  Databases; it closes none of them with \<open>sqlite3_close_v2\<close>; afterwards every one that was open and was not opened
  read-only is closed and marked as discarded, all others are as they were, and every guarded
  method of a statement of a discarded one raises and neither reaches SQLite nor changes anything.\<close>

theorem forked_child_discards:
  assumes "names_bounded L" and "process L U databases readonly w" and "p \<noteq> pid w"
  shows "\<exists>v cs. fork_child L alive readonly databases p w = (Inr [], v) \<and> calls v = calls w @ cs \<and>
    list_all (\<lambda>c. \<not> close_call c) cs \<and>
    (\<forall>db \<in> set databases.
       if alive db \<and> \<not> readonly db \<and> d_db (dbs w db) \<noteq> None
       then d_db (dbs v db) = None \<and> d_flags (dbs v db) AND SQLITE3_RB_DATABASE_DISCARDED \<noteq> 0 \<and>
         (\<forall>s a b m. s_db (stmts w s) = Some db \<and> m \<in> set (guarded_methods L U s a b) \<longrightarrow>
            m v = (Inl discarded_error, v))
       else dbs v db = dbs w db)"
proof -
  have "\<forall>db \<in> set databases. readonly db = (d_flags (dbs w db) AND SQLITE3_RB_DATABASE_READONLY \<noteq> 0) \<and>
      d_owner (dbs w db) \<noteq> p"
    using tracked_process [OF assms(2)] assms(3) by (auto simp: tracked_inv_def)
  from fork_hook [OF assms(1) this] show ?thesis
    unfolding inherited_def .
qed

theorem forked_child_discards_witness:
  "\<exists>v. fork_child textless_lib (\<lambda>_. True) (\<lambda>_. False) [0] 2 one_database = (Inr [], v) \<and>
    d_db (dbs v 0) = None \<and> d_flags (dbs v 0) AND SQLITE3_RB_DATABASE_DISCARDED \<noteq> 0"
proof -
  let ?ivs = "\<lparr>at_readonly = False, at_default_transaction_mode = RSymbol ''deferred''\<rparr>"
  have "names_bounded textless_lib" by (simp add: names_bounded_def textless_lib_def)
  moreover have "process textless_lib sample_user [0] ((\<lambda>_. False)(0 := at_readonly ?ivs)) one_database"
    by (rule process.new [OF process.start one_database_run(1)]) (simp_all add: textless_lib_def sample_user_def)
  then have "process textless_lib sample_user [0] (\<lambda>_. False) one_database" by (simp add: fun_upd_idem)
  moreover have "2 \<noteq> pid one_database"
    by (simp add: one_database_run)
  ultimately show ?thesis
    using forked_child_discards [where alive = "\<lambda>_. True"] one_database_run(2) by fastforce
qed

section \<open>Extensions\<close>

text \<open>What the loading of extensions asks SQLite for.\<close>

definition extension_call :: "sql_call \<Rightarrow> bool" where
  "extension_call c \<longleftrightarrow> (case c of
     DbCall h (Enable_load_extension n) \<Rightarrow> True
   | DbCall h (Load_extension q) \<Rightarrow> True
   | _ \<Rightarrow> False)"

definition asks :: "('e, 'u) world \<Rightarrow> sql_call list \<Rightarrow> ('e, 'u) world \<Rightarrow> bool" where
  "asks w cs v \<longleftrightarrow> db_handles_same w v \<and>
     (\<exists>ds. calls v = calls w @ ds \<and> filter extension_call ds = cs)"

lemma asks_refl: "asks w [] w"
  by (simp add: asks_def db_handles_same_def)

lemma asks_handle: "asks w cs u \<Longrightarrow> d_db (dbs u s) = d_db (dbs w s)"
  by (simp add: asks_def db_handles_same_def)

lemma asks_call:
  "asks w cs u \<Longrightarrow> asks w (cs @ filter extension_call [c]) (u\<lparr>env := e, calls := calls u @ [c]\<rparr>)"
  by (auto simp: asks_def db_handles_same_def)

lemma asks_others:
  "\<not> extension_call c \<Longrightarrow> allows (asks w cs) c"
  "keeps (asks w cs) (rb_sqlite3_raise L db status)" "keeps (asks w cs) (rb_sqlite3_raise_msg status msg)"
  "keeps (asks w cs) (rb_funcall U recv meth args)" "keeps (asks w cs) (modM (upd_hash r f))"
  "keeps (asks w cs) (modM (upd_ivars s g))" "keeps (asks w cs) rb_ary_new" "keeps (asks w cs) fresh_ref"
proof -
  show others: "allows (asks w cs) c" if "\<not> extension_call c" for c
    using asks_call [of w cs _ c] that by (auto simp: allows_def)
  show "keeps (asks w cs) (rb_sqlite3_raise L db status)" "keeps (asks w cs) (rb_sqlite3_raise_msg status msg)"
    by (intro keeps_intros others; simp add: extension_call_def)+
  show "keeps (asks w cs) (rb_funcall U recv meth args)"
    by (rule keeps_rb_funcall) (simp add: asks_def db_handles_same_def)
qed (auto intro!: keeps_intros keepsI simp: asks_def db_handles_same_def fresh_ref_def rb_ary_new_def upd_defs)

lemma enable_asks:
  assumes "asks w cs u" and "d_db (dbs w s) = Some h"
  shows "asks w (cs @ [DbCall (Some h) (Enable_load_extension (if b then 1 else 0))])
    (snd (enable_load_extension L s (rb_bool b) u))"
proof -
  let ?c = "DbCall (Some h) (Enable_load_extension (if b then 1 else 0))"
  let ?u = "u\<lparr>env := snd (l_int L ?c (env u)), calls := calls u @ [?c]\<rparr>"
  have "enable_load_extension L s (rb_bool b) u =
      bindM (rb_sqlite3_raise L (Some h) (fst (l_int L ?c (env u)))) (\<lambda>_. ret s) ?u"
    using assms(2) asks_handle [OF assms(1)]
    by (simp add: enable_load_extension_def open_db.guarded_open rb_bool_def sqlite_call_returns)
  moreover have "asks w (cs @ [?c]) ?u"
    using asks_call [OF assms(1), of ?c] by (simp add: extension_call_def)
  ultimately show ?thesis
    by (simp add: snd_bindM_ret keepsD [OF asks_others(2)] del: ret_run)
qed

text \<open>One extension asks for at most one file, and for one when it was loaded.\<close>

abbreviation load_call :: "dbh \<Rightarrow> string \<Rightarrow> sql_call" where
  "load_call h q \<equiv> DbCall (Some h) (Load_extension q)"

definition loads :: "('e, 'u) world \<Rightarrow> sql_call list \<Rightarrow> dbh \<Rightarrow> nat \<Rightarrow> abort + 'a \<Rightarrow> ('e, 'u) world \<Rightarrow> bool" where
  "loads w cs h n r v \<longleftrightarrow>
     (\<exists>qs. length qs \<le> n \<and> (\<forall>z. r = Inr z \<longrightarrow> length qs = n) \<and> asks w (cs @ map (load_call h) qs) v)"

lemma load_internal_loads:
  assumes "asks w cs u" and "d_db (dbs w s) = Some h" and "load_extension_internal L U s f u = (r, v)"
  shows "loads w cs h 1 r v"
proof (cases "StringValue f")
  case (Inl x)
  then show ?thesis
    using assms asks_handle [OF assms(1), of s]
    by (auto simp: load_extension_internal_def open_db.guarded_open loads_def intro!: exI [of _ "[]"])
next
  case (Inr q)
  let ?c = "load_call h (cstr q)"
  obtain r1 t where run: "sqlite_run (callback_handler L U) (l_exec L) ?c u = (r1, t)" by force
  have "asks w (cs @ [?c]) t"
    using structs_same_run [OF run] asks_call [OF assms(1), of ?c]
    by (simp add: structs_same_def asks_def extension_call_def db_handles_same_def)
  moreover have "keeps (asks w (cs @ [?c])) (bindM (rb_sqlite3_raise_msg st msg) (\<lambda>_. ret s))" for st msg
    by (intro keeps_bindM keeps_ret asks_others)
  moreover have "(r, v) = (case r1 of Inl x \<Rightarrow> (Inl x, t)
      | Inr (st, msg) \<Rightarrow> bindM (rb_sqlite3_raise_msg st msg) (\<lambda>_. ret s) t)"
    using assms(2,3) asks_handle [OF assms(1), of s] run Inr
    by (auto simp: load_extension_internal_def open_db.guarded_open split: sum.splits)
  ultimately have "asks w (cs @ [?c]) v"
    by (cases r1) (auto dest: keepsE [OF _ _ sym])
  then show ?thesis by (auto simp: loads_def intro!: exI [of _ "[cstr q]"])
qed

lemma load_extension_loads:
  assumes "asks w cs u" and "d_db (dbs w s) = Some h" and "load_extension L U s e u = (r, v)"
  shows "loads w cs h 1 r v"
proof -
  have none: "loads w cs h 1 (Inl x) t" if "asks w cs t" for x and t :: "('a, 'b) world"
    using that by (auto simp: loads_def intro!: exI [of _ "[]"])
  have "keeps (asks w cs) (extension_path U e)"
    unfolding extension_path_def by (auto split: rb_value.split intro!: keeps_intros asks_others)
  moreover obtain q t where q: "extension_path U e u = (q, t)" by force
  ultimately have t: "asks w cs t" using assms(1) by (blast intro: keepsE)
  with q assms(3) load_internal_loads [OF t assms(2)] none [OF t] show ?thesis
    by (cases q) (auto simp: load_extension_def)
qed

lemma iterM_next: "f x w = (Inr u, v) \<Longrightarrow> iterM f (x # xs) w = iterM f xs v"
  by simp

lemma extensions_loads:
  assumes "asks w cs u" and "d_db (dbs w s) = Some h"
    and "iterM (\<lambda>e. ignore (load_extension L U s e)) es u = (r, v)"
  shows "loads w cs h (length es) r v"
  using assms(1,3)
proof (induction es arbitrary: cs u)
  case Nil
  then show ?case by (auto simp: loads_def intro!: exI [of _ "[]"])
next
  case (Cons e es)
  obtain r1 t where load: "load_extension L U s e u = (r1, t)" by force
  from load_extension_loads [OF Cons.prems(1) assms(2) load]
  obtain qs where qs: "length qs \<le> 1" "\<forall>z. r1 = Inr z \<longrightarrow> length qs = 1" "asks w (cs @ map (load_call h) qs) t"
    by (auto simp: loads_def)
  show ?case
  proof (cases r1)
    case (Inl x)
    with Cons.prems(2) load have "r = Inl x" "v = t" by auto
    with qs show ?thesis by (auto simp: loads_def intro!: exI [of _ qs])
  next
    case (Inr z)
    with load have "ignore (load_extension L U s e) u = (Inr (), t)" by simp
    from iterM_next [where f = "\<lambda>e. ignore (load_extension L U s e)", OF this] Cons.prems(2)
    have "iterM (\<lambda>e. ignore (load_extension L U s e)) es t = (r, v)" by metis
    from Cons.IH [OF qs(3) this] obtain qs' where "length qs' \<le> length es" "\<forall>z. r = Inr z \<longrightarrow> length qs' = length es"
      "asks w ((cs @ map (load_call h) qs) @ map (load_call h) qs') v"
      by (auto simp: loads_def)
    with qs Inr show ?thesis by (auto simp: loads_def intro!: exI [of _ "qs @ qs'"])
  qed
qed

text \<open>The calls of a run of \<open>initialize_extensions\<close> whose outcome is defined.\<close>

definition bracketed :: "nat \<Rightarrow> bool \<Rightarrow> sql_call list \<Rightarrow> bool" where
  "bracketed n done cs \<longleftrightarrow>
     (\<exists>h qs. length qs \<le> n \<and> (done \<longrightarrow> length qs = n) \<and>
        cs = DbCall (Some h) (Enable_load_extension 1) # map (load_call h) qs @
          [DbCall (Some h) (Enable_load_extension 0)])"

lemma initialize_extensions_asks:
  assumes "initialize_extensions L U s (RArray es) w = (r, v)" and "es \<noteq> []" and "d_db (dbs w s) = Some h"
    and "\<And>z. r \<noteq> Inl (Undefined z)"
  shows "\<exists>cs. asks w cs v \<and> bracketed (length es) (r = Inr ()) cs"
proof -
  let ?on = "DbCall (Some h) (Enable_load_extension 1)" and ?off = "DbCall (Some h) (Enable_load_extension 0)"
  define body where "body = bindM (enable_load_extension L s RTrue) (\<lambda>_.
      iterM (\<lambda>e. ignore (load_extension L U s e)) es)"
  obtain r1 t where body: "body w = (r1, t)" by force
  obtain r2 u where off: "enable_load_extension L s RFalse t = (r2, u)" by force
  obtain r0 t0 where on: "enable_load_extension L s RTrue w = (r0, t0)" by force
  have t0: "asks w [?on] t0"
    using enable_asks [OF asks_refl assms(3), where b = True and L = L] on by (simp add: rb_bool_def)
  have "loads w [?on] h (length es) r1 t"
  proof (cases r0)
    case (Inl x)
    with body on t0 show ?thesis by (auto simp: body_def loads_def intro!: exI [of _ "[]"])
  next
    case (Inr z)
    with body on extensions_loads [OF t0 assms(3)] show ?thesis by (simp add: body_def)
  qed
  then obtain qs where qs: "length qs \<le> length es" "\<forall>z. r1 = Inr z \<longrightarrow> length qs = length es"
    "asks w ([?on] @ map (load_call h) qs) t"
    by (auto simp: loads_def)
  from enable_asks [OF qs(3) assms(3), where b = False and L = L] off
  have u: "asks w (?on # map (load_call h) qs @ [?off]) u" by (simp add: rb_bool_def)
  have "(r, v) = ensureM body (ignore (enable_load_extension L s RFalse)) w"
    using assms(1,2) by (cases es) (simp_all add: initialize_extensions_def body_def)
  then have "v = u \<and> (r = Inr () \<longrightarrow> r1 = Inr ())"
    using body off assms(4) by (cases r1; cases "projl r1"; cases r2) (auto simp: ensureM_def)
  with u qs show ?thesis unfolding bracketed_def by blast
qed

text \<open>Opening the connection asks for no extension.\<close>

definition quiet :: "('e, 'u) world \<Rightarrow> ('e, 'u) world \<Rightarrow> bool" where
  "quiet w v \<longleftrightarrow> (\<exists>ds. calls v = calls w @ ds \<and> filter extension_call ds = [])"

lemma quiet_refl: "quiet w w" "quiet w (allocated w)"
  by (simp_all add: quiet_def allocated_def upd_defs)

lemma allows_quiet: "\<not> extension_call c \<Longrightarrow> allows (quiet w) c"
  by (fastforce simp: allows_def quiet_def)

lemma quiet_opening: "keeps (quiet w) (open_connection L U s path options zvfs)" "keeps (quiet w) (init_ivars s h)"
proof -
  have fields: "keeps (quiet w) (modM (upd_db s f))" "keeps (quiet w) (modM (upd_ivars s g))"
    "keeps (quiet w) (modM (upd_hash r k))" "keeps (quiet w) fresh_ref" "keeps (quiet w) rb_ary_new" for f g r k
    by (auto intro!: keepsI simp: quiet_def upd_defs fresh_ref_def rb_ary_new_def bindM_def)
  show "keeps (quiet w) (open_connection L U s path options zvfs)"
    unfolding open_connection_def file_path_def rb_sqlite3_open_v2_def rb_sqlite3_open16_def require_closed_db_def
      check_opened_def rb_sqlite3_disable_quirk_mode_def
    by (intro keeps_ret keeps_bindM keeps_if keeps_case_prod keeps_getM keeps_require keeps_liftE
        keeps_sqlite_call keeps_rb_sqlite3_raise_msg allows_quiet fields keeps_rb_funcall) (auto simp: quiet_def extension_call_def)
  show "keeps (quiet w) (init_ivars s h)"
    unfolding init_ivars_def by (intro keeps_bindM fields)
qed

lemma closed_extensions:
  assumes "d_db (dbs w s) = None" and "es \<noteq> []"
  shows "snd (initialize_extensions L U s (RArray es) w) = w \<and> fst (initialize_extensions L U s (RArray es) w) \<noteq> Inr ()"
proof -
  have "enable_load_extension L s b w = (Inl (Raised (rb_error SQLite3_Exception ''cannot use a closed database'')), w)" for b
    using assms(1) by (simp add: enable_load_extension_def open_db.guarded_closed)
  with assms(2) show ?thesis by (cases es) (simp_all add: initialize_extensions_def ensureM_def)
qed

lemma new_then_extensions:
  assumes "database_new L U databases path options zvfs w = (r, v)"
    and "option_value options ''extensions'' = RArray es"
  shows "\<exists>t. quiet w t \<and> ((\<exists>x. r = Inl x) \<and> v = t \<or>
    (\<exists>re. initialize_extensions L U (next_ref w) (RArray es) t = (re, v) \<and> (\<forall>x. re = Inl x \<longrightarrow> r = Inl x)))"
proof -
  let ?s = "next_ref w"
  obtain r1 t1 where opened: "open_connection L U ?s path options zvfs (allocated w) = (r1, t1)" by force
  have t1: "quiet w t1" by (rule keepsE [OF quiet_opening(1) quiet_refl(2) opened])
  note run = assms(1) [unfolded database_new_run database_initialize_def assms(2)]
  show ?thesis
  proof (cases r1)
    case (Inl x)
    with run opened t1 show ?thesis by auto
  next
    case (Inr mode)
    obtain r2 t2 where ivars: "init_ivars ?s (option_value options ''results_as_hash'') t1 = (r2, t2)" by force
    have t2: "quiet w t2" by (rule keepsE [OF quiet_opening(2) t1 ivars])
    obtain re u where ext: "initialize_extensions L U ?s (RArray es) t2 = (re, u)" by force
    show ?thesis
    proof (cases "r2 = Inr () \<and> (\<exists>b. mode_readonly mode = Inr b)")
      case False
      with run opened Inr ivars t2 show ?thesis by (cases r2; cases "mode_readonly mode") auto
    next
      case True
      with run opened Inr ivars ext have "v = u \<and> (\<forall>x. re = Inl x \<longrightarrow> r = Inl x)"
        by (cases re) auto
      with t2 ext show ?thesis by blast
    qed
  qed
qed

text \<open>C17: the loading of extensions is switched on for the extensions that were asked for and never left on.
  However \<open>Database.new\<close> ends, by returning or by an exception of SQLite, of an extension or of
  Ruby code, the requests about extensions that it made are none at all, or: switch loading on, then load
  files, at most as many as extensions were given, then switch loading off. If it
  returns, it has loaded one file for each extension.\<close>

theorem extensions_switched_off:
  assumes "database_new L U databases path options zvfs w = (r, v)" and "\<And>z. r \<noteq> Inl (Undefined z)"
    and "option_value options ''extensions'' = RArray es"
  shows "\<exists>cs. calls v = calls w @ cs \<and>
    (filter extension_call cs = [] \<and> (\<forall>z. r = Inr z \<longrightarrow> es = []) \<or>
     (\<exists>h qs. length qs \<le> length es \<and> (\<forall>z. r = Inr z \<longrightarrow> length qs = length es) \<and>
        filter extension_call cs = DbCall (Some h) (Enable_load_extension 1) #
          map (\<lambda>q. DbCall (Some h) (Load_extension q)) qs @ [DbCall (Some h) (Enable_load_extension 0)]))"
proof -
  obtain t where t: "quiet w t" and "(\<exists>x. r = Inl x) \<and> v = t \<or>
      (\<exists>re. initialize_extensions L U (next_ref w) (RArray es) t = (re, v) \<and> (\<forall>x. re = Inl x \<longrightarrow> r = Inl x))"
    using new_then_extensions [OF assms(1,3)] by blast
  then consider x where "r = Inl x" "v = t"
    | re where "initialize_extensions L U (next_ref w) (RArray es) t = (re, v)" "\<forall>x. re = Inl x \<longrightarrow> r = Inl x"
    by blast
  then show ?thesis
  proof cases
    case 1
    with t show ?thesis by (auto simp: quiet_def)
  next
    case (2 re)
    have "re \<noteq> Inl (Undefined z)" for z using 2(2) assms(2) by blast
    then have "quiet w v \<and> (re = Inr () \<longrightarrow> es = []) \<or>
        (\<exists>cs. asks t cs v \<and> bracketed (length es) (re = Inr ()) cs)"
      using 2(1) t closed_extensions [of t "next_ref w" es L U]
        initialize_extensions_asks [OF 2(1)]
      by (cases es; cases "d_db (dbs t (next_ref w))") (auto simp: initialize_extensions_def)
    moreover have "re = Inr ()" if "r = Inr z" for z using 2(2) that by (cases re) auto
    ultimately consider "quiet w v" "\<forall>z. r = Inr z \<longrightarrow> es = []"
      | cs where "asks t cs v" "bracketed (length es) (re = Inr ()) cs" by blast
    then show ?thesis
    proof cases
      case 1
      then show ?thesis by (auto simp: quiet_def)
    next
      case (2 cs)
      from 2(1) t have "\<exists>ds. calls v = calls w @ ds \<and> filter extension_call ds = cs"
        unfolding quiet_def asks_def by (metis append.assoc append_Nil filter_append)
      with 2(2) \<open>\<And>z. r = Inr z \<Longrightarrow> re = Inr ()\<close> show ?thesis unfolding bracketed_def by blast
    qed
  qed
qed

lemma sample_world_calls: "calls sample_world = []"
  by (simp add: sample_world_def)

theorem extensions_switched_off_witness:
  "\<exists>z v h q. database_new sample_lib sample_user [] (RString False UTF_8 ''f'' False)
      [(RSymbol ''extensions'', RArray [RString False UTF_8 ''x'' False])] RNil sample_world = (Inr z, v) \<and>
    filter extension_call (calls v) = [DbCall (Some h) (Enable_load_extension 1),
      DbCall (Some h) (Load_extension q), DbCall (Some h) (Enable_load_extension 0)]"
proof -
  let ?exts = "RArray [RString False UTF_8 ''x'' False]"
  let ?new = "database_new sample_lib sample_user [] (RString False UTF_8 ''f'' False) [(RSymbol ''extensions'', ?exts)] RNil sample_world"
  have "fst ?new = Inr (0, \<lparr>at_readonly = False, at_default_transaction_mode = RSymbol ''deferred''\<rparr>, [0])"
    by (simp add: database_new_run allocated_def database_initialize_def open_connection_def
      file_path_def option_value_def RTEST_def utf16_name_def open_mode_def encode_name_def rb_str_encode_utf8_def
      rb_sqlite3_open_v2_def require_closed_db_def check_opened_def sqlite_call_returns int_in_range_def int_fits_def
      StringValueCStr_def StringValue_def nul_def NIL_P_def init_ivars_def fresh_ref_def rb_ary_new_def mode_readonly_def
      initialize_extensions_def OPEN_READONLY_def OPEN_READWRITE_def OPEN_CREATE_def no_ivars_def bindM_def
      ensureM_def load_extension_def extension_path_def load_extension_internal_def enable_load_extension_def
      open_db.guard_open sqlite_run_def sample_defs upd_defs)
  then obtain z v where v: "?new = (Inr z, v)" by (metis prod.collapse)
  have "option_value [(RSymbol ''extensions'', ?exts)] ''extensions'' = ?exts" by (simp add: option_value_def)
  from extensions_switched_off [OF v sum.distinct(2) this] obtain cs h qs where cs: "calls v = calls sample_world @ cs" "length qs = 1"
    "filter extension_call cs = DbCall (Some h) (Enable_load_extension 1) # map (load_call h) qs @
      [DbCall (Some h) (Enable_load_extension 0)]"
    by (simp only: sum.inject list.distinct list.size simp_thms) auto
  then obtain q where "qs = [q]" by (auto simp: length_Suc_conv)
  with v cs show ?thesis by (intro exI [of _ z] exI [of _ v] exI [of _ h] exI [of _ q]) (simp add: sample_world_calls)
qed

end
