(* ===== verification/Binding.thy ===== *)
theory Binding
  imports Stepping
begin

unbundle bit_operations_syntax

text \<open>
  Properties of \<open>Statement#bind_param\<close> and \<open>named_params\<close>: which SQLite type a Ruby value is
  bound as, that a bound value reads back from a column, and how parameters are named.
\<close>

section \<open>Types\<close>

text \<open>C24: how each kind of Ruby value is bound. \<open>nil\<close> as NULL; an integer of the signed 64-bit
  range as that very integer, fixnum or not, and any other as the nearest double; a float as itself; a
  Blob or a binary string as a blob; a string in UTF-16 as UTF-16 text, byte for byte; a UTF-8 string and
  an ASCII-only string in an ASCII-compatible encoding as the text of its bytes; a string in any other
  encoding as the text of its conversion to UTF-8, whose exception leaves the method when a character
  has none; everything else is refused with the name of its class.\<close>

theorem bind_types:
  "bind_call U i RNil = Inr (Bind_null i) \<and>
   (int_fits 64 n \<longrightarrow> (\<exists>x. bind_call U i (RInteger n) = Inr (Bind_int64 i x) \<and> sint x = n)) \<and>
   (\<not> int_fits 64 n \<longrightarrow> bind_call U i (RInteger n) = Inr (Bind_double i (int_to_double n))) \<and>
   bind_call U i (RFloat d) = Inr (Bind_double i d) \<and>
   (blob \<or> enc = ASCII_8BIT \<longrightarrow> bind_call U i (RString blob enc s f) = Inr (Bind_blob i s)) \<and>
   (\<not> blob \<and> (enc = UTF_16LE \<or> enc = UTF_16BE) \<longrightarrow>
      bind_call U i (RString blob enc s f) = Inr (Bind_text16 i s)) \<and>
   (\<not> blob \<and> (enc = UTF_8 \<or> enc \<noteq> ASCII_8BIT \<and> ascii_compat enc \<and> is_ascii_string s) \<longrightarrow>
      bind_call U i (RString blob enc s f) = Inr (Bind_text i s)) \<and>
   (\<not> blob \<and> enc \<notin> {ASCII_8BIT, UTF_8, UTF_16LE, UTF_16BE} \<and> \<not> (ascii_compat enc \<and> is_ascii_string s) \<longrightarrow>
      bind_call U i (RString blob enc s f) =
        (case u_transcode U enc UTF_8 s of Inl x \<Rightarrow> Inl (Raised x) | Inr t \<Rightarrow> Inr (Bind_text i t))) \<and>
   (rb_type_of v \<in> {T_TRUE, T_FALSE, T_SYMBOL, T_ARRAY, T_HASH, T_OBJECT} \<longrightarrow>
      bind_call U i v = Inl (Raised (rb_error RuntimeError (''can't prepare '' @ rb_class2name v))))"
proof (intro conjI impI)
  assume n: "int_fits 64 n"
  show "\<exists>x. bind_call U i (RInteger n) = Inr (Bind_int64 i x) \<and> sint x = n"
  proof (cases "fixnum_p n")
    case True
    then show ?thesis by (simp add: bind_call_def)
  next
    case False
    then show ?thesis
      using n packed.pack_fits [OF n] sint_word_of_int [where 'a = 64, of n]
      by (simp add: bind_call_def)
  qed
next
  assume "\<not> int_fits 64 n"
  then show "bind_call U i (RInteger n) = Inr (Bind_double i (int_to_double n))"
    using fixnum_fits [of n] by (auto simp: bind_call_def packed.pack_overflow NUM2DBL_def)
next
  assume "\<not> blob \<and> (enc = UTF_8 \<or> enc \<noteq> ASCII_8BIT \<and> ascii_compat enc \<and> is_ascii_string s)"
  then show "bind_call U i (RString blob enc s f) = Inr (Bind_text i s)"
    by (auto simp: bind_call_def rb_str_encode_utf8_def)
next
  assume "rb_type_of v \<in> {T_TRUE, T_FALSE, T_SYMBOL, T_ARRAY, T_HASH, T_OBJECT}"
  then show "bind_call U i v = Inl (Raised (rb_error RuntimeError (''can't prepare '' @ rb_class2name v)))"
    by (cases v) (auto simp: bind_call_def split: if_splits)
qed (auto simp: bind_call_def NUM2DBL_def rb_str_encode_utf8_def split: sum.split)

theorem bind_types_witness:
  "(\<exists>x. bind_call sample_user 1 (RInteger (2 ^ 62)) = Inr (Bind_int64 1 x) \<and> sint x = 2 ^ 62) \<and>
   bind_call sample_user 1 (RString True UTF_8 ''a'' False) = Inr (Bind_blob 1 ''a'') \<and>
   bind_call sample_user 1 RTrue = Inl (Raised (rb_error RuntimeError ''can't prepare TrueClass''))"
  using bind_types [of sample_user 1 "2 ^ 62" 0 True UTF_8 "''a''" False RTrue]
  by (simp add: int_fits_def)

section \<open>What is bound reads back\<close>

definition is_nan :: "i64 \<Rightarrow> bool" where
  "is_nan x \<longleftrightarrow> (uint x div 2 ^ 52) mod 2 ^ 11 = 2047 \<and> uint x mod 2 ^ 52 \<noteq> 0"

text \<open>
  The calls that bind the parameter \<open>i\<close>, and what SQLite documents of a column that is such a
  parameter: it has the type of the call and the accessor of this type gives the value, a NaN
  excepted, which becomes NULL. Of UTF-16 text only the type is said, since the accessors of UTF-8 give a
  conversion.
\<close>

fun binds_parameter :: "cint \<Rightarrow> st_op \<Rightarrow> bool" where
  "binds_parameter i (Bind_blob j s) = (j = i)"
| "binds_parameter i (Bind_text j s) = (j = i)"
| "binds_parameter i (Bind_text16 j s) = (j = i)"
| "binds_parameter i (Bind_int64 j x) = (j = i)"
| "binds_parameter i (Bind_double j x) = (j = i)"
| "binds_parameter i (Bind_null j) = (j = i)"
| "binds_parameter i _ = False"

fun holds :: "st_op \<Rightarrow> sqlite3_value \<Rightarrow> bool" where
  "holds (Bind_blob i s) v \<longleftrightarrow> v_type v = SQLITE_BLOB \<and> v_blob v = s"
| "holds (Bind_text i s) v \<longleftrightarrow> v_type v = SQLITE_TEXT \<and> v_text v = s"
| "holds (Bind_text16 i s) v \<longleftrightarrow> v_type v = SQLITE_TEXT"
| "holds (Bind_int64 i x) v \<longleftrightarrow> v_type v = SQLITE_INTEGER \<and> v_int64 v = x"
| "holds (Bind_double i x) v \<longleftrightarrow>
     (if is_nan x then v_type v = SQLITE_NULL else v_type v = SQLITE_FLOAT \<and> v_double v = x)"
| "holds (Bind_null i) v \<longleftrightarrow> v_type v = SQLITE_NULL"
| "holds _ v \<longleftrightarrow> False"

text \<open>The statement \<open>h\<close> selects its parameter \<open>i\<close>: after a value was bound its one row holds it.\<close>

definition selects_parameter ::
  "'e sqlite_lib \<Rightarrow> sth \<Rightarrow> cint \<Rightarrow> ('e \<Rightarrow> sqlite3_value list list) \<Rightarrow> ('e \<Rightarrow> sqlite3_value list) \<Rightarrow> bool" where
  "selects_parameter L h i todo cur \<longleftrightarrow>
     yields_rows L h todo cur \<and>
     (\<forall>op e. binds_parameter i op \<longrightarrow> fst (l_int L (StmtCall (Some h) op) e) = SQLITE_OK \<and>
        (\<exists>sv. holds op sv \<and> todo (snd (l_int L (StmtCall (Some h) op) e)) = [[sv]])) \<and>
     (\<forall>e. todo (snd (l_handle L (StmtCall (Some h) Db_handle) e)) = todo e)"

text \<open>
  The value that comes back. Strings come back frozen, in UTF-8 or in the default internal encoding, and
  blobs as binary strings. UTF-16 text is not covered and what \<open>bind_param\<close> refuses never gets there.
\<close>

definition float_back :: "i64 \<Rightarrow> rb_value" where
  "float_back x = (if is_nan x then RNil else RFloat x)"

fun read_back :: "'u rb_user \<Rightarrow> rb_value \<Rightarrow> rb_value option" where
  "read_back U RNil = Some RNil"
| "read_back U (RInteger n) = Some (if int_fits 64 n then RInteger n else float_back (int_to_double n))"
| "read_back U (RFloat x) = Some (float_back x)"
| "read_back U (RString blob enc s f) =
     (if blob \<or> enc = ASCII_8BIT then Some (RString False ASCII_8BIT s True)
      else if enc = UTF_16LE \<or> enc = UTF_16BE then None
      else (case rb_str_encode_utf8 U enc s of
          Inl x \<Rightarrow> None
        | Inr t \<Rightarrow> Some (rb_obj_freeze (export_internal U (RString False UTF_8 t False)))))"
| "read_back U _ = None"

lemma bind_call_holds:
  assumes "read_back U v = Some r"
  shows "\<exists>op. bind_call U i v = Inr op \<and> binds_parameter i op \<and>
    (\<forall>sv. holds op sv \<longrightarrow> valid_type (v_type sv) \<and> column_value U sv = Inr r)"
proof (cases v)
  case (RInteger n)
  show ?thesis
  proof (cases "int_fits 64 n")
    case True
    then obtain x where "bind_call U i (RInteger n) = Inr (Bind_int64 i x)" "sint x = n"
      using packed.pack_fits [of n] sint_word_of_int [where 'a = 64, of n]
      by (cases "fixnum_p n") (auto simp: bind_call_def)
    with True RInteger assms show ?thesis by (simp add: valid_type_def column_value_def LL2NUM_def)
  next
    case False
    then have "bind_call U i (RInteger n) = Inr (Bind_double i (int_to_double n))"
      using fixnum_fits [of n] by (auto simp: bind_call_def packed.pack_overflow NUM2DBL_def)
    with False RInteger assms show ?thesis by (auto simp: float_back_def valid_type_def column_value_def)
  qed
next
  case (RFloat x)
  with assms show ?thesis
    by (auto simp: bind_call_def NUM2DBL_def float_back_def valid_type_def column_value_def)
next
  case (RString blob enc s f)
  with assms show ?thesis
    by (auto simp: bind_call_def valid_type_def column_value_def rb_utf8_str_new_def rb_str_new_def
        split: if_splits sum.splits)
qed (use assms in \<open>auto simp: bind_call_def valid_type_def column_value_def\<close>)

text \<open>C19: what is bound and selected again. On a statement that selects its parameter, \<open>bind_param\<close>
  followed by \<open>step\<close> gives a row with the value that was bound: the same for \<open>nil\<close>, every integer of 64
  bits, every float that is no NaN and, frozen, every UTF-8 string (with no default internal
  encoding); a blob comes back as a frozen binary string, a string of another encoding but UTF-16 as its
  conversion to UTF-8, an integer beyond 64 bits as the nearest float, and a NaN as \<open>nil\<close>.\<close>

theorem bind_roundtrip:
  assumes "require_usable s w = (Inr (Some h), w)" and "s_done_p (stmts w s) = 0" and "errinfo w = None"
    and "int_fits 32 i" and "i \<noteq> 0" and "selects_parameter L h (word_of_int i) todo cur"
    and "read_back U v = Some r"
  shows "\<exists>w1 w2. bind_param L U s (RInteger i) v w = (Inr s, w1) \<and> step L U s w1 = (Inr (RArray [r]), w2)"
proof -
  let ?i = "word_of_int i :: cint"
  have i: "?i \<noteq> 0" using sint_word_of_int [where 'a = 32, of i] assms(4,5) by auto
  obtain op where bind: "bind_call U ?i v = Inr op" "binds_parameter ?i op"
    and reads: "\<And>sv. holds op sv \<Longrightarrow> valid_type (v_type sv) \<and> column_value U sv = Inr r"
    using bind_call_holds [OF assms(7)] by blast
  from assms(6) bind(2) obtain sv where ok: "fst (l_int L (StmtCall (Some h) op) (env w)) = SQLITE_OK"
    and sv: "holds op sv" "todo (snd (l_int L (StmtCall (Some h) op) (env w))) = [[sv]]"
    unfolding selects_parameter_def by blast
  let ?e = "snd (l_handle L (StmtCall (Some h) Db_handle) (snd (l_int L (StmtCall (Some h) op) (env w))))"
  let ?v = "w\<lparr>env := ?e, calls := calls w @ [StmtCall (Some h) op, StmtCall (Some h) Db_handle]\<rparr>"
  have bound: "bind_param L U s (RInteger i) v w = (Inr s, ?v)"
    using assms(1,4) i bind(1) ok
    by (simp add: bind_param_def parameter_index_def Let_def int_in_range_def sqlite_call_returns
        rb_sqlite3_raise_def status2klass_def)
  have rows: "yields_rows L h todo cur" "todo (env ?v) = [[sv]]"
    using assms(6) sv(2) by (simp_all add: selects_parameter_def)
  have use: "require_usable s ?v = (Inr (Some h), ?v)"
    by (rule require_usable_cong [OF _ _ _ assms(1)]) simp_all
  have "valid_row [sv]" using reads [OF sv(1)] by (simp add: valid_row_def)
  from step_row [OF rows this use] assms(2,3) obtain e where
    "step L U s ?v = (Inr (row_array U [sv]), ?v\<lparr>env := e, calls := calls ?v @ step_calls h [sv]\<rparr>)" by auto
  with bound reads [OF sv(1)] show ?thesis by (auto simp: row_array_def)
qed

text \<open>A library that keeps the value of its parameter as the one row of its statement.\<close>

definition value_of :: "cint \<Rightarrow> sqlite3_value" where
  "value_of t = \<lparr>v_type = t, v_int64 = 0, v_double = 0, v_text = [], v_blob = []\<rparr>"

fun stored_value :: "st_op \<Rightarrow> sqlite3_value option" where
  "stored_value (Bind_int64 i x) = Some ((value_of SQLITE_INTEGER)\<lparr>v_int64 := x\<rparr>)"
| "stored_value (Bind_double i x) =
     Some (if is_nan x then value_of SQLITE_NULL else (value_of SQLITE_FLOAT)\<lparr>v_double := x\<rparr>)"
| "stored_value (Bind_text i s) = Some ((value_of SQLITE_TEXT)\<lparr>v_text := s\<rparr>)"
| "stored_value (Bind_text16 i s) = Some (value_of SQLITE_TEXT)"
| "stored_value (Bind_blob i s) = Some ((value_of SQLITE_BLOB)\<lparr>v_blob := s\<rparr>)"
| "stored_value (Bind_null i) = Some (value_of SQLITE_NULL)"
| "stored_value _ = None"

definition parameter_lib :: "cursor_env sqlite_lib" where
  "parameter_lib = cursor_lib\<lparr>l_int := \<lambda>c e. case c of
     StmtCall z op \<Rightarrow> (case stored_value op of
         Some sv \<Rightarrow> (SQLITE_OK, ([[sv]], snd e))
       | None \<Rightarrow> (word_of_nat (length (snd e)), e))
   | _ \<Rightarrow> (SQLITE_OK, e)\<rparr>"

lemma parameter_lib_selects: "selects_parameter parameter_lib h i fst snd"
proof -
  have "\<exists>sv. stored_value op = Some sv \<and> holds op sv" if "binds_parameter i op" for op
    using that by (cases op) (simp_all add: value_of_def)
  then show ?thesis
    by (fastforce simp: selects_parameter_def yields_rows_def parameter_lib_def cursor_lib_def split: list.split)
qed

theorem bind_roundtrip_witness:
  "\<exists>w1 w2. bind_param parameter_lib sample_user 1 (RInteger 1) (RInteger (2 ^ 63 - 1)) (cursor_world []) = (Inr 1, w1) \<and>
     step parameter_lib sample_user 1 w1 = (Inr (RArray [RInteger (2 ^ 63 - 1)]), w2)"
proof -
  have "require_usable 1 (cursor_world []) = (Inr (Some 9), cursor_world [])"
    by (rule usable_open [of _ _ 0]) (simp_all add: cursor_world_def zero_sqlite3Ruby_def)
  then show ?thesis
    by (rule bind_roundtrip [OF _ _ _ _ _ parameter_lib_selects])
      (simp_all add: cursor_world_def int_fits_def)
qed

section \<open>Names\<close>

text \<open>Binding by name. The name reaches SQLite with exactly one \<open>:\<close> in front, whether the key is
  a symbol or a string and whether or not it already has one; an unknown name raises and binds
  nothing; otherwise the value is bound once, at the index that SQLite gave for the name, and an
  error of the bind raises.\<close>

lemma bind_param_by_name:
  assumes use: "require_usable s w = (Inr (Some h), w)"
    and key: "key = RSymbol k \<or> key = RString False UTF_8 k f" and nul: "nul \<notin> set k"
    and idx: "l_int L (StmtCall (Some h) (Bind_parameter_index
        (if k \<noteq> [] \<and> hd k = CHR '':'' then k else CHR '':'' # k))) (env w) = (i, e)"
  shows "\<exists>r w'. bind_param L U s key v w = (r, w') \<and>
    (let lookup = calls w @ [StmtCall (Some h) (Bind_parameter_index
        (if k \<noteq> [] \<and> hd k = CHR '':'' then k else CHR '':'' # k))] in
     if i = 0 then calls w' = lookup \<and>
       r = Inl (Raised (rb_error SQLite3_Exception ''no such bind parameter''))
     else (case bind_call U i v of
         Inl x \<Rightarrow> r = Inl x \<and> calls w' = lookup
       | Inr op \<Rightarrow>
           (if fst (l_int L (StmtCall (Some h) op) e) AND 0xff = 0
            then r = Inr s \<and> calls w' = lookup @ [StmtCall (Some h) op, StmtCall (Some h) Db_handle]
            else \<exists>x. r = Inl x)))"
proof -
  let ?name = "if k \<noteq> [] \<and> hd k = CHR '':'' then k else CHR '':'' # k"
  have c: "nul \<notin> set ?name" using nul by (auto simp: nul_def)
  have "parameter_name UTF_8 k = Inr ?name"
    by (cases k) (auto simp: parameter_name_def)
  then have idx': "parameter_index L (Some h) key w =
      (Inr i, w\<lparr>env := e, calls := calls w @ [StmtCall (Some h) (Bind_parameter_index ?name)]\<rparr>)"
    using key idx cstr_id [OF c] by (auto simp: parameter_index_def Let_def sqlite_call_returns)
  show ?thesis
  proof (cases "i = 0")
    case True
    then show ?thesis by (simp add: bind_param_def use idx' Let_def)
  next
    case False
    show ?thesis
    proof (cases "bind_call U i v")
      case (Inl x)
      with False show ?thesis by (simp add: bind_param_def use idx' Let_def)
    next
      case (Inr op)
      obtain st e' where st: "l_int L (StmtCall (Some h) op) e = (st, e')" by fastforce
      obtain db e'' where db: "l_handle L (StmtCall (Some h) Db_handle) e' = (db, e'')" by fastforce
      show ?thesis
      proof (cases "st AND 0xff = 0")
        case True
        with False Inr st db show ?thesis
          by (simp add: bind_param_def use idx' Let_def sqlite_call_returns rb_sqlite3_raise_ok)
      next
        case nz: False
        let ?w = "w\<lparr>env := e'', calls := (calls w @ [StmtCall (Some h) (Bind_parameter_index ?name)]) @
            [StmtCall (Some h) op] @ [StmtCall (Some h) Db_handle]\<rparr>"
        obtain x u where "rb_sqlite3_raise L db st ?w = (Inl x, u)"
          using rb_sqlite3_raise_returns_iff [of L db st ?w] nz
          by (cases "rb_sqlite3_raise L db st ?w"; cases "fst (rb_sqlite3_raise L db st ?w)") auto
        with False Inr st db nz show ?thesis
          by (simp add: bind_param_def use idx' Let_def sqlite_call_returns)
      qed
    qed
  qed
qed

text \<open>The names that \<open>named_params\<close> lists are usable keys exactly for the \<open>:name\<close> parameters.
  The listed name is the parameter's without its first character; as a key it stands for the
  parameter \<open>:name\<close>, so binding by a listed name finds the parameter it was listed for if that
  was written with \<open>:\<close>, and a different one (or none) if it was written with \<open>@\<close> or \<open>$\<close>.\<close>

lemma named_params_as_keys:
  assumes "c \<noteq> CHR ''?''" and "nul \<notin> set cs" and "cs \<noteq> []" and "hd cs \<noteq> CHR '':''"
  shows "\<exists>v. named_param (Some (c # cs)) = Inr [v] \<and> v = RString False UTF_8 cs True \<and>
    parameter_name (rs_enc v) (rs_bytes v) = Inr (CHR '':'' # cs) \<and>
    (parameter_name (rs_enc v) (rs_bytes v) = Inr (c # cs) \<longleftrightarrow> c = CHR '':'')"
  using assms
  by (auto simp: named_param_def interned_utf8_cstr_def rb_utf8_str_new_cstr_def cstr_id
      rb_utf8_str_new_def parameter_name_def neq_Nil_conv)

text \<open>\<open>named_params\<close> lists, in the order of their indices, the named parameters of the
  statement without their prefix character, and leaves out the positional and the anonymous ones.\<close>

lemma named_params_list:
  assumes use: "require_usable s w = (Inr (Some h), w)"
    and count: "l_int L (StmtCall (Some h) Bind_parameter_count) (env w) = (word_of_nat (length names), e)"
    and names: "\<And>i. i < length names \<Longrightarrow>
        l_text L (StmtCall (Some h) (Bind_parameter_name (word_of_nat (Suc i)))) e = (names ! i, e)"
    and valid: "length names \<le> 32766" "Some [] \<notin> set names"
  shows "fst (named_params L s w) =
    Inr (RArray (map (\<lambda>nm. interned_utf8_cstr (tl (the nm)))
      (filter (\<lambda>nm. nm \<noteq> None \<and> hd (the nm) \<noteq> CHR ''?'') names)))"
proof -
  define kept where "kept nm = (if nm \<noteq> None \<and> hd (the nm) \<noteq> CHR ''?''
    then [interned_utf8_cstr (tl (the nm))] else [])" for nm
  have one: "named_param nm = Inr (kept nm)" if "nm \<noteq> Some []" for nm
    using that by (cases nm; cases "the nm") (auto simp: named_param_def kept_def)
  have loop: "mapM (\<lambda>i. bindM (sqlite_call (l_text L) (StmtCall (Some h) (Bind_parameter_name (word_of_nat i))))
        (\<lambda>name. liftE (named_param name))) (map Suc js) v =
      (Inr (map (\<lambda>j. kept (names ! j)) js), v\<lparr>calls := calls v @
        map (\<lambda>j. StmtCall (Some h) (Bind_parameter_name (word_of_nat (Suc j)))) js\<rparr>)"
    if "env v = e" "list_all (\<lambda>j. j < length names) js" for v :: "('a, 'b) world" and js
    using that
  proof (induction js arbitrary: v)
    case (Cons j js)
    then have "names ! j \<in> set names" by simp
    with valid(2) have "names ! j \<noteq> Some []" by metis
    with Cons one [of "names ! j"] names [of j]
      Cons.IH [of "v\<lparr>calls := calls v @ [StmtCall (Some h) (Bind_parameter_name (word_of_nat (Suc j)))]\<rparr>"]
    show ?case by (simp add: sqlite_call_returns)
  qed simp
  have n: "nat (sint (word_of_nat (length names) :: cint)) = length names"
    using valid(1) by (intro row_length) simp
  have js: "[1..<Suc (length names)] = map Suc [0..<length names]" by (simp add: map_Suc_upt)
  have "concat (map (\<lambda>j. kept (names ! j)) [0..<length names]) = concat (map kept names)"
    by (simp add: map_nth [symmetric, of names, THEN arg_cong [where f = "map kept"]] o_def)
  also have "\<dots> = map (\<lambda>nm. interned_utf8_cstr (tl (the nm)))
      (filter (\<lambda>nm. nm \<noteq> None \<and> hd (the nm) \<noteq> CHR ''?'') names)"
    by (induction names) (auto simp: kept_def)
  finally show ?thesis
    using count loop [of "w\<lparr>env := e, calls := calls w @ [StmtCall (Some h) Bind_parameter_count]\<rparr>" "[0..<length names]"]
    by (simp add: named_params_def use sqlite_call_returns n js [unfolded One_nat_def] list_all_length
        del: upt_Suc)
qed

end
