(* ===== verification/Query.thy ===== *)
theory Query
  imports Statement_Life Binding
begin

text \<open>
  The Ruby layer that runs a query (\<open>lib/sqlite3/statement.rb\<close>, \<open>resultset.rb\<close>,
  \<open>database.rb\<close>): making a Statement, binding its parameters, iterating over its rows,
  \<open>Database#execute\<close> and its relatives. It is the caller of the C methods,
  which it reaches through their models.

  How many rows a query has is SQLite's affair, so a loop over them may never end. Code with such
  a loop is a program: it gives \<open>None\<close> when it does not return.
\<close>

section \<open>Programs\<close>

type_synonym ('e, 'u, 'a) prog = "('e, 'u) world \<Rightarrow> ((abort + 'a) \<times> ('e, 'u) world) option"

definition act :: "('e, 'u, 'a) rb \<Rightarrow> ('e, 'u, 'a) prog" where
  "act m w = Some (m w)"

definition bindP :: "('e, 'u, 'a) prog \<Rightarrow> ('a \<Rightarrow> ('e, 'u, 'b) prog) \<Rightarrow> ('e, 'u, 'b) prog" where
  "bindP p f w =
     (case p w of
        None \<Rightarrow> None
      | Some (Inl x, v) \<Rightarrow> Some (Inl x, v)
      | Some (Inr a, v) \<Rightarrow> f a v)"

text \<open>
  \<open>begin p ensure c end\<close>: the clean-up runs when \<open>p\<close> has returned or raised; an exception
  of its own replaces the outcome.
\<close>

definition ensureP :: "('e, 'u, 'a) prog \<Rightarrow> ('e, 'u, unit) prog \<Rightarrow> ('e, 'u, 'a) prog" where
  "ensureP p c w =
     (case p w of
        None \<Rightarrow> None
      | Some (Inl (Undefined z), v) \<Rightarrow> Some (Inl (Undefined z), v)
      | Some (r, v) \<Rightarrow>
          (case c v of
             None \<Rightarrow> None
           | Some (Inl x, u) \<Rightarrow> Some (Inl x, u)
           | Some (Inr z, u) \<Rightarrow> Some (r, u)))"

text \<open>
  A loop that yields what \<open>fetch\<close> produces to a block until \<open>fetch\<close> has nothing more. The result
  lists the values of the block, so \<open>to_a\<close> is the loop whose block returns the row.
\<close>

partial_function (option) each_row ::
  "('e, 'u, rb_value option) rb \<Rightarrow> (rb_value \<Rightarrow> ('e, 'u, 'b) prog) \<Rightarrow> ('e, 'u) world \<Rightarrow>
     ((abort + 'b list) \<times> ('e, 'u) world) option" where
  "each_row fetch block w =
     (case fetch w of
        (Inl x, v) \<Rightarrow> Some (Inl x, v)
      | (Inr row, v) \<Rightarrow>
          (case row of
             None \<Rightarrow> Some (Inr [], v)
           | Some r \<Rightarrow>
               Option.bind (block r v) (\<lambda>(b, u).
               case b of
                 Inl x \<Rightarrow> Some (Inl x, u)
               | Inr y \<Rightarrow> Option.bind (each_row fetch block u) (\<lambda>(ys, t). Some (map_sum id ((#) y) ys, t)))))"

definition collect :: "rb_value \<Rightarrow> ('e, 'u, rb_value) prog" where
  "collect row = act (ret row)"

definition to_a :: "('e, 'u, rb_value option) rb \<Rightarrow> ('e, 'u, rb_value list) prog" where
  "to_a fetch = each_row fetch collect"

section \<open>Statement\<close>

text \<open>
  The SQL text on its way to the C method \<open>prepare\<close>: converted to UTF-8 unless it is in UTF-8
  or is no string that could be. (Objects of the user that define \<open>encoding\<close> are not
  modelled.)
\<close>

definition sql_utf8 :: "'u rb_user \<Rightarrow> rb_value \<Rightarrow> abort + rb_value" where
  "sql_utf8 U sql =
     (case sql of
        RString b enc s f \<Rightarrow>
          if enc = UTF_8 then Inr sql
          else map_sum id (\<lambda>t. RString False UTF_8 t False) (rb_str_encode_utf8 U enc s)
      | RNil \<Rightarrow> Inr sql
      | RFalse \<Rightarrow> Inr sql
      | RSymbol s \<Rightarrow>
          if is_ascii_string s then Inl (Raised (rb_error NoMethodError ''undefined method 'encode' ''))
          else Inr sql
      | _ \<Rightarrow> Inl (Raised (rb_error NoMethodError ''undefined method 'encoding' '')))"

text \<open>\<open>Statement.new(db, sql)\<close>: the object and its \<open>remainder\<close>.\<close>

definition init_statement :: "nat \<Rightarrow> nat \<Rightarrow> ('e, 'u, unit) rb" where
  "init_statement stmt db =
     modM (upd_sivars stmt (\<lambda>_. \<lparr>iv_connection = Some db, iv_columns = None, iv_types = None\<rparr>))"

definition statement_new ::
  "'e sqlite_lib \<Rightarrow> 'u rb_user \<Rightarrow> nat \<Rightarrow> rb_value \<Rightarrow> ('e, 'u, nat \<times> rb_value) rb" where
  "statement_new L U db sql =
     bindM statement_allocate (\<lambda>stmt.
     bindM (database_closed_p db) (\<lambda>closed.
     if RTEST closed
     then fail (Raised (rb_error ArgumentError ''prepare called on a closed database''))
     else
       bindM (liftE (sql_utf8 U sql)) (\<lambda>sql.
       bindM (init_statement stmt db) (\<lambda>_.
       bindM (prepare L U stmt db sql) (\<lambda>remainder.
       ret (stmt, remainder))))))"

text \<open>\<open>Array#flatten\<close>, and the loop of \<open>bind_params\<close>: a hash is bound by its keys, anything
  else at the next index.\<close>

fun flatten :: "rb_value list \<Rightarrow> rb_value list" where
  "flatten [] = []"
| "flatten (RArray vs # ws) = flatten vs @ flatten ws"
| "flatten (v # ws) = v # flatten ws"

fun bind_vars ::
  "'e sqlite_lib \<Rightarrow> 'u rb_user \<Rightarrow> nat \<Rightarrow> int \<Rightarrow> rb_value list \<Rightarrow> ('e, 'u, unit) rb" where
  "bind_vars L U stmt index [] = ret ()"
| "bind_vars L U stmt index (RHash kvs # vars) =
     bindM (iterM (\<lambda>(key, val). bindM (bind_param L U stmt key val) (\<lambda>_. ret ())) kvs) (\<lambda>_.
     bind_vars L U stmt index vars)"
| "bind_vars L U stmt index (var # vars) =
     bindM (bind_param L U stmt (RInteger index) var) (\<lambda>_.
     bind_vars L U stmt (index + 1) vars)"

definition bind_params ::
  "'e sqlite_lib \<Rightarrow> 'u rb_user \<Rightarrow> nat \<Rightarrow> rb_value list \<Rightarrow> ('e, 'u, unit) rb" where
  "bind_params L U stmt vars = bind_vars L U stmt 1 (flatten vars)"

definition active_p :: "nat \<Rightarrow> ('e, 'u, rb_value) rb" where
  "active_p stmt = bindM (done_p stmt) (\<lambda>d. ret (rb_bool (\<not> RTEST d)))"

text \<open>
  The metadata, which is read from SQLite once and kept in \<open>@columns\<close> and \<open>@types\<close>.
  \<open>Array.new(n)\<close> with a block, and \<open>String#downcase\<close> of a type, which is a string of bytes.
\<close>

definition array_size :: "rb_value \<Rightarrow> abort + nat" where
  "array_size n =
     (case n of
        RInteger k \<Rightarrow> if k < 0 then Inl (Raised (rb_error ArgumentError ''negative array size'')) else Inr (nat k)
      | _ \<Rightarrow> Inl (Raised (rb_error TypeError ''no implicit conversion into Integer'')))"

definition array_of :: "rb_value \<Rightarrow> (rb_value \<Rightarrow> ('e, 'u, rb_value) rb) \<Rightarrow> ('e, 'u, rb_value list) rb" where
  "array_of n f = bindM (liftE (array_size n)) (\<lambda>k. mapM (\<lambda>i. f (RInteger (int i))) [0..<k])"

definition downcase_char :: "char \<Rightarrow> char" where
  "downcase_char c = (let n = of_char c :: nat in if 65 \<le> n \<and> n \<le> 90 then char_of (n + 32) else c)"

definition downcase :: "rb_value \<Rightarrow> rb_value" where
  "downcase val = (case val of RString b enc s f \<Rightarrow> RString False enc (map downcase_char s) False | _ \<Rightarrow> val)"

definition get_metadata :: "'e sqlite_lib \<Rightarrow> nat \<Rightarrow> ('e, 'u, unit) rb" where
  "get_metadata L stmt =
     bindM (column_count L stmt) (\<lambda>n.
     bindM (array_of n (column_name L stmt)) (\<lambda>names.
     bindM (modM (upd_sivars stmt (\<lambda>i. i\<lparr>iv_columns := Some names\<rparr>))) (\<lambda>_.
     bindM (column_count L stmt) (\<lambda>n.
     bindM (array_of n (\<lambda>column. bindM (column_decltype L stmt column) (\<lambda>val. ret (downcase val)))) (\<lambda>types.
     modM (upd_sivars stmt (\<lambda>i. i\<lparr>iv_types := Some types\<rparr>)))))))"

definition array_or_nil :: "rb_value list option \<Rightarrow> rb_value" where
  "array_or_nil a = (case a of None \<Rightarrow> RNil | Some vs \<Rightarrow> RArray vs)"

definition columns :: "'e sqlite_lib \<Rightarrow> nat \<Rightarrow> ('e, 'u, rb_value) rb" where
  "columns L stmt =
     bindM (getM (\<lambda>w. iv_columns (sivars w stmt))) (\<lambda>known.
     bindM (if known = None then get_metadata L stmt else ret ()) (\<lambda>_.
     getM (\<lambda>w. array_or_nil (iv_columns (sivars w stmt)))))"

definition must_be_open_bang :: "nat \<Rightarrow> ('e, 'u, unit) rb" where
  "must_be_open_bang stmt =
     bindM (statement_closed_p stmt) (\<lambda>closed.
     if RTEST closed then fail (Raised (rb_error SQLite3_Exception ''cannot use a closed statement'')) else ret ())"

definition types :: "'e sqlite_lib \<Rightarrow> nat \<Rightarrow> ('e, 'u, rb_value) rb" where
  "types L stmt =
     bindM (must_be_open_bang stmt) (\<lambda>_.
     bindM (getM (\<lambda>w. iv_types (sivars w stmt))) (\<lambda>known.
     bindM (if known = None then get_metadata L stmt else ret ()) (\<lambda>_.
     getM (\<lambda>w. array_or_nil (iv_types (sivars w stmt))))))"

section \<open>ResultSet\<close>

text \<open>
  A ResultSet is a reference to its statement; \<open>build_result_set\<close> makes one whose rows are
  arrays or, when \<open>results_as_hash\<close> of the Database is set, hashes.
\<close>

datatype result_set = ResultSet nat | HashResultSet nat

primrec rs_stmt :: "result_set \<Rightarrow> nat" where
  "rs_stmt (ResultSet stmt) = stmt"
| "rs_stmt (HashResultSet stmt) = stmt"

definition build_result_set :: "nat \<Rightarrow> nat \<Rightarrow> ('e, 'u, result_set) rb" where
  "build_result_set db stmt =
     getM (\<lambda>w. if RTEST (iv_results_as_hash (ivars w db)) then HashResultSet stmt else ResultSet stmt)"

text \<open>\<open>Array#zip\<close> of two arrays, and the \<open>to_h\<close> of the pairs: a later pair replaces the value of
  an earlier one with the same key.\<close>

fun zip_nil :: "rb_value list \<Rightarrow> rb_value list \<Rightarrow> (rb_value \<times> rb_value) list" where
  "zip_nil [] vs = []"
| "zip_nil (k # ks) [] = (k, RNil) # zip_nil ks []"
| "zip_nil (k # ks) (v # vs) = (k, v) # zip_nil ks vs"

definition pairs_to_h :: "(rb_value \<times> rb_value) list \<Rightarrow> (rb_value \<times> rb_value) list" where
  "pairs_to_h kvs = fold (\<lambda>(k, v). hash_aset k v) kvs []"

definition zip_to_h :: "rb_value \<Rightarrow> rb_value \<Rightarrow> abort + rb_value" where
  "zip_to_h names row =
     (case names of
        RArray ks \<Rightarrow>
          (case row of
             RArray vs \<Rightarrow> Inr (RHash (pairs_to_h (zip_nil ks vs)))
           | _ \<Rightarrow> Inl (Raised (rb_error TypeError ''wrong argument type (must respond to :each)'')))
      | _ \<Rightarrow> Inl (Raised (rb_error NoMethodError ''undefined method 'zip' '')))"

definition next_hash :: "'e sqlite_lib \<Rightarrow> 'u rb_user \<Rightarrow> nat \<Rightarrow> ('e, 'u, rb_value) rb" where
  "next_hash L U stmt =
     bindM (step L U stmt) (\<lambda>row.
     bindM (done_p stmt) (\<lambda>d.
     if RTEST d then ret RNil
     else bindM (columns L stmt) (\<lambda>names. liftE (zip_to_h names row))))"

definition result_set_next :: "'e sqlite_lib \<Rightarrow> 'u rb_user \<Rightarrow> result_set \<Rightarrow> ('e, 'u, rb_value) rb" where
  "result_set_next L U rs =
     (case rs of ResultSet stmt \<Rightarrow> step L U stmt | HashResultSet stmt \<Rightarrow> next_hash L U stmt)"

definition result_set_reset ::
  "'e sqlite_lib \<Rightarrow> 'u rb_user \<Rightarrow> result_set \<Rightarrow> rb_value list \<Rightarrow> ('e, 'u, unit) rb" where
  "result_set_reset L U rs vars =
     bindM (reset_bang L U (rs_stmt rs)) (\<lambda>_. bind_params L U (rs_stmt rs) vars)"

definition eof_p :: "result_set \<Rightarrow> ('e, 'u, rb_value) rb" where
  "eof_p rs = done_p (rs_stmt rs)"

definition result_set_close :: "'e sqlite_lib \<Rightarrow> 'u rb_user \<Rightarrow> result_set \<Rightarrow> ('e, 'u, nat) rb" where
  "result_set_close L U rs = statement_close L U (rs_stmt rs)"

definition result_set_closed_p :: "result_set \<Rightarrow> ('e, 'u, rb_value) rb" where
  "result_set_closed_p rs = statement_closed_p (rs_stmt rs)"

definition result_set_types :: "'e sqlite_lib \<Rightarrow> result_set \<Rightarrow> ('e, 'u, rb_value) rb" where
  "result_set_types L rs = types L (rs_stmt rs)"

definition result_set_columns :: "'e sqlite_lib \<Rightarrow> result_set \<Rightarrow> ('e, 'u, rb_value) rb" where
  "result_set_columns L rs = columns L (rs_stmt rs)"

text \<open>The loops of \<open>each\<close> and of \<open>each_hash\<close>.\<close>

definition while_node :: "('e, 'u, rb_value) rb \<Rightarrow> ('e, 'u, rb_value option) rb" where
  "while_node nxt = bindM nxt (\<lambda>node. ret (if RTEST node then Some node else None))"

definition result_set_each ::
  "'e sqlite_lib \<Rightarrow> 'u rb_user \<Rightarrow> result_set \<Rightarrow> (rb_value \<Rightarrow> ('e, 'u, 'b) prog) \<Rightarrow> ('e, 'u, 'b list) prog" where
  "result_set_each L U rs block = each_row (while_node (result_set_next L U rs)) block"

definition each_hash ::
  "'e sqlite_lib \<Rightarrow> 'u rb_user \<Rightarrow> result_set \<Rightarrow> (rb_value \<Rightarrow> ('e, 'u, 'b) prog) \<Rightarrow> ('e, 'u, 'b list) prog" where
  "each_hash L U rs block = each_row (while_node (next_hash L U (rs_stmt rs))) block"

section \<open>Running a statement\<close>

definition connection :: "nat \<Rightarrow> ('e, 'u, nat) rb" where
  "connection stmt =
     bindM (getM (\<lambda>w. iv_connection (sivars w stmt))) (\<lambda>db.
     case db of
       None \<Rightarrow> fail (Raised (rb_error NoMethodError ''undefined method 'build_result_set' ''))
     | Some db \<Rightarrow> ret db)"

definition statement_execute ::
  "'e sqlite_lib \<Rightarrow> 'u rb_user \<Rightarrow> nat \<Rightarrow> rb_value list \<Rightarrow> ('e, 'u, result_set) rb" where
  "statement_execute L U stmt vars =
     bindM (bindM (active_p stmt) (\<lambda>a. if RTEST a then ret a else done_p stmt)) (\<lambda>c.
     bindM (if RTEST c then bindM (reset_bang L U stmt) (\<lambda>_. ret ()) else ret ()) (\<lambda>_.
     bindM (if vars \<noteq> [] then bind_params L U stmt vars else ret ()) (\<lambda>_.
     bindM (bindM (connection stmt) (\<lambda>db. build_result_set db stmt)) (\<lambda>results.
     bindM (column_count L stmt) (\<lambda>n.
     bindM (if n = RInteger 0 then bindM (step L U stmt) (\<lambda>_. ret ()) else ret ()) (\<lambda>_.
     ret results))))))"

text \<open>One turn of \<open>Statement#each\<close>, which looks at \<open>done?\<close> and not at the row.\<close>

definition statement_fetch :: "'e sqlite_lib \<Rightarrow> 'u rb_user \<Rightarrow> nat \<Rightarrow> ('e, 'u, rb_value option) rb" where
  "statement_fetch L U stmt =
     bindM (step L U stmt) (\<lambda>val.
     bindM (done_p stmt) (\<lambda>d. ret (if RTEST d then None else Some val)))"

definition statement_each ::
  "'e sqlite_lib \<Rightarrow> 'u rb_user \<Rightarrow> nat \<Rightarrow> (rb_value \<Rightarrow> ('e, 'u, 'b) prog) \<Rightarrow> ('e, 'u, 'b list) prog" where
  "statement_each L U stmt block = each_row (statement_fetch L U stmt) block"

definition statement_execute_bang ::
  "'e sqlite_lib \<Rightarrow> 'u rb_user \<Rightarrow> nat \<Rightarrow> rb_value list \<Rightarrow> ('e, 'u, rb_value list) prog" where
  "statement_execute_bang L U stmt vars =
     bindP (act (statement_execute L U stmt vars)) (\<lambda>_. to_a (statement_fetch L U stmt))"

section \<open>Database\<close>

text \<open>A text in UTF-8, as the Ruby sources write it.\<close>

definition sql_text :: "string \<Rightarrow> rb_value" where
  "sql_text s = RString False UTF_8 s False"

text \<open>
  \<open>Database#prepare\<close> with a block, to which the object is given with its \<open>remainder\<close>, and \<open>Database#execute\<close> with one and without.
\<close>

definition close_unless_closed :: "'e sqlite_lib \<Rightarrow> 'u rb_user \<Rightarrow> nat \<Rightarrow> ('e, 'u, unit) rb" where
  "close_unless_closed L U stmt =
     bindM (statement_closed_p stmt) (\<lambda>closed.
     if RTEST closed then ret () else bindM (statement_close L U stmt) (\<lambda>_. ret ()))"

definition database_prepare ::
  "'e sqlite_lib \<Rightarrow> 'u rb_user \<Rightarrow> nat \<Rightarrow> rb_value \<Rightarrow> (nat \<Rightarrow> rb_value \<Rightarrow> ('e, 'u, 'a) prog) \<Rightarrow>
     ('e, 'u, 'a) prog" where
  "database_prepare L U db sql block =
     bindP (act (statement_new L U db sql)) (\<lambda>(stmt, remainder).
     ensureP (block stmt remainder) (act (close_unless_closed L U stmt)))"

definition database_execute_each ::
  "'e sqlite_lib \<Rightarrow> 'u rb_user \<Rightarrow> nat \<Rightarrow> rb_value \<Rightarrow> rb_value \<Rightarrow> (rb_value \<Rightarrow> ('e, 'u, 'b) prog) \<Rightarrow>
     ('e, 'u, 'b list) prog" where
  "database_execute_each L U db sql vars block =
     database_prepare L U db sql (\<lambda>stmt remainder.
       bindP (act (bind_params L U stmt [vars])) (\<lambda>_.
       bindP (act (build_result_set db stmt)) (\<lambda>rs. result_set_each L U rs block)))"

definition database_execute ::
  "'e sqlite_lib \<Rightarrow> 'u rb_user \<Rightarrow> nat \<Rightarrow> rb_value \<Rightarrow> rb_value \<Rightarrow> ('e, 'u, rb_value list) prog" where
  "database_execute L U db sql vars = database_execute_each L U db sql vars collect"

text \<open>\<open>Database#execute2\<close>: the names of the columns, then the rows.\<close>

definition database_execute2_each ::
  "'e sqlite_lib \<Rightarrow> 'u rb_user \<Rightarrow> nat \<Rightarrow> rb_value \<Rightarrow> rb_value list \<Rightarrow> (rb_value \<Rightarrow> ('e, 'u, 'b) prog) \<Rightarrow>
     ('e, 'u, 'b list) prog" where
  "database_execute2_each L U db sql vars block =
     database_prepare L U db sql (\<lambda>stmt remainder.
       bindP (act (statement_execute L U stmt vars)) (\<lambda>result.
       bindP (act (columns L stmt)) (\<lambda>names.
       bindP (block names) (\<lambda>y.
       bindP (result_set_each L U result block) (\<lambda>ys.
       act (ret (y # ys)))))))"

definition database_execute2 ::
  "'e sqlite_lib \<Rightarrow> 'u rb_user \<Rightarrow> nat \<Rightarrow> rb_value \<Rightarrow> rb_value list \<Rightarrow> ('e, 'u, rb_value list) prog" where
  "database_execute2 L U db sql vars = database_execute2_each L U db sql vars collect"

text \<open>\<open>Database#query\<close> without a block and with one, after which the result set is closed.\<close>

definition database_query ::
  "'e sqlite_lib \<Rightarrow> 'u rb_user \<Rightarrow> nat \<Rightarrow> rb_value \<Rightarrow> rb_value \<Rightarrow> ('e, 'u, result_set) rb" where
  "database_query L U db sql vars =
     bindM (statement_new L U db sql) (\<lambda>(stmt, remainder). statement_execute L U stmt [vars])"

definition database_query_each ::
  "'e sqlite_lib \<Rightarrow> 'u rb_user \<Rightarrow> nat \<Rightarrow> rb_value \<Rightarrow> rb_value \<Rightarrow> (result_set \<Rightarrow> ('e, 'u, 'a) prog) \<Rightarrow>
     ('e, 'u, 'a) prog" where
  "database_query_each L U db sql vars block =
     bindP (act (database_query L U db sql vars)) (\<lambda>result.
     ensureP (block result) (act (bindM (result_set_close L U result) (\<lambda>_. ret ()))))"

text \<open>
  \<open>get_first_row\<close>, which hands its arguments to \<open>execute\<close>, and \<open>get_first_value\<close>. The first
  value of a row is looked up by the first name when rows are hashes; what an array does with a
  string as its index, and a hash with a default, is not reached.
\<close>

definition first_or_nil :: "rb_value list \<Rightarrow> rb_value" where
  "first_or_nil vs = (case vs of [] \<Rightarrow> RNil | v # vs' \<Rightarrow> v)"

definition get_first_row ::
  "'e sqlite_lib \<Rightarrow> 'u rb_user \<Rightarrow> nat \<Rightarrow> rb_value \<Rightarrow> rb_value list \<Rightarrow> ('e, 'u, rb_value) prog" where
  "get_first_row L U db sql vars =
     (case vars of
        [] \<Rightarrow> bindP (database_execute L U db sql (RArray [])) (\<lambda>rows. act (ret (first_or_nil rows)))
      | [v] \<Rightarrow> bindP (database_execute L U db sql v) (\<lambda>rows. act (ret (first_or_nil rows)))
      | _ \<Rightarrow> act (fail (Raised (rb_error ArgumentError ''wrong number of arguments''))))"

definition hash_aref :: "(rb_value \<times> rb_value) list \<Rightarrow> rb_value \<Rightarrow> rb_value" where
  "hash_aref kvs k = (case map_of kvs k of None \<Rightarrow> RNil | Some v \<Rightarrow> v)"

definition row_first :: "rb_value \<Rightarrow> rb_value" where
  "row_first row =
     (case row of RArray vs \<Rightarrow> first_or_nil vs | RHash kvs \<Rightarrow> hash_aref kvs (RInteger 0) | _ \<Rightarrow> RNil)"

definition row_by_name :: "rb_value \<Rightarrow> rb_value \<Rightarrow> abort + rb_value" where
  "row_by_name row names =
     (case names of
        RArray ns \<Rightarrow>
          (case row of
             RHash kvs \<Rightarrow> Inr (hash_aref kvs (first_or_nil ns))
           | _ \<Rightarrow> Inl (Raised (rb_error TypeError ''no implicit conversion into Integer'')))
      | _ \<Rightarrow> Inl (Raised (rb_error NoMethodError ''undefined method '[]' '')))"

definition first_value ::
  "'e sqlite_lib \<Rightarrow> 'u rb_user \<Rightarrow> nat \<Rightarrow> result_set \<Rightarrow> ('e, 'u, rb_value) rb" where
  "first_value L U db rs =
     bindM (result_set_next L U rs) (\<lambda>row.
     if \<not> RTEST row then ret RNil
     else
       bindM (getM (\<lambda>w. iv_results_as_hash (ivars w db))) (\<lambda>as_hash.
       if RTEST as_hash
       then bindM (result_set_columns L rs) (\<lambda>names. liftE (row_by_name row names))
       else ret (row_first row)))"

definition get_first_value ::
  "'e sqlite_lib \<Rightarrow> 'u rb_user \<Rightarrow> nat \<Rightarrow> rb_value \<Rightarrow> rb_value list \<Rightarrow> ('e, 'u, rb_value) prog" where
  "get_first_value L U db sql vars =
     database_query_each L U db sql (RArray vars) (\<lambda>rs. act (first_value L U db rs))"

text \<open>\<open>Database#execute_batch2\<close>.\<close>

definition database_execute_batch2 ::
  "'e sqlite_lib \<Rightarrow> 'u rb_user \<Rightarrow> nat \<Rightarrow> rb_value \<Rightarrow> ('e, 'u, rb_value) rb" where
  "database_execute_batch2 L U db sql =
     bindM (getM (\<lambda>w. iv_results_as_hash (ivars w db))) (\<lambda>as_hash. exec_batch L U db sql as_hash)"

end
