(* ===== verification/Query_Laws.thy ===== *)
theory Query_Laws
  imports Query
begin

unbundle bit_operations_syntax

text \<open>
  What a query promises: both ways to iterate over rows see the same rows, every parameter is
  bound at its place, and \<open>Database#execute\<close> returns the rows of the query and leaves no statement
  open.
\<close>

section \<open>Programs\<close>

lemma act_run [simp]: "act m w = Some (m w)"
  by (simp add: act_def)

lemma bindP_Inr [simp]: "p w = Some (Inr a, v) \<Longrightarrow> bindP p f w = f a v"
  by (simp add: bindP_def)

lemma bindP_Inl [simp]: "p w = Some (Inl x, v) \<Longrightarrow> bindP p f w = Some (Inl x, v)"
  by (simp add: bindP_def)

lemma bindP_None [simp]: "p w = None \<Longrightarrow> bindP p f w = None"
  by (simp add: bindP_def)

text \<open>\<open>keepsP I p\<close>: the program keeps the invariant however it ends, if it ends.\<close>

definition keepsP :: "(('e, 'u) world \<Rightarrow> bool) \<Rightarrow> ('e, 'u, 'a) prog \<Rightarrow> bool" where
  "keepsP I p \<longleftrightarrow> (\<forall>w r v. I w \<longrightarrow> p w = Some (r, v) \<longrightarrow> I v)"

lemma keepsPD: "keepsP I p \<Longrightarrow> I w \<Longrightarrow> p w = Some (r, v) \<Longrightarrow> I v"
  unfolding keepsP_def by blast

lemma keepsP_act: "keeps I m \<Longrightarrow> keepsP I (act m)"
  by (auto simp: keepsP_def dest: keepsE)

lemma keepsP_bindP:
  "keepsP I p \<Longrightarrow> (\<And>a. keepsP I (f a)) \<Longrightarrow> keepsP I (bindP p f)"
proof -
  assume p: "keepsP I p" and f: "\<And>a. keepsP I (f a)"
  show ?thesis
    unfolding keepsP_def
  proof (intro allI impI)
    fix w r v assume "I w" and run: "bindP p f w = Some (r, v)"
    then obtain q u where "p w = Some (q, u)" by (cases "p w") auto
    with run keepsPD [OF p \<open>I w\<close> this] keepsPD [OF f] show "I v" by (cases q) auto
  qed
qed

lemma each_row_keeps:
  assumes "keeps I fetch" and "\<And>row. keepsP I (block row)"
  shows "keepsP I (each_row fetch block)"
  unfolding keepsP_def
proof (intro allI impI)
  fix w r v assume "I w" and ret: "each_row fetch block w = Some (r, v)"
  have "keeps I fetch \<longrightarrow> (\<forall>row. keepsP I (block row)) \<longrightarrow> I w \<longrightarrow> I (snd (r, v))"
  proof (rule each_row.raw_induct [where P = "\<lambda>fetch block w y. keeps I fetch \<longrightarrow>
        (\<forall>row. keepsP I (block row)) \<longrightarrow> I w \<longrightarrow> I (snd y)", OF _ ret], intro impI)
    fix loop fetch block w y
    assume IH: "\<And>fetch block w y. loop fetch block w = Some y \<Longrightarrow>
          keeps I fetch \<longrightarrow> (\<forall>row. keepsP I (block row)) \<longrightarrow> I w \<longrightarrow> I (snd y)"
      and eq: "(case fetch w of
        (Inl x, v) \<Rightarrow> Some (Inl x, v)
      | (Inr row, v) \<Rightarrow>
          (case row of
             None \<Rightarrow> Some (Inr [], v)
           | Some r \<Rightarrow>
               Option.bind (block r v) (\<lambda>(b, u).
               case b of
                 Inl x \<Rightarrow> Some (Inl x, u)
               | Inr y \<Rightarrow> Option.bind (loop fetch block u) (\<lambda>(ys, t). Some (map_sum id ((#) y) ys, t))))) = Some y"
      and fetch: "keeps I fetch" and block: "\<forall>row. keepsP I (block row)" and "I w"
    obtain q u where q: "fetch w = (q, u)" "I u"
      using keepsD [OF fetch \<open>I w\<close>] by (cases "fetch w") simp
    show "I (snd y)"
    proof (cases "\<exists>row. q = Inr (Some row)")
      case False
      with eq q show ?thesis by (auto split: sum.splits option.splits)
    next
      case True
      then obtain row where row: "q = Inr (Some row)" ..
      with eq q(1) obtain b t where b: "block row u = Some (b, t)"
        by (auto simp: bind_eq_Some_conv)
      then have "I t" using block q(2) by (blast dest: keepsPD)
      with eq q(1) row b IH [of fetch block t] fetch block show ?thesis
        by (auto simp: bind_eq_Some_conv split: sum.splits)
    qed
  qed
  with assms \<open>I w\<close> show "I v" by simp
qed

section \<open>Two ways to iterate\<close>

text \<open>A step that returns has a row exactly when the statement is not done afterwards.\<close>

lemma columns_keep_done:
  "keeps (\<lambda>u. s_done_p (stmts u s) = 0) (mapM (\<lambda>i. bindM (sqlite_call (l_column L) (StmtCall (Some h) (Column i)))
     (\<lambda>v. liftE (column_value U v))) js)"
  by (intro keeps_mapM keeps_bindM keeps_sqlite_call keeps_liftE) (simp add: allows_def)

lemma step_result:
  fixes w :: "('e, 'u) world"
  assumes "step L U s w = (Inr v, w')"
  shows "RTEST v \<longleftrightarrow> s_done_p (stmts w' s) = 0"
proof (cases "s_done_p (stmts w s) = 0")
  case False
  with assms show ?thesis
    by (auto simp: step_def bindM_returns_iff require_usable_run RTEST_def split: option.splits if_splits)
next
  case True
  then obtain h where use: "require_usable s w = (Inr (Some h), w)"
    using assms by (auto simp: step_def bindM_returns_iff require_usable_run split: option.splits if_splits)
  then obtain c u where run: "sqlite_run (callback_handler L U) (l_run L) (StmtCall (Some h) Step) w = (Inr c, u)"
    using assms True by (auto simp: step_run bindM_returns_iff)
  have u: "s_done_p (stmts u s) = 0"
    using structs_same_run [OF run] True by (simp add: structs_same_def)
  have none: "errinfo u = None"
    using assms by (auto simp: step_run [OF use True] bindM_returns_iff run reraise_run split: option.splits)
  let ?u = "u\<lparr>env := snd (l_int L (StmtCall (Some h) Column_count) (env u)),
      calls := calls u @ [StmtCall (Some h) Column_count]\<rparr>"
  have "bindM (sqlite_run (callback_handler L U) (l_run L) (StmtCall (Some h) Reset)) (\<lambda>_.
         bindM (modM (upd_stmt s (\<lambda>s. s\<lparr>s_done_p := 0\<rparr>))) (\<lambda>_.
         bindM (sqlite_call (l_handle L) (StmtCall (Some h) Db_handle)) (\<lambda>db.
         bindM (rb_sqlite3_raise L db c) (\<lambda>_. ret (RArray []))))) ?u = (Inr v, w') \<Longrightarrow>
      v = RArray [] \<and> s_done_p (stmts w' s) = 0"
    by (auto simp: bindM_returns_iff sqlite_call_returns rb_sqlite3_raise_def split: option.splits)
  moreover have "s_done_p (stmts t s) = 0"
    if "mapM (\<lambda>i. bindM (sqlite_call (l_column L) (StmtCall (Some h) (Column i)))
        (\<lambda>v. liftE (column_value U v))) js ?u = (Inr vs, t)" for js vs t
    using keepsE [OF columns_keep_done _ that] u by simp
  ultimately show ?thesis
    using assms run none
    by (auto simp: step_run [OF use True] reraise_run sqlite_call_returns bindM_returns_iff RTEST_def
        split: if_splits)
qed

lemma fetch_agree: "statement_fetch L U s = while_node (step L U s)"
proof
  fix w
  show "statement_fetch L U s w = while_node (step L U s) w"
  proof (cases "step L U s w")
    case (Pair r v)
    with step_result [of L U s w] show ?thesis
      by (cases r) (simp_all add: statement_fetch_def while_node_def done_p_def rb_bool_def
          RTEST_def [of RTrue] RTEST_def [of RFalse])
  qed
qed

text \<open>\<open>Statement#each\<close>, which asks \<open>done?\<close> after every step, and \<open>ResultSet#each\<close>, which
  looks at the row itself, run through the same rows with the same outcome: whatever SQLite, the
  callbacks and the block do, in every state, also when the loop raises or does not end.\<close>

lemma iterations_agree:
  "statement_each L U s block = result_set_each L U (ResultSet s) block"
  by (simp add: statement_each_def result_set_each_def result_set_next_def fetch_agree)

section \<open>Binding the parameters\<close>

text \<open>
  Which key each argument is bound at, said of the flattened arguments as a whole: a hash gives its
  own pairs, any other argument the number of arguments before it that are no hash, plus one.
\<close>

definition hash_p :: "rb_value \<Rightarrow> bool" where
  "hash_p v \<longleftrightarrow> (case v of RHash kvs \<Rightarrow> True | _ \<Rightarrow> False)"

definition position :: "rb_value list \<Rightarrow> nat \<Rightarrow> nat" where
  "position vars i = length (filter (\<lambda>v. \<not> hash_p v) (take i vars))"

fun bind_entry :: "int \<Rightarrow> rb_value \<Rightarrow> (rb_value \<times> rb_value) list" where
  "bind_entry index (RHash kvs) = kvs"
| "bind_entry index v = [(RInteger index, v)]"

definition bind_plan :: "int \<Rightarrow> rb_value list \<Rightarrow> (rb_value \<times> rb_value) list" where
  "bind_plan index vars =
     concat (map (\<lambda>i. bind_entry (index + int (position vars i)) (vars ! i)) [0..<length vars])"

lemma position_simps [simp]:
  "position vars 0 = 0"
  "position (v # vars) (Suc i) = (if hash_p v then 0 else 1) + position vars i"
  by (simp_all add: position_def)

lemma bind_plan_Cons:
  "bind_plan index (v # vars) =
     bind_entry index v @ bind_plan (index + (if hash_p v then 0 else 1)) vars"
proof -
  have "[0..<length (v # vars)] = 0 # map Suc [0..<length vars]"
    by (simp add: map_Suc_upt upt_conv_Cons del: upt_Suc)
  then show ?thesis
    by (simp add: bind_plan_def comp_def add.assoc del: upt_Suc)
qed

abbreviation bind_pair :: "'e sqlite_lib \<Rightarrow> 'u rb_user \<Rightarrow> nat \<Rightarrow> rb_value \<times> rb_value \<Rightarrow> ('e, 'u, unit) rb" where
  "bind_pair L U s \<equiv> \<lambda>(key, val). bindM (bind_param L U s key val) (\<lambda>_. ret ())"

lemma iterM_append: "iterM f (xs @ ys) = bindM (iterM f xs) (\<lambda>_. iterM f ys)"
  by (induction xs) (simp_all add: bindM_assoc)

lemma bind_params_run:
  "bind_params L U s vars = iterM (bind_pair L U s) (bind_plan 1 (flatten vars))"
proof -
  have "bind_vars L U s index vs = iterM (bind_pair L U s) (bind_plan index vs)" for index vs
  proof (induction vs arbitrary: index)
    case Nil
    show ?case by (simp add: bind_plan_def)
  next
    case (Cons v vs)
    then show ?case
      by (cases v) (simp_all add: bind_plan_Cons hash_p_def iterM_append bindM_assoc del: ret_run)
  qed
  then show ?thesis by (simp add: bind_params_def)
qed

text \<open>\<open>bind_params\<close> binds what the caller means, in the order of the arguments. It makes exactly
  the calls of \<open>bind_param\<close> of the plan, one after the other up to the first that raises: nested
  arrays are flattened, the pairs of a hash are bound by their keys and use up no index, and the
  other arguments have the indices 1, 2, 3 and so on, wherever the hashes stand.\<close>

lemma bind_params_plan:
  "bind_params L U s vars = iterM (bind_pair L U s) (concat (map
     (\<lambda>i. bind_entry (1 + int (position (flatten vars) i)) (flatten vars ! i)) [0..<length (flatten vars)]))"
  by (simp add: bind_params_run bind_plan_def)

section \<open>Running a query\<close>

text \<open>Making a statement on an open database, with a library that compiles the SQL.\<close>

definition prepare_call :: "dbh \<Rightarrow> string \<Rightarrow> sql_call" where
  "prepare_call d q = DbCall (Some d) (Prepare_v2 q (word_of_nat (length q)))"

definition new_statement :: "nat \<Rightarrow> dbh \<Rightarrow> sth \<Rightarrow> string \<Rightarrow> 'e \<Rightarrow> ('e, 'u) world \<Rightarrow> ('e, 'u) world" where
  "new_statement db d h q e w =
     upd_db db (\<lambda>x. x\<lparr>d_stmt_deadline := timespecclear\<rparr>)
       (upd_stmt (next_ref w) (\<lambda>_. \<lparr>s_st = Some h, s_db = Some db, s_done_p = 0\<rparr>)
         (upd_sivars (next_ref w) (\<lambda>_. \<lparr>iv_connection = Some db, iv_columns = None, iv_types = None\<rparr>)
           (w\<lparr>next_ref := Suc (next_ref w), env := e, calls := calls w @ [prepare_call d q]\<rparr>)))"

lemma upd_stmt_env: "(upd_stmt s f w)\<lparr>env := e\<rparr> = upd_stmt s f (w\<lparr>env := e\<rparr>)"
  "(upd_stmt s f w)\<lparr>calls := cs\<rparr> = upd_stmt s f (w\<lparr>calls := cs\<rparr>)"
  by (simp_all add: upd_stmt_def)

lemma statement_new_run:
  assumes "d_db (dbs w db) = Some d"
    and "sql_utf8 U sql = Inr (RString b UTF_8 q f)"
    and "l_prepare L (prepare_call d q) (env w) = Return (SQLITE_OK, Some h, tail) e"
  shows "statement_new L U db sql w =
    (Inr (next_ref w, rb_utf8_str_new_cstr tail), new_statement db d h q e w)"
  using assms
  by (simp add: statement_new_def statement_allocate_def fresh_ref_def bindM_def [of fresh_ref]
      database_closed_p_def rb_bool_def RTEST_def prepare_def StringValue_def sqlite_run_def
      prepare_call_def rb_sqlite3_raise_with_sql_def status2klass_def new_statement_def
      zero_sqlite3StmtRuby_def init_statement_def upd_defs comp_def)

text \<open>Binding positional values, with a library that accepts them.\<close>

definition binding_op :: "st_op \<Rightarrow> bool" where
  "binding_op op \<longleftrightarrow> (case op of
     Bind_blob i s \<Rightarrow> True | Bind_text i s \<Rightarrow> True | Bind_text16 i s \<Rightarrow> True
   | Bind_int64 i n \<Rightarrow> True | Bind_double i x \<Rightarrow> True | Bind_null i \<Rightarrow> True | _ \<Rightarrow> False)"

definition accepts_bindings :: "'e sqlite_lib \<Rightarrow> sth \<Rightarrow> ('e \<Rightarrow> sqlite3_value list list) \<Rightarrow> bool" where
  "accepts_bindings L h todo \<longleftrightarrow>
     (\<forall>op e. binding_op op \<longrightarrow> fst (l_int L (StmtCall (Some h) op) e) = SQLITE_OK \<and>
        todo (snd (l_int L (StmtCall (Some h) op) e)) = todo e) \<and>
     (\<forall>e. todo (snd (l_handle L (StmtCall (Some h) Db_handle) e)) = todo e)"

lemma bind_call_binding: "bind_call U i v = Inr op \<Longrightarrow> binding_op op"
  by (cases v) (auto simp: bind_call_def binding_op_def map_sum_def split: if_splits sum.splits option.splits)

definition binding_calls :: "sth \<Rightarrow> st_op list \<Rightarrow> sql_call list" where
  "binding_calls h ops = concat (map (\<lambda>op. [StmtCall (Some h) op, StmtCall (Some h) Db_handle]) ops)"

fun binds_as :: "'u rb_user \<Rightarrow> int \<Rightarrow> rb_value list \<Rightarrow> st_op list \<Rightarrow> bool" where
  "binds_as U i [] ops \<longleftrightarrow> ops = []"
| "binds_as U i (v # vs) ops \<longleftrightarrow> \<not> hash_p v \<and> int_fits 32 i \<and> i \<noteq> 0 \<and>
     (case ops of [] \<Rightarrow> False
      | op # ops' \<Rightarrow> bind_call U (word_of_int i) v = Inr op \<and> binds_as U (i + 1) vs ops')"

lemma bind_one_run:
  assumes "accepts_bindings L h todo" and "require_usable s w = (Inr (Some h), w)"
    and "int_fits 32 i" and "i \<noteq> 0" and "bind_call U (word_of_int i) v = Inr op"
  shows "\<exists>e. bind_param L U s (RInteger i) v w = (Inr s, w\<lparr>env := e,
      calls := calls w @ [StmtCall (Some h) op, StmtCall (Some h) Db_handle]\<rparr>) \<and> todo e = todo (env w)"
proof -
  have "word_of_int i \<noteq> (0 :: cint)"
    using sint_word_of_int [where 'a = 32, of i] assms(3,4) by auto
  moreover have "binding_op op" by (rule bind_call_binding [OF assms(5)])
  ultimately show ?thesis
    using assms
    by (intro exI) (auto simp: bind_param_def parameter_index_def Let_def int_in_range_def sqlite_call_returns
        accepts_bindings_def rb_sqlite3_raise_def status2klass_def)
qed

lemma bind_vars_run:
  assumes "accepts_bindings L h todo" and "require_usable s w = (Inr (Some h), w)"
    and "binds_as U i vs ops"
  shows "\<exists>e. bind_vars L U s i vs w = (Inr (), w\<lparr>env := e, calls := calls w @ binding_calls h ops\<rparr>) \<and>
    todo e = todo (env w)"
  using assms(2,3)
proof (induction vs arbitrary: i ops w)
  case Nil
  then show ?case by (intro exI [of _ "env w"]) (simp add: binding_calls_def)
next
  case (Cons v vs)
  then obtain op ops' where ops: "ops = op # ops'" "bind_call U (word_of_int i) v = Inr op" "binds_as U (i + 1) vs ops'"
    by (auto split: list.splits)
  obtain e where e: "bind_param L U s (RInteger i) v w = (Inr s, w\<lparr>env := e,
      calls := calls w @ [StmtCall (Some h) op, StmtCall (Some h) Db_handle]\<rparr>)" "todo e = todo (env w)"
    using bind_one_run [OF assms(1) Cons.prems(1) _ _ ops(2)] Cons.prems(2) by auto
  let ?w = "w\<lparr>env := e, calls := calls w @ [StmtCall (Some h) op, StmtCall (Some h) Db_handle]\<rparr>"
  have "require_usable s ?w = (Inr (Some h), ?w)"
    by (rule require_usable_cong [OF _ _ _ Cons.prems(1)]) simp_all
  from Cons.IH [OF this ops(3)] obtain e2 where "bind_vars L U s (i + 1) vs ?w =
      (Inr (), ?w\<lparr>env := e2, calls := calls ?w @ binding_calls h ops'\<rparr>)" "todo e2 = todo (env ?w)"
    by blast
  with e Cons.prems(2) ops(1) show ?case
    by (cases v) (auto simp: hash_p_def binding_calls_def intro!: exI [of _ e2])
qed

text \<open>The loop over the rows, and the end of a query.\<close>

lemma while_node_run:
  "nxt w = (Inr v, u) \<Longrightarrow> while_node nxt w = (Inr (if RTEST v then Some v else None), u)"
  by (simp add: while_node_def)

lemma row_array_RTEST [simp]: "RTEST (row_array U r)" "\<not> RTEST RNil"
  by (simp_all add: row_array_def RTEST_def)

lemma collect_run: "collect row w = Some (Inr row, w)"
  by (simp add: collect_def)

lemma each_row_next:
  "fetch w = (Inr (Some r), v) \<Longrightarrow>
     each_row fetch collect w =
       Option.bind (each_row fetch collect v) (\<lambda>(rows, u). Some (map_sum id ((#) r) rows, u))"
  by (subst each_row.simps) (simp add: collect_run)

lemma each_row_end: "fetch w = (Inr None, v) \<Longrightarrow> each_row fetch block w = Some (Inr [], v)"
  by (subst each_row.simps) simp

definition rows_calls :: "sth \<Rightarrow> sqlite3_value list list \<Rightarrow> sql_call list" where
  "rows_calls h rows = concat (map (step_calls h) rows) @ step_calls h []"

text \<open>The result set that \<open>build_result_set\<close> makes.\<close>

definition result_set_of :: "nat \<Rightarrow> nat \<Rightarrow> ('e, 'u) world \<Rightarrow> result_set" where
  "result_set_of db s w = (if RTEST (iv_results_as_hash (ivars w db)) then HashResultSet s else ResultSet s)"

lemma rs_stmt_of [simp]: "rs_stmt (result_set_of db s w) = s"
  by (simp add: result_set_of_def)

lemma build_result_set_run: "build_result_set db s w = (Inr (result_set_of db s w), w)"
  by (simp add: build_result_set_def result_set_of_def)

text \<open>
  A loop over the rows of the statement \<open>s\<close> that returns \<open>out\<close>, makes the calls \<open>cs\<close> and leaves
  the statement done; it may have stored the metadata.
\<close>

definition loop_run ::
  "'e sqlite_lib \<Rightarrow> 'u rb_user \<Rightarrow> result_set \<Rightarrow> rb_value list \<Rightarrow> sql_call list \<Rightarrow> ('e, 'u) world \<Rightarrow> bool" where
  "loop_run L U rs out cs w \<longleftrightarrow> (\<exists>e m. result_set_each L U rs collect w = Some (Inr out,
     upd_stmt (rs_stmt rs) (\<lambda>x. x\<lparr>s_done_p := 1\<rparr>) (upd_sivars (rs_stmt rs) m (w\<lparr>env := e, calls := calls w @ cs\<rparr>))))"

text \<open>The statement is usable and not done, and no exception is pending.\<close>

definition at_start :: "nat \<Rightarrow> sth \<Rightarrow> ('e, 'u) world \<Rightarrow> bool" where
  "at_start s h w \<longleftrightarrow> require_usable s w = (Inr (Some h), w) \<and> s_done_p (stmts w s) = 0 \<and> errinfo w = None"

lemma at_start_cong:
  assumes "at_start s h w" and "dbs v = dbs w" and "stmts v = stmts w" and "errinfo v = errinfo w"
  shows "at_start s h v"
  using assms require_usable_cong [of v w s] by (simp add: at_start_def)

lemma upd_sivars_same [simp]: "upd_sivars s (\<lambda>i. i) w = w"
  by (simp add: upd_sivars_def)

lemma loop_run_end:
  assumes "yields_rows L h todo cur" and "todo (env w) = []" and "at_start (rs_stmt rs) h w"
  shows "loop_run L U rs [] (step_calls h []) w"
proof -
  let ?s = "rs_stmt rs"
  obtain e where e: "step L U ?s w = (Inr RNil, upd_stmt ?s (\<lambda>s. s\<lparr>s_done_p := 1\<rparr>)
      (w\<lparr>env := e, calls := calls w @ step_calls h []\<rparr>))"
    using step_end [OF assms(1,2)] assms(3) unfolding at_start_def by blast
  then have "result_set_next L U rs w = (Inr RNil, upd_stmt ?s (\<lambda>s. s\<lparr>s_done_p := 1\<rparr>)
      (w\<lparr>env := e, calls := calls w @ step_calls h []\<rparr>))"
    by (cases rs) (simp_all add: result_set_next_def next_hash_def done_p_def rb_bool_def RTEST_def)
  from while_node_run [where nxt = "result_set_next L U rs", OF this] show ?thesis
    unfolding loop_run_def by (intro exI [of _ e] exI [of _ "\<lambda>i. i"]) (simp add: result_set_each_def each_row_end)
qed

lemma loop_run_next:
  assumes "result_set_next L U rs w = (Inr r, upd_sivars (rs_stmt rs) f (w\<lparr>env := e, calls := calls w @ c\<rparr>))"
    and "RTEST r" and "loop_run L U rs out cs (upd_sivars (rs_stmt rs) f (w\<lparr>env := e, calls := calls w @ c\<rparr>))"
  shows "loop_run L U rs (r # out) (c @ cs) w"
proof -
  let ?s = "rs_stmt rs" and ?w = "upd_sivars (rs_stmt rs) f (w\<lparr>env := e, calls := calls w @ c\<rparr>)"
  obtain e2 m where "result_set_each L U rs collect ?w = Some (Inr out, upd_stmt ?s (\<lambda>x. x\<lparr>s_done_p := 1\<rparr>)
      (upd_sivars ?s m (?w\<lparr>env := e2, calls := calls ?w @ cs\<rparr>)))"
    using assms(3) unfolding loop_run_def by blast
  moreover have "upd_sivars ?s m (?w\<lparr>env := e2, calls := calls ?w @ cs\<rparr>) =
      upd_sivars ?s (m \<circ> f) (w\<lparr>env := e2, calls := calls w @ c @ cs\<rparr>)"
    by (simp add: upd_sivars_def)
  ultimately show ?thesis
    using while_node_run [where nxt = "result_set_next L U rs", OF assms(1)] assms(2) unfolding loop_run_def
    by (intro exI [of _ e2] exI [of _ "m \<circ> f"]) (simp add: result_set_each_def each_row_next)
qed

lemma array_loop:
  assumes "yields_rows L h todo cur" and "todo (env w) = rows" and "list_all valid_row rows" and "at_start s h w"
  shows "loop_run L U (ResultSet s) (map (row_array U) rows) (rows_calls h rows) w"
  using assms(2-)
proof (induction rows arbitrary: w)
  case Nil
  then show ?case using loop_run_end [OF assms(1), of w "ResultSet s" U] by (simp add: rows_calls_def)
next
  case (Cons r rows)
  then obtain e where e: "step L U s w = (Inr (row_array U r), w\<lparr>env := e, calls := calls w @ step_calls h r\<rparr>)"
    "todo e = rows"
    using step_row [OF assms(1) Cons.prems(1), of s U] Cons.prems(2,3) unfolding at_start_def by auto
  let ?w = "w\<lparr>env := e, calls := calls w @ step_calls h r\<rparr>"
  have "loop_run L U (ResultSet s) (map (row_array U) rows) (rows_calls h rows) ?w"
    using Cons.prems e(2) by (intro Cons.IH at_start_cong [OF Cons.prems(3)]) simp_all
  then show ?case
    using loop_run_next [where L = L and U = U and w = w and rs = "ResultSet s" and r = "row_array U r"
        and f = "\<lambda>i. i" and c = "step_calls h r" and e = e and out = "map (row_array U) rows"
        and cs = "rows_calls h rows"] e(1)
    by (simp add: result_set_next_def rows_calls_def)
qed

definition finalizes :: "'e sqlite_lib \<Rightarrow> sth \<Rightarrow> bool" where
  "finalizes L h \<longleftrightarrow> (\<forall>e. \<exists>z e'. l_run L (StmtCall (Some h) Finalize) e = Return z e')"

lemma close_run:
  assumes "finalizes L h" and "s_st (stmts w s) = Some h"
  shows "\<exists>e. statement_close L U s w = (Inr s, upd_stmt s (\<lambda>x. x\<lparr>s_st := None\<rparr>)
    (w\<lparr>calls := calls w @ [StmtCall (Some h) Finalize], env := e\<rparr>))"
proof -
  obtain z e where "l_run L (StmtCall (Some h) Finalize) (env w) = Return z e"
    using assms(1) unfolding finalizes_def by blast
  with assms(2) show ?thesis
    by (intro exI [of _ e]) (simp add: statement_close_def open_stmt.guarded_open sqlite_run_def)
qed

text \<open>The block of \<open>prepare\<close> has ended, in whatever way; the statement is still open.\<close>

lemma database_prepare_run:
  assumes "statement_new L U db sql w = (Inr (s, remainder), v)" and "block s remainder v = Some (r, u)"
    and "\<And>z. r \<noteq> Inl (Undefined z)" and "s_st (stmts u s) = Some h"
  shows "database_prepare L U db sql block w =
    (case statement_close L U s u of (Inl x, t) \<Rightarrow> Some (Inl x, t) | (Inr z, t) \<Rightarrow> Some (r, t))"
proof -
  have "database_prepare L U db sql block w = ensureP (block s remainder) (act (close_unless_closed L U s)) v"
    using assms(1) by (simp add: database_prepare_def)
  also have "\<dots> = (case bindM (statement_close L U s) (\<lambda>_. ret ()) u of
      (Inl x, t) \<Rightarrow> Some (Inl x, t) | (Inr z, t) \<Rightarrow> Some (r, t))"
    using assms(2-4) by (cases r; cases "projl r")
      (auto simp: ensureP_def close_unless_closed_def statement_closed_p_def rb_bool_def RTEST_def
        split: prod.splits sum.splits)
  finally show ?thesis by (simp add: bindM_def split: prod.splits sum.splits)
qed

text \<open>
  \<open>execute\<close> as a whole: the statement is made, the parameters are bound, the loop runs from a
  fresh statement, and the statement is closed. The loop is a parameter, since a row is an array
  or a hash.
\<close>

lemma execute_run:
  assumes "d_db (dbs w db) = Some d" and "d_flags (dbs w db) AND SQLITE3_RB_DATABASE_DISCARDED = 0"
    and "errinfo w = None" and "sql_utf8 U sql = Inr (RString b UTF_8 q f)"
    and "l_prepare L (prepare_call d q) (env w) = Return (SQLITE_OK, Some h, tail) e"
    and "accepts_bindings L h todo" and "binds_as U 1 (flatten [vars]) ops" and "finalizes L h"
    and loop: "\<And>v s rs. at_start s h v \<Longrightarrow> todo (env v) = todo e \<Longrightarrow> iv_columns (sivars v s) = None \<Longrightarrow>
      loop_run L U (result_set_of db s w) out cs v"
  shows "\<exists>w'. database_execute L U db sql vars w = Some (Inr out, w') \<and>
    calls w' = calls w @ [prepare_call d q] @ binding_calls h ops @ cs @ [StmtCall (Some h) Finalize] \<and>
    s_st (stmts w' (next_ref w)) = None \<and> db_handles_same w w' \<and> errinfo w' = None"
proof -
  let ?s = "next_ref w" and ?w = "new_statement db d h q e w"
  let ?rs = "result_set_of db ?s w"
  have new: "statement_new L U db sql w = (Inr (?s, rb_utf8_str_new_cstr tail), ?w)"
    by (rule statement_new_run [OF assms(1,4,5)])
  have use: "require_usable ?s ?w = (Inr (Some h), ?w)"
    using assms(2) by (intro usable_open [of _ _ db]) (simp_all add: new_statement_def)
  obtain e1 where bound: "bind_params L U ?s [vars] ?w =
      (Inr (), ?w\<lparr>env := e1, calls := calls ?w @ binding_calls h ops\<rparr>)" and e1: "todo e1 = todo (env ?w)"
    using bind_vars_run [OF assms(6) use assms(7)] unfolding bind_params_def by blast
  let ?v = "?w\<lparr>env := e1, calls := calls ?w @ binding_calls h ops\<rparr>"
  have "at_start ?s h ?w" using use assms(3) by (simp add: at_start_def new_statement_def)
  then have "at_start ?s h ?v" by (rule at_start_cong) simp_all
  then obtain e2 m where rows: "result_set_each L U ?rs collect ?v = Some (Inr out,
      upd_stmt ?s (\<lambda>x. x\<lparr>s_done_p := 1\<rparr>) (upd_sivars ?s m (?v\<lparr>env := e2, calls := calls ?v @ cs\<rparr>)))"
    using loop [of ?s ?v] e1 by (auto simp: new_statement_def loop_run_def)
  let ?u = "upd_stmt ?s (\<lambda>x. x\<lparr>s_done_p := 1\<rparr>) (upd_sivars ?s m (?v\<lparr>env := e2, calls := calls ?v @ cs\<rparr>))"
  have st: "s_st (stmts ?u ?s) = Some h" by (simp add: new_statement_def)
  then obtain e3 where close: "statement_close L U ?s ?u = (Inr ?s, upd_stmt ?s (\<lambda>x. x\<lparr>s_st := None\<rparr>)
      (?u\<lparr>calls := calls ?u @ [StmtCall (Some h) Finalize], env := e3\<rparr>))"
    using close_run [OF assms(8)] by blast
  let ?block = "\<lambda>s remainder. bindP (act (bind_params L U s [vars])) (\<lambda>_.
    bindP (act (build_result_set db s)) (\<lambda>rs. result_set_each L U rs collect))"
  have "ivars ?v = ivars w" by (simp add: new_statement_def)
  then have "?block ?s (rb_utf8_str_new_cstr tail) ?w = Some (Inr out, ?u)"
    using bound rows by (simp add: build_result_set_run result_set_of_def)
  from database_prepare_run [where block = ?block, OF new this _ st] close
  have "database_execute L U db sql vars w = Some (Inr out,
      upd_stmt ?s (\<lambda>x. x\<lparr>s_st := None\<rparr>) (?u\<lparr>calls := calls ?u @ [StmtCall (Some h) Finalize], env := e3\<rparr>))"
    by (simp add: database_execute_def database_execute_each_def)
  then show ?thesis
    using assms(3) by (simp add: new_statement_def db_handles_same_def)
qed

text \<open>C9: what \<open>Database#execute\<close> does with a query, from end to end. On an open database that returns its rows as arrays, with a
  library that compiles the SQL, accepts the parameters and yields rows, it returns all rows of
  the query in order, converted to Ruby, and makes exactly these calls: one prepare, one
  binding per parameter at the indices 1, 2, 3, the steps and column reads up to the end, and one
  finalize. The statement it made is closed, the connection as it was, and nothing is pending.\<close>

theorem execute_rows:
  assumes "d_db (dbs w db) = Some d" and "d_flags (dbs w db) AND SQLITE3_RB_DATABASE_DISCARDED = 0"
    and "errinfo w = None" and "sql_utf8 U sql = Inr (RString b UTF_8 q f)"
    and "l_prepare L (prepare_call d q) (env w) = Return (SQLITE_OK, Some h, tail) e"
    and "accepts_bindings L h todo" and "binds_as U 1 (flatten [vars]) ops"
    and "yields_rows L h todo cur" and "todo e = rows" and "list_all valid_row rows" and "finalizes L h"
    and "\<not> RTEST (iv_results_as_hash (ivars w db))"
  shows "\<exists>w'. database_execute L U db sql vars w = Some (Inr (map (row_array U) rows), w') \<and>
    calls w' = calls w @ [prepare_call d q] @ binding_calls h ops @ rows_calls h rows @
      [StmtCall (Some h) Finalize] \<and>
    s_st (stmts w' (next_ref w)) = None \<and> db_handles_same w w' \<and> errinfo w' = None"
  using assms(9,10,12)
  by (intro execute_run [OF assms(1-7,11)]) (auto simp: result_set_of_def intro!: array_loop [OF assms(8)])

text \<open>\<open>Statement#execute\<close> runs a command at once; a query is left to the loop.\<close>

lemma column_count_run:
  assumes "yields_rows L h todo cur" and "require_usable s w = (Inr (Some h), w)"
    and "length (cur (env w)) \<le> 32767"
  shows "column_count L s w = (Inr (RInteger (int (length (cur (env w))))),
    w\<lparr>calls := calls w @ [StmtCall (Some h) Column_count]\<rparr>)"
  using assms
  by (simp add: yields_rows_def column_count_def sqlite_call_returns INT2NUM_def
      sint_word_of_int [where 'a = 32, of "int (length (cur (env w)))", unfolded int_fits_def, simplified])

lemma bind_params_accepted:
  assumes "accepts_bindings L h todo" and "require_usable s w = (Inr (Some h), w)"
    and "binds_as U 1 (flatten vars) ops"
  shows "\<exists>e. (if vars \<noteq> [] then bind_params L U s vars else ret ()) w =
      (Inr (), w\<lparr>env := e, calls := calls w @ binding_calls h ops\<rparr>) \<and> todo e = todo (env w)"
  using bind_vars_run [OF assms] assms(3)
  by (cases "vars = []") (auto simp: bind_params_def binding_calls_def intro: exI [of _ "env w"])

lemma steps_made_bindings [simp]:
  "list_all binding_op ops \<Longrightarrow> steps_made h (binding_calls h ops) = 0"
  by (induction ops) (auto simp: steps_made_def binding_calls_def binding_op_def split: st_op.splits)

lemma steps_made_Cons:
  "steps_made h (c # cs) = (if c = StmtCall (Some h) Step then 1 else 0) + steps_made h cs"
  by (simp add: steps_made_def)

lemma binds_as_ops: "binds_as U i vs ops \<Longrightarrow> list_all binding_op ops"
  by (induction U i vs ops rule: binds_as.induct) (auto split: list.splits intro: bind_call_binding)

lemma steps_made_rows [simp]: "steps_made h (rows_calls h rows) = Suc (length rows)"
  by (induction rows) (simp_all add: rows_calls_def)

text \<open>The world in which the loop of \<open>execute!\<close> begins: reset, bound and asked for its columns.\<close>

definition executed :: "nat \<Rightarrow> sth \<Rightarrow> st_op list \<Rightarrow> 'e \<Rightarrow> ('e, 'u) world \<Rightarrow> ('e, 'u) world" where
  "executed s h ops e w = upd_stmt s (\<lambda>x. x\<lparr>s_done_p := 0\<rparr>)
     (w\<lparr>env := e, calls := calls w @ [StmtCall (Some h) Reset] @ binding_calls h ops @
        [StmtCall (Some h) Column_count]\<rparr>)"

lemma executed_simps [simp]:
  "env (executed s h ops e w) = e" "errinfo (executed s h ops e w) = errinfo w" "dbs (executed s h ops e w) = dbs w"
  "s_done_p (stmts (executed s h ops e w) s) = 0"
  "list_all binding_op ops \<Longrightarrow> steps_made h (calls (executed s h ops e w)) = steps_made h (calls w)"
  by (simp_all add: executed_def steps_made_Cons) (simp add: steps_made_def)

lemma statement_execute_run:
  assumes "require_usable s w = (Inr (Some h), w)"
    and "l_run L (StmtCall (Some h) Reset) (env w) = Return z e"
    and "accepts_bindings L h todo" and "binds_as U 1 (flatten vars) ops"
    and "yields_rows L h todo cur" and "\<forall>e. length (cur e) \<le> 32767"
    and "iv_connection (sivars w s) = Some db"
  shows "\<exists>e'. todo e' = todo e \<and>
    require_usable s (executed s h ops e' w) = (Inr (Some h), executed s h ops e' w) \<and>
    statement_execute L U s vars w =
      bindM (if cur e' = [] then bindM (step L U s) (\<lambda>_. ret ()) else ret ())
        (\<lambda>_. ret (result_set_of db s w)) (executed s h ops e' w)"
proof -
  let ?w = "upd_stmt s (\<lambda>s. s\<lparr>s_done_p := 0\<rparr>) (w\<lparr>calls := calls w @ [StmtCall (Some h) Reset], env := e\<rparr>)"
  have reset: "reset_bang L U s w = (Inr s, ?w)"
    using assms(2) by (intro reset_run [OF assms(1)]) (simp add: sqlite_run_def)
  have use: "require_usable s v = (Inr (Some h), v)"
    if "dbs v = dbs ?w" "stmts v s = stmts ?w s" for v
    using that by (intro require_usable_cong [OF _ _ _ assms(1)]) simp_all
  obtain e1 where bound: "(if vars \<noteq> [] then bind_params L U s vars else ret ()) ?w =
      (Inr (), ?w\<lparr>env := e1, calls := calls ?w @ binding_calls h ops\<rparr>)" and e1: "todo e1 = todo e"
    using bind_params_accepted [OF assms(3) use assms(4), of ?w] by auto
  let ?v = "?w\<lparr>env := e1, calls := calls ?w @ binding_calls h ops\<rparr>"
  have "?v\<lparr>calls := calls ?v @ [StmtCall (Some h) Column_count]\<rparr> = executed s h ops e1 w"
    by (simp add: executed_def upd_stmt_def)
  then have count: "column_count L s ?v = (Inr (RInteger (int (length (cur e1)))), executed s h ops e1 w)"
    using column_count_run [OF assms(5) use, of ?v] assms(6) by simp
  have built: "bindM (connection s) (\<lambda>db. build_result_set db s) ?v = (Inr (result_set_of db s w), ?v)"
    using assms(7) by (simp add: connection_def bindM_def [of "getM f" for f] build_result_set_run result_set_of_def)
  have again: "bindM (active_p s) (\<lambda>a. if RTEST a then ret a else done_p s) w = (Inr RTrue, w)"
    by (simp add: active_p_def done_p_def bindM_def rb_bool_def RTEST_def)
  have "statement_execute L U s vars w =
      bindM (if cur e1 = [] then bindM (step L U s) (\<lambda>_. ret ()) else ret ())
        (\<lambda>_. ret (result_set_of db s w)) (executed s h ops e1 w)"
    using again reset bound built count by (simp add: statement_execute_def RTEST_def [of RTrue])
  with e1 use [of "executed s h ops e1 w"] show ?thesis by (auto simp: executed_def)
qed

text \<open>C34: \<open>Statement#execute!\<close>. It starts the statement again, binds the arguments and returns all
  rows in order. The statement is stepped once per row and once for the end: a command, which has
  no columns, is stepped exactly once, by \<open>execute\<close>, and the loop that follows does not run it a
  second time.\<close>

theorem execute_bang_rows:
  assumes "require_usable s w = (Inr (Some h), w)" and "errinfo w = None"
    and "l_run L (StmtCall (Some h) Reset) (env w) = Return z e"
    and "accepts_bindings L h todo" and "binds_as U 1 (flatten vars) ops"
    and "yields_rows L h todo cur" and "todo e = rows" and "list_all valid_row rows"
    and "\<forall>e. length (cur e) \<le> 32767 \<and> (cur e = [] \<longrightarrow> todo e = [])"
    and "iv_connection (sivars w s) = Some db"
  shows "\<exists>w'. statement_execute_bang L U s vars w = Some (Inr (map (row_array U) rows), w') \<and>
    steps_made h (calls w') = steps_made h (calls w) + length rows + 1 \<and> s_done_p (stmts w' s) = 1"
proof -
  obtain e' where e': "todo e' = rows" and
    use: "require_usable s (executed s h ops e' w) = (Inr (Some h), executed s h ops e' w)" and
    exec: "statement_execute L U s vars w =
      bindM (if cur e' = [] then bindM (step L U s) (\<lambda>_. ret ()) else ret ())
        (\<lambda>_. ret (result_set_of db s w)) (executed s h ops e' w)"
    using statement_execute_run [OF assms(1,3-6) _ assms(10)] assms(7,9) by blast
  let ?c = "executed s h ops e' w"
  have made: "steps_made h (calls ?c) = steps_made h (calls w)"
    using binds_as_ops [OF assms(5)] by simp
  show ?thesis
  proof (cases "cur e' = []")
    case True
    then have rows: "rows = []" using assms(9) e' by blast
    with e' assms(2) obtain e2 where step: "step L U s ?c = (Inr RNil, upd_stmt s (\<lambda>s. s\<lparr>s_done_p := 1\<rparr>)
        (?c\<lparr>env := e2, calls := calls ?c @ step_calls h []\<rparr>))"
      using step_end [OF assms(6) _ use] by auto
    let ?u = "upd_stmt s (\<lambda>s. s\<lparr>s_done_p := 1\<rparr>) (?c\<lparr>env := e2, calls := calls ?c @ step_calls h []\<rparr>)"
    have "require_usable s ?u = (Inr (Some h), ?u)"
      by (rule require_usable_cong [OF _ _ _ use]) simp_all
    from while_node_run [where nxt = "step L U s", OF step_done [OF this]] have "to_a (statement_fetch L U s) ?u = Some (Inr [], ?u)"
      by (simp add: to_a_def fetch_agree each_row_end)
    with exec step True rows made show ?thesis
      by (simp add: statement_execute_bang_def)
  next
    case False
    have "at_start s h ?c" using use assms(2) by (simp add: at_start_def)
    then obtain e2 m where "each_row (while_node (step L U s)) collect ?c = Some (Inr (map (row_array U) rows),
        upd_stmt s (\<lambda>x. x\<lparr>s_done_p := 1\<rparr>) (upd_sivars s m (?c\<lparr>env := e2, calls := calls ?c @ rows_calls h rows\<rparr>)))"
      using array_loop [OF assms(6) _ assms(8), of ?c s U] e'
      by (auto simp: loop_run_def result_set_each_def result_set_next_def)
    with exec False made show ?thesis
      by (simp add: statement_execute_bang_def to_a_def fetch_agree)
  qed
qed

section \<open>No statement is left open\<close>

lemma keeps_dropped: "keeps I (bindM m (\<lambda>_. ret ())) \<longleftrightarrow> keeps I m"
proof -
  have "snd (bindM m (\<lambda>_. ret ()) w) = snd (m w)" for w
    by (simp add: bindM_def split: prod.splits sum.splits)
  then show ?thesis by (simp add: keeps_def)
qed

context statement_base
begin

lemma keeps_member:
  assumes "bindM m (\<lambda>_. ret ()) \<in> set (guarded_methods L U s a b)"
  shows "keeps I m"
  using keeps_guarded [OF assms] keeps_dropped by blast

lemma keeps_step: "keeps I (step L U s)"
  by (rule keeps_member) (simp add: guarded_methods_def)

lemma keeps_bind_param: "keeps I (bind_param L U s k v)"
  by (rule keeps_member [where a = k and b = v]) (simp add: guarded_methods_def)

lemma keeps_bind_parameter_count: "keeps I (bind_parameter_count L s)"
  by (rule keeps_member) (simp add: guarded_methods_def)

lemma keeps_bind_params: "keeps I (bind_params L U s vars)"
  unfolding bind_params_run by (intro keeps_iterM keeps_case_prod keeps_bindM keeps_ret keeps_bind_param)

lemma keeps_counts: "keeps I (column_count L s)" "keeps I (column_name L s k)" "keeps I (column_decltype L s k)"
  by (rule keeps_member [where a = k], simp add: guarded_methods_def)+

end

text \<open>The Ruby code around the methods writes the instance variables of the statement.\<close>

locale query_base = statement_base I s h L U
  for I :: "('e, 'u) world \<Rightarrow> bool" and s h and L :: "'e sqlite_lib" and U :: "'u rb_user" +
  assumes ruby_field: "I w \<Longrightarrow> I (upd_sivars s f w)"
begin

lemma keeps_array_of: "(\<And>i. keeps I (f i)) \<Longrightarrow> keeps I (array_of n f)"
  unfolding array_of_def by (intro keeps_bindM keeps_liftE keeps_mapM)

lemma keeps_columns: "keeps I (columns L s)"
  unfolding columns_def get_metadata_def
  by (intro keeps_bindM keeps_ret keeps_if keeps_getM keeps_modM keeps_array_of keeps_counts ruby_field)

lemma keeps_next:
  assumes "rs_stmt rs = s"
  shows "keeps I (result_set_next L U rs)"
  using assms
  by (cases rs) (auto simp: result_set_next_def next_hash_def done_p_def
      intro!: keeps_bindM keeps_ret keeps_if keeps_getM keeps_liftE keeps_columns keeps_step)

lemma keeps_query:
  assumes "\<And>row. keepsP I (block row)"
  shows "keepsP I (bindP (act (bind_params L U s vars)) (\<lambda>_.
    bindP (act (build_result_set db s)) (\<lambda>rs. result_set_each L U rs block)))"
proof (rule keepsP_bindP [OF keepsP_act [OF keeps_bind_params]])
  have each: "keepsP I (result_set_each L U rs block)" if "rs_stmt rs = s" for rs
    unfolding result_set_each_def [abs_def] while_node_def
    by (intro each_row_keeps keeps_bindM keeps_ret keeps_next that assms)
  have "keepsP I (\<lambda>w. result_set_each L U (result_set_of db s w) block w)"
    using keepsPD [OF each [OF rs_stmt_of]] unfolding keepsP_def by blast
  then show "keepsP I (bindP (act (build_result_set db s)) (\<lambda>rs. result_set_each L U rs block))"
    by (simp add: bindP_def [abs_def] build_result_set_run)
qed

end

interpretation statement_query: query_base "using_handle s h c0" s h L U for s h c0 L U
  by unfold_locales (simp add: using_handle_def)

text \<open>C8: \<open>Database#execute\<close> leaks no statement. However the query ends, by returning or by an
  exception of SQLite, of a callback, of a parameter that cannot be bound or of the block: the
  handle it prepared was used only while open, and has been finalized exactly once when
  \<open>execute\<close> is left. The object is closed then, unless an exception has left that \<open>sqlite3_finalize\<close>
  itself (an aggregate whose result cannot be converted throws one): this exception is then the
  outcome of \<open>execute\<close>. The block may do anything that keeps off this statement.\<close>

theorem execute_closes:
  assumes "statement_new L U db sql w = (Inr (s, remainder), v)" and "s_st (stmts v s) = Some h"
    and "\<forall>row. keepsP (using_handle s h (calls v)) (block row)"
    and "database_execute_each L U db sql vars block w = Some (r, u)" and "\<forall>z. r \<noteq> Inl (Undefined z)"
  shows "\<exists>cs. calls u = calls v @ cs \<and> handle_use h cs = Some False \<and>
    (s_st (stmts u s) = None \<or>
      (\<exists>t x. sqlite_run (callback_handler L U) (l_run L) (StmtCall (Some h) Finalize) t = (Inl x, u) \<and> r = Inl x))"
proof -
  let ?block = "\<lambda>s remainder. bindP (act (bind_params L U s [vars])) (\<lambda>_.
    bindP (act (build_result_set db s)) (\<lambda>rs. result_set_each L U rs block))"
  have run: "database_prepare L U db sql ?block w = Some (r, u)"
    using assms(4) by (simp add: database_execute_each_def)
  then obtain q t where q: "?block s remainder v = Some (q, t)"
    using assms(1) by (cases "?block s remainder v") (auto simp: database_prepare_def ensureP_def)
  have defined: "q \<noteq> Inl (Undefined z)" for z
    using run assms(1,5) q by (auto simp: database_prepare_def ensureP_def)
  have "using_handle s h (calls v) v" using assms(2) by (simp add: using_handle_def)
  from keepsPD [OF statement_query.keeps_query this q] assms(3)
  have t: "using_handle s h (calls v) t" by blast
  then obtain cs where cs: "s_st (stmts t s) = Some h" "calls t = calls v @ cs" "handle_use h cs = Some True"
    by (auto simp: using_handle_def)
  note ended = database_prepare_run [where block = ?block, OF assms(1) q defined cs(1)]
  show ?thesis
  proof (cases rule: close_cases [OF cs(1), of L U, case_names escaped closed])
    case (escaped x y)
    with run ended have "r = Inl x" "u = y" by simp_all
    with escaped cs show ?thesis by (intro exI [of _ "cs @ [StmtCall (Some h) Finalize]"]) auto
  next
    case (closed z y)
    with run ended have "u = upd_stmt s (\<lambda>x. x\<lparr>s_st := None\<rparr>) y" by simp
    with closed cs show ?thesis by (intro exI [of _ "cs @ [StmtCall (Some h) Finalize]"]) simp
  qed
qed

lemma sql_utf8_text [simp]: "sql_utf8 U (sql_text s) = Inr (RString False UTF_8 s False)"
  by (simp add: sql_utf8_def sql_text_def)

lemma binds_as_none [simp]: "binds_as U i (flatten [RArray []]) ops \<longleftrightarrow> ops = []"
  by simp

text \<open>The connection is open and live, and no exception is pending.\<close>

definition ready :: "nat \<Rightarrow> dbh \<Rightarrow> ('e, 'u) world \<Rightarrow> bool" where
  "ready db d w \<longleftrightarrow> d_db (dbs w db) = Some d \<and>
     d_flags (dbs w db) AND SQLITE3_RB_DATABASE_DISCARDED = 0 \<and> errinfo w = None"

section \<open>Concrete queries\<close>

text \<open>A library whose queries have one column: its state is the values left and the current one.\<close>

type_synonym column_env = "sqlite3_value list \<times> sqlite3_value"

definition column_lib :: "column_env sqlite_lib" where
  "column_lib =
     \<lparr>l_int = (\<lambda>c e. (case c of StmtCall z Column_count \<Rightarrow> 1 | _ \<Rightarrow> SQLITE_OK, e)), l_i64 = (\<lambda>c e. (0, e)),
      l_text = (\<lambda>c e. (None, e)), l_column = (\<lambda>c e. (snd e, e)),
      l_open = (\<lambda>c e. ((SQLITE_OK, Some 7), e)), l_file = (\<lambda>c e. ((SQLITE_OK, 3, True), e)),
      l_backup = (\<lambda>c e. (Some 5, e)), l_handle = (\<lambda>c e. (Some 7, e)),
      l_status = (\<lambda>c e. ((0, 0), e)),
      l_run = (\<lambda>c e. case c of
           StmtCall z Step \<Rightarrow> (case fst e of [] \<Rightarrow> Return SQLITE_DONE e | r # rs \<Rightarrow> Return SQLITE_ROW (rs, r))
         | _ \<Rightarrow> Return SQLITE_OK e),
      l_prepare = (\<lambda>c e. Return (SQLITE_OK, Some 9, []) e),
      l_exec = (\<lambda>c e. Return (SQLITE_OK, None) e),
      l_has_db_name = True, l_has_error_offset = True, l_has_dqs = True, l_long64 = True,
      l_little_endian = True\<rparr>"

definition int_column :: "int \<Rightarrow> sqlite3_value" where
  "int_column n = \<lparr>v_type = SQLITE_INTEGER, v_int64 = word_of_int n, v_double = 0, v_text = [], v_blob = []\<rparr>"

definition query_world :: "(column_env, unit) world" where
  "query_world =
     \<lparr>env = ([int_column 5, int_column 6], int_column 0), usr = (), pid = 1, errinfo = None, calls = [],
      dbs = (\<lambda>_. zero_sqlite3Ruby\<lparr>d_db := Some 7\<rparr>), ivars = ivars sample_world,
      stmts = (\<lambda>_. \<lparr>s_st = Some 9, s_db = Some 0, s_done_p = 1\<rparr>),
      sivars = (\<lambda>_. \<lparr>iv_connection = Some 0, iv_columns = None, iv_types = None\<rparr>),
      backups = backups sample_world, aws = aws sample_world, insts = insts sample_world,
      aggmem = aggmem sample_world, arys = arys sample_world, hashes = hashes sample_world,
      next_ref = 2\<rparr>"

lemma column_lib_laws:
  "yields_rows column_lib 9 (\<lambda>e. map (\<lambda>v. [v]) (fst e)) (\<lambda>e. [snd e])"
  "accepts_bindings column_lib 9 (\<lambda>e. map (\<lambda>v. [v]) (fst e))" "finalizes column_lib 9"
  by (simp_all add: yields_rows_def accepts_bindings_def binding_op_def finalizes_def column_lib_def
      split: list.split st_op.split)

lemma query_rows:
  "map (\<lambda>v. [v]) (fst (env query_world)) = [[int_column 5], [int_column 6]]"
  "list_all valid_row [[int_column 5], [int_column 6]]"
  "map (row_array sample_user) [[int_column 5], [int_column 6]] = [RArray [RInteger 5], RArray [RInteger 6]]"
  "binds_as sample_user 1 [RInteger 4] [Bind_int64 1 4]"
  by (simp_all add: query_world_def valid_row_def valid_type_def row_array_def column_value_def int_column_def
      LL2NUM_def hash_p_def int_fits_def bind_call_def fixnum_p_def FIX2LONG_def)

lemma query_world_fields:
  "d_db (dbs query_world 0) = Some 7" "d_flags (dbs query_world 0) AND SQLITE3_RB_DATABASE_DISCARDED = 0"
  "errinfo query_world = None" "next_ref query_world = 2" "\<not> RTEST (iv_results_as_hash (ivars query_world 0))"
  "l_prepare column_lib (prepare_call 7 q) (env query_world) = Return (SQLITE_OK, Some 9, []) (env query_world)"
  by (simp_all add: query_world_def zero_sqlite3Ruby_def sample_world_def RTEST_def column_lib_def)

lemma query_run_rows:
  "\<exists>w'. database_execute column_lib sample_user 0 (sql_text ''q'') (RArray []) query_world =
      Some (Inr [RArray [RInteger 5], RArray [RInteger 6]], w')"
proof -
  have none: "binds_as sample_user 1 (flatten [RArray []]) []" by simp
  have "loop_run column_lib sample_user (result_set_of 0 s query_world)
      (map (row_array sample_user) [[int_column 5], [int_column 6]]) (rows_calls 9 [[int_column 5], [int_column 6]]) v"
    if "at_start s 9 v" "map (\<lambda>v. [v]) (fst (env v)) = [[int_column 5], [int_column 6]]" for s v
    using array_loop [OF column_lib_laws(1) that(2) query_rows(2) that(1)] query_world_fields(5)
    by (simp add: result_set_of_def)
  from execute_run [OF query_world_fields(1-3) sql_utf8_text query_world_fields(6) column_lib_laws(2) none
      column_lib_laws(3) this] query_rows(1)
  show ?thesis unfolding query_rows(3) by auto
qed

theorem execute_rows_witness:
  "\<exists>w'. database_execute column_lib sample_user 0 (sql_text ''q'') (RArray [RInteger 4]) query_world =
      Some (Inr [RArray [RInteger 5], RArray [RInteger 6]], w') \<and> s_st (stmts w' 2) = None"
proof -
  have "binds_as sample_user 1 (flatten [RArray [RInteger 4]]) [Bind_int64 1 4]"
    using query_rows(4) by simp
  then show ?thesis
    using execute_rows [OF query_world_fields(1-3) sql_utf8_text query_world_fields(6) column_lib_laws(2) _
        column_lib_laws(1) query_rows(1,2) column_lib_laws(3) query_world_fields(5)]
      query_rows(3) query_world_fields(4) by metis
qed

theorem execute_bang_rows_witness:
  "\<exists>w'. statement_execute_bang column_lib sample_user 1 [RInteger 4] query_world =
      Some (Inr [RArray [RInteger 5], RArray [RInteger 6]], w') \<and> steps_made 9 (calls w') = 3"
proof -
  have use: "require_usable 1 query_world = (Inr (Some 9), query_world)"
    by (rule usable_open [of _ _ 0]) (simp_all add: query_world_def zero_sqlite3Ruby_def)
  have world: "errinfo query_world = None" "calls query_world = []"
    "iv_connection (sivars query_world 1) = Some 0" by (simp_all add: query_world_def)
  have reset: "l_run column_lib (StmtCall (Some 9) Reset) (env query_world) = Return SQLITE_OK (env query_world)"
    by (simp add: column_lib_def)
  have binds: "binds_as sample_user 1 (flatten [RInteger 4]) [Bind_int64 1 4]"
    using query_rows(4) by simp
  have one: "\<forall>e :: column_env. length [snd e] \<le> 32767 \<and> ([snd e] = [] \<longrightarrow> map (\<lambda>v. [v]) (fst e) = [])"
    by simp
  from execute_bang_rows [OF use world(1) reset column_lib_laws(2) binds column_lib_laws(1) query_rows(1,2) one world(3)]
  show ?thesis
    unfolding query_rows(3) by (auto simp: world(2) steps_made_def)
qed

theorem execute_closes_witness:
  "\<exists>u. database_execute_each column_lib sample_user 0 (sql_text ''q'') (RArray []) collect query_world =
      Some (Inr [RArray [RInteger 5], RArray [RInteger 6]], u) \<and> s_st (stmts u 2) = None"
proof -
  obtain u where run: "database_execute_each column_lib sample_user 0 (sql_text ''q'') (RArray []) collect query_world =
      Some (Inr [RArray [RInteger 5], RArray [RInteger 6]], u)"
    using query_run_rows by (auto simp: database_execute_def)
  have new: "statement_new column_lib sample_user 0 (sql_text ''q'') query_world =
      (Inr (2, rb_utf8_str_new_cstr []), new_statement 0 7 9 ''q'' (env query_world) query_world)"
    using statement_new_run [OF query_world_fields(1) sql_utf8_text query_world_fields(6)] query_world_fields(4) by simp
  have st: "s_st (stmts (new_statement 0 7 9 ''q'' (env query_world) query_world) 2) = Some 9"
    by (simp add: new_statement_def query_world_fields(4))
  have apart: "\<forall>row. keepsP (using_handle 2 9 (calls (new_statement 0 7 9 ''q'' (env query_world) query_world))) (collect row)"
    by (simp add: keepsP_act collect_def [abs_def])
  from execute_closes [OF new st apart run] show ?thesis
    using run by (auto simp: sqlite_run_def column_lib_def)
qed

end
