(* ===== verification/Statement_Runs.thy ===== *)
theory Statement_Runs
  imports Query_Laws
begin

unbundle bit_operations_syntax

text \<open>
  One statement from its preparation to its end, in the states that the library really goes through:
  nothing is said of the library in any other state, so that a statement may depend on those before it,
  get another handle when it is compiled again, or fail elsewhere. What a call gives is a hypothesis for
  the state in which it is made.
\<close>

section \<open>Binding\<close>

definition after_bind :: "'e sqlite_lib \<Rightarrow> sth \<Rightarrow> st_op \<Rightarrow> 'e \<Rightarrow> 'e" where
  "after_bind L h op e = snd (l_handle L (StmtCall (Some h) Db_handle) (snd (l_int L (StmtCall (Some h) op) e)))"

fun binds_to :: "'e sqlite_lib \<Rightarrow> sth \<Rightarrow> st_op list \<Rightarrow> 'e \<Rightarrow> 'e \<Rightarrow> bool" where
  "binds_to L h [] e e' \<longleftrightarrow> e' = e"
| "binds_to L h (op # ops) e e' \<longleftrightarrow>
     fst (l_int L (StmtCall (Some h) op) e) = SQLITE_OK \<and> binds_to L h ops (after_bind L h op e) e'"

lemma bind_to:
  assumes "require_usable s w = (Inr (Some h), w)" and "int_fits 32 i" and "i \<noteq> 0"
    and "bind_call U (word_of_int i) v = Inr op" and "fst (l_int L (StmtCall (Some h) op) (env w)) = SQLITE_OK"
  shows "bind_param L U s (RInteger i) v w = (Inr s, w\<lparr>env := after_bind L h op (env w),
    calls := calls w @ [StmtCall (Some h) op, StmtCall (Some h) Db_handle]\<rparr>)"
proof -
  have "word_of_int i \<noteq> (0 :: cint)"
    using sint_word_of_int [where 'a = 32, of i] assms(2,3) by auto
  with assms show ?thesis
    by (simp add: bind_param_def parameter_index_def Let_def int_in_range_def sqlite_call_returns
        rb_sqlite3_raise_def status2klass_def after_bind_def)
qed

lemma bind_vars_to:
  assumes "require_usable s w = (Inr (Some h), w)" and "binds_as U i vs ops" and "binds_to L h ops (env w) e"
  shows "bind_vars L U s i vs w = (Inr (), w\<lparr>env := e, calls := calls w @ binding_calls h ops\<rparr>)"
  using assms
proof (induction vs arbitrary: i ops w)
  case Nil
  then show ?case by (simp add: binding_calls_def)
next
  case (Cons v vs)
  then obtain op ops' where ops: "ops = op # ops'" "bind_call U (word_of_int i) v = Inr op" "binds_as U (i + 1) vs ops'"
    by (auto split: list.splits)
  let ?w = "w\<lparr>env := after_bind L h op (env w), calls := calls w @ [StmtCall (Some h) op, StmtCall (Some h) Db_handle]\<rparr>"
  have bound: "bind_param L U s (RInteger i) v w = (Inr s, ?w)"
    using bind_to [OF Cons.prems(1) _ _ ops(2)] Cons.prems(2,3) ops(1) by simp
  have "require_usable s ?w = (Inr (Some h), ?w)"
    by (rule require_usable_cong [OF _ _ _ Cons.prems(1)]) simp_all
  from Cons.IH [OF this ops(3)] Cons.prems(3) ops(1)
  have "bind_vars L U s (i + 1) vs ?w = (Inr (), ?w\<lparr>env := e, calls := calls ?w @ binding_calls h ops'\<rparr>)" by simp
  moreover have "\<not> hash_p v" using Cons.prems(2) by simp
  ultimately show ?case
    using bound by (cases v) (simp_all add: ops(1) binding_calls_def hash_p_def)
qed

section \<open>Stepping\<close>

fun reads_row :: "'e sqlite_lib \<Rightarrow> sth \<Rightarrow> nat \<Rightarrow> sqlite3_value list \<Rightarrow> 'e \<Rightarrow> 'e \<Rightarrow> bool" where
  "reads_row L h i [] e e' \<longleftrightarrow> e' = e"
| "reads_row L h i (v # vs) e e' \<longleftrightarrow>
     (\<exists>e1. l_column L (StmtCall (Some h) (Column i)) e = (v, e1) \<and> reads_row L h (Suc i) vs e1 e')"

text \<open>A step that finds a row, whose columns are read, or the end.\<close>

definition steps_to :: "'e sqlite_lib \<Rightarrow> sth \<Rightarrow> sqlite3_value list option \<Rightarrow> 'e \<Rightarrow> 'e \<Rightarrow> bool" where
  "steps_to L h row e e' \<longleftrightarrow>
     (case row of
        None \<Rightarrow> \<exists>e1. l_run L (StmtCall (Some h) Step) e = Return SQLITE_DONE e1 \<and>
          e' = snd (l_int L (StmtCall (Some h) Column_count) e1)
      | Some r \<Rightarrow> valid_row r \<and> (\<exists>e1 e2. l_run L (StmtCall (Some h) Step) e = Return SQLITE_ROW e1 \<and>
          l_int L (StmtCall (Some h) Column_count) e1 = (word_of_nat (length r), e2) \<and> reads_row L h 0 r e2 e'))"

abbreviation row_values :: "sqlite3_value list option \<Rightarrow> sqlite3_value list" where
  "row_values row \<equiv> (case row of None \<Rightarrow> [] | Some r \<Rightarrow> r)"

lemma reads_run:
  assumes "reads_row L h i r (env w) e" and "list_all (\<lambda>v. valid_type (v_type v)) r"
  shows "mapM (\<lambda>i. bindM (sqlite_call (l_column L) (StmtCall (Some h) (Column i)))
        (\<lambda>v. liftE (column_value U v))) [i..<i + length r] w =
    (Inr (map (\<lambda>v. projr (column_value U v)) r),
     w\<lparr>env := e, calls := calls w @ map (\<lambda>i. StmtCall (Some h) (Column i)) [i..<i + length r]\<rparr>)"
  using assms
proof (induction r arbitrary: i w)
  case Nil
  then show ?case by simp
next
  case (Cons v vs)
  then obtain e1 where e1: "l_column L (StmtCall (Some h) (Column i)) (env w) = (v, e1)" "reads_row L h (Suc i) vs e1 e"
    by auto
  have "column_value U v = Inr (projr (column_value U v))"
    using Cons.prems(2) by (intro column_value_valid) simp
  moreover have "[i..<i + length (v # vs)] = i # [Suc i..<Suc i + length vs]" by (simp add: upt_rec)
  ultimately show ?case
    using e1 Cons.prems(2) Cons.IH [of "Suc i" "w\<lparr>env := e1, calls := calls w @ [StmtCall (Some h) (Column i)]\<rparr>"]
    by (simp add: sqlite_call_returns)
qed

lemma step_to:
  assumes "at_start s h w" and "steps_to L h row (env w) e"
  shows "step L U s w = (Inr (case row of None \<Rightarrow> RNil | Some r \<Rightarrow> row_array U r),
    upd_stmt s (\<lambda>x. if row = None then x\<lparr>s_done_p := 1\<rparr> else x)
      (w\<lparr>env := e, calls := calls w @ step_calls h (row_values row)\<rparr>))"
proof -
  have use: "require_usable s w = (Inr (Some h), w)" "s_done_p (stmts w s) = 0" and none: "errinfo w = None"
    using assms(1) by (simp_all add: at_start_def)
  show ?thesis
  proof (cases row)
    case None
    with assms(2) obtain e1 where "l_run L (StmtCall (Some h) Step) (env w) = Return SQLITE_DONE e1"
      "e = snd (l_int L (StmtCall (Some h) Column_count) e1)"
      by (auto simp: steps_to_def)
    with none None show ?thesis
      by (simp add: step_run [OF use] sqlite_run_def reraise_run sqlite_call_returns step_calls_def)
  next
    case (Some r)
    with assms(2) obtain e1 e2 where r: "valid_row r" "l_run L (StmtCall (Some h) Step) (env w) = Return SQLITE_ROW e1"
      "l_int L (StmtCall (Some h) Column_count) e1 = (word_of_nat (length r), e2)" "reads_row L h 0 r e2 e"
      by (auto simp: steps_to_def)
    moreover have "upd_stmt s (\<lambda>x. x) v = v" for v :: "('a, 'b) world" by (simp add: upd_stmt_def)
    moreover have "list_all (\<lambda>v. valid_type (v_type v)) r" "length r \<le> 32767" using r(1) by (simp_all add: valid_row_def)
    ultimately show ?thesis
      using none Some reads_run [of L h 0 r "w\<lparr>env := e2, calls := calls w @
          [StmtCall (Some h) Step, StmtCall (Some h) Column_count]\<rparr>" e U]
      by (simp add: step_run [OF use] sqlite_run_def reraise_run sqlite_call_returns row_length row_array_def
          step_calls_def)
  qed
qed

section \<open>Closing\<close>

lemma close_to:
  assumes "l_run L (StmtCall (Some h) Finalize) (env w) = Return z e" and "s_st (stmts w s) = Some h"
  shows "statement_close L U s w = (Inr s, upd_stmt s (\<lambda>x. x\<lparr>s_st := None\<rparr>)
    (w\<lparr>calls := calls w @ [StmtCall (Some h) Finalize], env := e\<rparr>))"
  using assms by (simp add: statement_close_def open_stmt.guarded_open sqlite_run_def)

section \<open>A command\<close>

text \<open>A command is prepared, steps to its end without a row and is finalized.\<close>

definition runs_command :: "'e sqlite_lib \<Rightarrow> dbh \<Rightarrow> sth \<Rightarrow> string \<Rightarrow> 'e \<Rightarrow> 'e \<Rightarrow> bool" where
  "runs_command L d h q e e' \<longleftrightarrow>
     (\<exists>tail e0 e1 z. l_prepare L (prepare_call d q) e = Return (SQLITE_OK, Some h, tail) e0 \<and>
        steps_to L h None e0 e1 \<and> l_run L (StmtCall (Some h) Finalize) e1 = Return z e')"

definition command_calls :: "dbh \<Rightarrow> sth \<Rightarrow> string \<Rightarrow> sql_call list" where
  "command_calls d h q = [prepare_call d q, StmtCall (Some h) Step, StmtCall (Some h) Column_count,
     StmtCall (Some h) Finalize]"

lemma each_to_end:
  assumes "at_start (rs_stmt rs) h w" and "steps_to L h None (env w) e"
  shows "result_set_each L U rs collect w = Some (Inr [],
    upd_stmt (rs_stmt rs) (\<lambda>x. x\<lparr>s_done_p := 1\<rparr>) (w\<lparr>env := e, calls := calls w @ step_calls h []\<rparr>))"
proof -
  from step_to [OF assms, of U]
  have "result_set_next L U rs w = (Inr RNil,
      upd_stmt (rs_stmt rs) (\<lambda>x. x\<lparr>s_done_p := 1\<rparr>) (w\<lparr>env := e, calls := calls w @ step_calls h []\<rparr>))"
    by (cases rs) (simp_all add: result_set_next_def next_hash_def done_p_def rb_bool_def RTEST_def)
  from while_node_run [where nxt = "result_set_next L U rs", OF this] show ?thesis
    by (simp add: result_set_each_def each_row_end)
qed

lemma command_run:
  assumes "runs_command L d h q (env w) e" and "ready db d w"
  shows "\<exists>u. database_execute L U db (sql_text q) (RArray []) w = Some (Inr [], u) \<and>
    calls u = calls w @ command_calls d h q \<and> ready db d u \<and> env u = e"
proof -
  obtain tail e0 e1 z where prep: "l_prepare L (prepare_call d q) (env w) = Return (SQLITE_OK, Some h, tail) e0"
    and stp: "steps_to L h None e0 e1" and fin: "l_run L (StmtCall (Some h) Finalize) e1 = Return z e"
    using assms(1) unfolding runs_command_def by blast
  let ?s = "next_ref w" and ?w = "new_statement db d h q e0 w"
  have world: "d_db (dbs w db) = Some d" "d_flags (dbs w db) AND SQLITE3_RB_DATABASE_DISCARDED = 0" "errinfo w = None"
    using assms(2) by (simp_all add: ready_def)
  have new: "statement_new L U db (sql_text q) w = (Inr (?s, rb_utf8_str_new_cstr tail), ?w)"
    by (rule statement_new_run [OF world(1) sql_utf8_text prep])
  have "require_usable ?s ?w = (Inr (Some h), ?w)"
    using world(2) by (intro usable_open [of _ _ db]) (simp_all add: new_statement_def)
  then have start: "at_start (rs_stmt (result_set_of db ?s ?w)) h ?w"
    using world(3) by (simp add: at_start_def new_statement_def)
  let ?u = "upd_stmt ?s (\<lambda>x. x\<lparr>s_done_p := 1\<rparr>) (?w\<lparr>env := e1, calls := calls ?w @ step_calls h []\<rparr>)"
  let ?block = "\<lambda>s remainder. bindP (act (bind_params L U s [RArray []])) (\<lambda>_.
    bindP (act (build_result_set db s)) (\<lambda>rs. result_set_each L U rs collect))"
  have "env ?w = e0" by (simp add: new_statement_def)
  then have block: "?block ?s (rb_utf8_str_new_cstr tail) ?w = Some (Inr [], ?u)"
    using each_to_end [OF start, of L e1 U] stp by (simp add: bind_params_def build_result_set_run)
  have st: "s_st (stmts ?u ?s) = Some h" by (simp add: new_statement_def)
  have close: "statement_close L U ?s ?u = (Inr ?s, upd_stmt ?s (\<lambda>x. x\<lparr>s_st := None\<rparr>)
      (?u\<lparr>calls := calls ?u @ [StmtCall (Some h) Finalize], env := e\<rparr>))"
    using fin by (intro close_to [where z = z] st) simp
  from database_prepare_run [where block = ?block, OF new block _ st] close
  have "database_execute L U db (sql_text q) (RArray []) w = Some (Inr [], upd_stmt ?s (\<lambda>x. x\<lparr>s_st := None\<rparr>)
      (?u\<lparr>calls := calls ?u @ [StmtCall (Some h) Finalize], env := e\<rparr>))"
    by (simp add: database_execute_def database_execute_each_def)
  then show ?thesis
    using world by (simp add: new_statement_def ready_def command_calls_def step_calls_def)
qed

section \<open>A library with a state\<close>

text \<open>A library whose state tells whether a transaction is active; it has a handle for each of the commands.\<close>

definition transaction_lib :: "bool sqlite_lib" where
  "transaction_lib =
     \<lparr>l_int = (\<lambda>c e. (0, e)), l_i64 = (\<lambda>c e. (0, e)), l_text = (\<lambda>c e. (Some ''no transaction is active'', e)),
      l_column = (\<lambda>c e. (value_of SQLITE_NULL, e)),
      l_open = (\<lambda>c e. ((SQLITE_OK, Some 7), e)), l_file = (\<lambda>c e. ((SQLITE_OK, 3, True), e)),
      l_backup = (\<lambda>c e. (Some 5, e)), l_handle = (\<lambda>c e. (Some 7, e)), l_status = (\<lambda>c e. ((0, 0), e)),
      l_run = (\<lambda>c e. case c of
           StmtCall (Some g) Step \<Rightarrow>
             if g = 11 \<and> \<not> e then Return SQLITE_DONE True
             else if g \<noteq> 11 \<and> e then Return SQLITE_DONE False
             else Return SQLITE_ERROR e
         | _ \<Rightarrow> Return SQLITE_OK e),
      l_prepare = (\<lambda>c e. Return (case c of
           DbCall d (Prepare_v2 q n) \<Rightarrow> (SQLITE_OK, Some (if take 5 q = ''begin'' then 11 else 12), [])
         | _ \<Rightarrow> (SQLITE_OK, None, [])) e),
      l_exec = (\<lambda>c e. Return (SQLITE_OK, None) e),
      l_has_db_name = True, l_has_error_offset = True, l_has_dqs = True, l_long64 = True,
      l_little_endian = True\<rparr>"

definition transaction_world :: "(bool, unit) world" where
  "transaction_world =
     \<lparr>env = False, usr = (), pid = 1, errinfo = None, calls = [],
      dbs = (\<lambda>_. zero_sqlite3Ruby\<lparr>d_db := Some 7\<rparr>), ivars = ivars sample_world,
      stmts = stmts sample_world, sivars = sivars sample_world, backups = backups sample_world, aws = aws sample_world,
      insts = insts sample_world, aggmem = aggmem sample_world, arys = arys sample_world, hashes = hashes sample_world,
      next_ref = 0\<rparr>"

end
