(* ===== verification/Batch.thy ===== *)
theory Batch
  imports Statement_Runs
begin

unbundle bit_operations_syntax

text \<open>
  \<open>Database#execute_batch\<close> (\<open>lib/sqlite3/database.rb\<close>): the loop that prepares and steps one
  statement of the text after the other, going on with the \<open>remainder\<close> that SQLite left. It ends on
  every text, because SQLite compiles at least a part of what it is given.
\<close>

section \<open>Stripping text\<close>

text \<open>
  \<open>String#strip\<close> drops null characters and white space at both ends, character by character: two
  bytes each in UTF-16. It raises for a text that is not valid in its encoding.
\<close>

definition white :: "char \<Rightarrow> bool" where
  "white c \<longleftrightarrow> of_char c \<in> ({0, 9, 10, 11, 12, 13, 32} :: nat set)"

fun units :: "string \<Rightarrow> string list" where
  "units (a # b # s) = [a, b] # units s"
| "units [a] = [[a]]"
| "units [] = []"

definition trim :: "('a \<Rightarrow> bool) \<Rightarrow> 'a list \<Rightarrow> 'a list" where
  "trim p xs = rev (dropWhile p (rev (dropWhile p xs)))"

definition rb_str_strip :: "rb_encoding \<Rightarrow> string \<Rightarrow> string" where
  "rb_str_strip enc s =
     (case enc of
        UTF_16LE \<Rightarrow> concat (trim (\<lambda>u. length u = 2 \<and> white (u ! 0) \<and> u ! 1 = nul) (units s))
      | UTF_16BE \<Rightarrow> concat (trim (\<lambda>u. length u = 2 \<and> u ! 0 = nul \<and> white (u ! 1)) (units s))
      | _ \<Rightarrow> trim white s)"

definition strip :: "'u rb_user \<Rightarrow> rb_value \<Rightarrow> abort + rb_value" where
  "strip U v =
     (case v of
        RString b enc s f \<Rightarrow>
          if u_valid_encoding U enc s then Inr (RString False enc (rb_str_strip enc s) False)
          else Inl (Raised (rb_error ArgumentError ''invalid byte sequence''))
      | _ \<Rightarrow> Inl (Raised (rb_error NoMethodError ''undefined method 'strip' '')))"

definition empty_p :: "rb_value \<Rightarrow> bool" where
  "empty_p v \<longleftrightarrow> (case v of RString b enc s f \<Rightarrow> s = [] | _ \<Rightarrow> False)"

section \<open>The loop\<close>

text \<open>\<open>bind_vars.length\<close>, of an array or a hash. (A string as \<open>bind_vars\<close> is not modelled.)\<close>

definition arguments_length :: "rb_value \<Rightarrow> abort + rb_value" where
  "arguments_length vars =
     (case vars of
        RArray vs \<Rightarrow> Inr (RInteger (int (length vs)))
      | RHash kvs \<Rightarrow> Inr (RInteger (int (length kvs)))
      | _ \<Rightarrow> Inl (Raised (rb_error NoMethodError ''undefined method 'length' '')))"

text \<open>The block of \<open>prepare\<close>: the new \<open>result\<close> and the text that is left.\<close>

definition batch_statement ::
  "'e sqlite_lib \<Rightarrow> 'u rb_user \<Rightarrow> rb_value \<Rightarrow> rb_value \<Rightarrow> nat \<Rightarrow> rb_value \<Rightarrow> ('e, 'u, rb_value \<times> rb_value) rb" where
  "batch_statement L U vars result stmt remainder =
     bindM (statement_closed_p stmt) (\<lambda>closed.
     bindM (if RTEST closed then ret result
            else
              bindM (liftE (arguments_length vars)) (\<lambda>len.
              bindM (bind_parameter_count L stmt) (\<lambda>count.
              bindM (if len = count then bind_params L U stmt [vars] else ret ()) (\<lambda>_.
              step L U stmt)))) (\<lambda>result'.
     bindM (liftE (strip U remainder)) (\<lambda>sql'.
     ret (result', sql'))))"

partial_function (option) batch_loop ::
  "'e sqlite_lib \<Rightarrow> 'u rb_user \<Rightarrow> nat \<Rightarrow> rb_value \<Rightarrow> rb_value \<Rightarrow> rb_value \<Rightarrow> ('e, 'u) world \<Rightarrow>
     ((abort + rb_value) \<times> ('e, 'u) world) option" where
  "batch_loop L U db vars result sql w =
     (if empty_p sql then Some (Inr result, w)
      else
        Option.bind (database_prepare L U db sql
            (\<lambda>stmt remainder. act (batch_statement L U vars result stmt remainder)) w) (\<lambda>(r, v).
        case r of
          Inl x \<Rightarrow> Some (Inl x, v)
        | Inr (result', sql') \<Rightarrow> batch_loop L U db vars result' sql' v))"

definition database_execute_batch ::
  "'e sqlite_lib \<Rightarrow> 'u rb_user \<Rightarrow> nat \<Rightarrow> rb_value \<Rightarrow> rb_value \<Rightarrow> ('e, 'u, rb_value) prog" where
  "database_execute_batch L U db sql vars =
     bindP (act (liftE (strip U sql))) (\<lambda>sql. batch_loop L U db vars RNil sql)"

section \<open>The text that is left\<close>

primrec answers_in :: "('r \<Rightarrow> bool) \<Rightarrow> ('e, 'r) run \<Rightarrow> bool" where
  "answers_in P (Return r e) \<longleftrightarrow> P r"
| "answers_in P (Callback e q k) \<longleftrightarrow> (\<forall>p. answers_in P (k p))"

lemma run_answers:
  assumes "answers_in P t" and "exec_run H t w = (Inr r, v)"
  shows "P r"
  using assms
proof (induction t arbitrary: w)
  case (Callback e q k)
  then show ?case by (auto simp: bindM_returns_iff)
qed simp

lemma sqlite_run_answers:
  assumes "\<And>e. answers_in P (f c e)" and "sqlite_run H f c w = (Inr r, v)"
  shows "P r"
  using assms(2) run_answers [OF assms(1)] by (auto simp: sqlite_run_def bindM_returns_iff)

text \<open>
  What SQLite documents of \<open>sqlite3_prepare_v2\<close>: on success the tail points past the end of the first
  statement of the text, so that a part of the text has been consumed, and on an error there is no
  statement.
\<close>

definition consumes_statements :: "'e sqlite_lib \<Rightarrow> bool" where
  "consumes_statements L \<longleftrightarrow>
     (\<forall>h q n e. answers_in (\<lambda>(status, st, tail).
        (status AND 0xff = 0 \<longrightarrow> (\<exists>k. tail = drop k (cstr q) \<and> (0 < k \<or> q = []))) \<and>
        (status AND 0xff \<noteq> 0 \<longrightarrow> st = None))
        (l_prepare L (DbCall h (Prepare_v2 q n)) e))"

lemma consumes_run:
  assumes "consumes_statements L"
    and "sqlite_run H (l_prepare L) (DbCall h (Prepare_v2 q n)) w = (Inr (status, st, tail), v)"
  shows "(status AND 0xff = 0 \<longrightarrow> (\<exists>k. tail = drop k (cstr q) \<and> (0 < k \<or> q = []))) \<and>
    (status AND 0xff \<noteq> 0 \<longrightarrow> st = None)"
proof -
  have "answers_in (\<lambda>(status, st, tail).
        (status AND 0xff = 0 \<longrightarrow> (\<exists>k. tail = drop k (cstr q) \<and> (0 < k \<or> q = []))) \<and>
        (status AND 0xff \<noteq> 0 \<longrightarrow> st = None)) (l_prepare L (DbCall h (Prepare_v2 q n)) e)" for e
    using assms(1) unfolding consumes_statements_def by blast
  from sqlite_run_answers [OF this assms(2)] show ?thesis by (simp only: prod.case)
qed

lemma trim_length: "length (trim p xs) \<le> length xs"
  unfolding trim_def by (metis length_dropWhile_le length_rev order_trans)

lemma cstr_length: "length (cstr s) \<le> length s"
  unfolding cstr_def by (rule length_takeWhile_le)

lemma consumed_length:
  "0 < k \<or> q = [] \<Longrightarrow> length (cstr (drop k (cstr q))) \<le> length q - 1"
  using cstr_length [of q] cstr_length [of "drop k (cstr q)"] by auto

lemma strip_tail:
  assumes "strip U (rb_utf8_str_new_cstr t) = Inr v"
  shows "\<exists>s. v = RString False UTF_8 s False \<and> length s \<le> length (cstr t)"
  using assms trim_length [of white "cstr t"]
  by (auto simp: strip_def rb_utf8_str_new_cstr_def rb_utf8_str_new_def rb_str_strip_def split: if_splits)

section \<open>One statement of a batch\<close>

definition open_within :: "('e, 'u) world \<Rightarrow> ('e, 'u) world \<Rightarrow> bool" where
  "open_within w v \<longleftrightarrow> (\<forall>s. s_st (stmts v s) \<noteq> None \<longrightarrow> s_st (stmts w s) \<noteq> None)"

lemma open_within_refl: "open_within w w"
  by (simp add: open_within_def)

lemma open_within_trans: "open_within w u \<Longrightarrow> open_within u v \<Longrightarrow> open_within w v"
  by (simp add: open_within_def)

text \<open>Besides one new statement nothing is open that was not open before.\<close>

definition opened :: "nat \<Rightarrow> sth option \<Rightarrow> ('e, 'u) world \<Rightarrow> ('e, 'u) world \<Rightarrow> bool" where
  "opened s h w v \<longleftrightarrow> s_st (stmts v s) = h \<and> (\<forall>t. t \<noteq> s \<longrightarrow> s_st (stmts v t) \<noteq> None \<longrightarrow> s_st (stmts w t) \<noteq> None)"

lemma opened_None: "opened s None w v \<Longrightarrow> open_within w v"
  unfolding opened_def open_within_def by metis

interpretation opened: callback_frame "opened s h w" for s h w
  by unfold_locales (simp_all add: opened_def upd_defs)

interpretation opened_statement: statement_base "opened s (Some h) w" s h L U for s h w L U
proof unfold_locales
  show "keeps (opened s (Some h) w) (sqlite_run (callback_handler L U) (l_run L) (StmtCall (Some h) op))" for op
    by (rule opened.sqlite_run_keeps) (simp_all add: opened_def)
qed (simp_all add: opened_def)

lemma batch_statement_keeps: "keeps (opened s (Some h) w) (batch_statement L U vars result s remainder)"
  unfolding batch_statement_def statement_closed_p_def
  by (intro keeps_bindM keeps_ret keeps_if keeps_liftE keeps_getM opened_statement.keeps_step
      opened_statement.keeps_bind_params opened_statement.keeps_bind_parameter_count)

text \<open>What \<open>prepare\<close> does with the answer of the library.\<close>

lemma answer_opens:
  assumes "bindM (rb_sqlite3_raise_with_sql L d status (Some q)) (\<lambda>_.
       bindM (modM (upd_db db (\<lambda>d. d\<lparr>d_stmt_deadline := timespecclear\<rparr>))) (\<lambda>_.
       ret (rb_utf8_str_new_cstr tail))) t = (r, v)"
    and "opened s st w t" and "status AND 0xff \<noteq> 0 \<longrightarrow> st = None"
  shows "if status AND 0xff = 0 then r = Inr (rb_utf8_str_new_cstr tail) \<and> opened s st w v
    else (\<exists>x. r = Inl x) \<and> opened s None w v"
proof (cases "status AND 0xff = 0")
  case True
  then have "rb_sqlite3_raise_with_sql L d status (Some q) t = (Inr (), t)"
    by (simp add: rb_sqlite3_raise_with_sql_returns_iff)
  with assms(1) have "r = Inr (rb_utf8_str_new_cstr tail)" "v = upd_db db (\<lambda>d. d\<lparr>d_stmt_deadline := timespecclear\<rparr>) t"
    by simp_all
  with True opened.deadline [OF assms(2)] show ?thesis by simp
next
  case False
  obtain p u where raise: "rb_sqlite3_raise_with_sql L d status (Some q) t = (p, u)" by force
  then obtain x where x: "p = Inl x"
    using False rb_sqlite3_raise_with_sql_returns_iff [of L d status "Some q" t] by (cases p) auto
  have "keeps (opened s st w) (rb_sqlite3_raise_with_sql L d status (Some q))"
    by (intro keeps_rb_sqlite3_raise_with_sql) (simp_all add: allows_def opened_def)
  from keepsE [OF this assms(2) raise] have "opened s None w u" using assms(3) False by simp
  moreover from assms(1) raise x have "r = Inl x" "v = u" by simp_all
  ultimately show ?thesis using False by simp
qed

lemma prepare_opens:
  assumes "consumes_statements L" and "prepare L U s db sql w = (r, v)" and "s_st (stmts w s) = None"
  shows "case r of
      Inl x \<Rightarrow> opened s None w v
    | Inr remainder \<Rightarrow> \<exists>q t h. StringValue sql = Inr q \<and> remainder = rb_utf8_str_new_cstr t \<and>
        length (cstr t) \<le> length q - 1 \<and> opened s h w v"
proof (cases "StringValue sql")
  case (Inl x)
  with assms show ?thesis by (auto simp: prepare_def opened_def)
next
  case (Inr q)
  let ?u = "upd_stmt s (\<lambda>s. s\<lparr>s_db := Some db\<rparr>) w" and ?c = "DbCall (d_db (dbs w db)) (Prepare_v2 q (word_of_nat (length q)))"
  obtain r1 t where run: "sqlite_run (callback_handler L U) (l_prepare L) ?c ?u = (r1, t)" by force
  have t: "opened s None w t"
    using structs_same_run [OF run] assms(3) by (simp add: structs_same_def opened_def)
  show ?thesis
  proof (cases r1)
    case (Inl x)
    with assms(2) Inr run t show ?thesis by (auto simp: prepare_def)
  next
    case (Inr a)
    obtain status st tail where a: "a = (status, st, tail)" by (cases a) auto
    from consumes_run [OF assms(1) run [unfolded Inr a]]
    have answer: "status AND 0xff = 0 \<longrightarrow> (\<exists>k. tail = drop k (cstr q) \<and> (0 < k \<or> q = []))"
      "status AND 0xff \<noteq> 0 \<longrightarrow> st = None" by blast+
    have "opened s st w (upd_stmt s (\<lambda>s. s\<lparr>s_st := st\<rparr>) t)" using t by (simp add: opened_def)
    moreover have "bindM (rb_sqlite3_raise_with_sql L (d_db (dbs w db)) status (Some q)) (\<lambda>_.
       bindM (modM (upd_db db (\<lambda>d. d\<lparr>d_stmt_deadline := timespecclear\<rparr>))) (\<lambda>_.
       ret (rb_utf8_str_new_cstr tail))) (upd_stmt s (\<lambda>s. s\<lparr>s_st := st\<rparr>) t) = (r, v)"
      using assms(2) \<open>StringValue sql = Inr q\<close> run Inr a by (simp add: prepare_def)
    ultimately have "if status AND 0xff = 0 then r = Inr (rb_utf8_str_new_cstr tail) \<and> opened s st w v
        else (\<exists>x. r = Inl x) \<and> opened s None w v"
      using answer(2) by (intro answer_opens)
    moreover have "length (cstr tail) \<le> length q - 1" if "status AND 0xff = 0"
      using answer(1) that consumed_length [of _ q] by auto
    ultimately show ?thesis using \<open>StringValue sql = Inr q\<close> by (auto split: if_splits)
  qed
qed

lemma statement_new_opens:
  assumes "consumes_statements L" and "statement_new L U db sql w = (r, v)"
  shows "case r of
      Inl x \<Rightarrow> open_within w v
    | Inr (s, remainder) \<Rightarrow> \<exists>sql' q t h. sql_utf8 U sql = Inr sql' \<and> StringValue sql' = Inr q \<and>
        remainder = rb_utf8_str_new_cstr t \<and> length (cstr t) \<le> length q - 1 \<and> opened s h w v"
proof -
  let ?s = "next_ref w"
  let ?z = "upd_stmt ?s (\<lambda>_. zero_sqlite3StmtRuby) (w\<lparr>next_ref := Suc ?s\<rparr>)"
  let ?w = "upd_sivars ?s (\<lambda>_. \<lparr>iv_connection = Some db, iv_columns = None, iv_types = None\<rparr>) ?z"
  have none: "s_st (stmts ?w ?s) = None" by (simp add: zero_sqlite3StmtRuby_def)
  have w: "opened ?s h ?w u \<Longrightarrow> opened ?s h w u" for h u by (simp add: opened_def)
  have "open_within w ?z" using none by (auto simp: open_within_def)
  moreover have "statement_new L U db sql w =
      (if d_db (dbs w db) = None then (Inl (Raised (rb_error ArgumentError ''prepare called on a closed database'')), ?z)
       else case sql_utf8 U sql of Inl x \<Rightarrow> (Inl x, ?z)
         | Inr sql' \<Rightarrow> bindM (prepare L U ?s db sql') (\<lambda>remainder. ret (?s, remainder)) ?w)"
    by (simp add: statement_new_def statement_allocate_def fresh_ref_def bindM_def [of fresh_ref]
      database_closed_p_def rb_bool_def RTEST_def init_statement_def split: sum.split)
  moreover have ?thesis
    if sql: "sql_utf8 U sql = Inr sql'" and run: "bindM (prepare L U ?s db sql') (\<lambda>remainder. ret (?s, remainder)) ?w = (r, v)" for sql'
  proof -
    obtain p u where p: "prepare L U ?s db sql' ?w = (p, u)" by force
    note opens = prepare_opens [OF assms(1) p none]
    show ?thesis
    proof (cases p)
      case (Inl x)
      with opens have "opened ?s None w u" by (simp add: w)
      with run p Inl show ?thesis using opened_None by auto
    next
      case (Inr remainder)
      with opens obtain q t h where "StringValue sql' = Inr q" "remainder = rb_utf8_str_new_cstr t"
        "length (cstr t) \<le> length q - 1" "opened ?s h w u"
        by (auto dest: w)
      moreover have "r = Inr (?s, remainder)" "v = u" using run p Inr by simp_all
      ultimately show ?thesis using sql by (simp only: sum.case prod.case) blast
    qed
  qed
  ultimately show ?thesis using assms(2) by (auto split: if_splits sum.splits)
qed

text \<open>
  What is open when a statement was closed: nothing new, unless an exception has left its
  \<open>sqlite3_finalize\<close>, which is then the outcome; of such a statement the object keeps the handle.
\<close>

definition left_by :: "'e sqlite_lib \<Rightarrow> 'u rb_user \<Rightarrow> ('e, 'u) world \<Rightarrow> abort + 'a \<Rightarrow> ('e, 'u) world \<Rightarrow> bool" where
  "left_by L U w r v \<longleftrightarrow>
     open_within w v \<or>
     (\<exists>s h t x. sqlite_run (callback_handler L U) (l_run L) (StmtCall (Some h) Finalize) t = (Inl x, v) \<and> r = Inl x \<and>
        opened s (Some h) w v)"

lemma left_by_within: "open_within w v \<Longrightarrow> left_by L U w r v"
  by (simp add: left_by_def)

lemma left_by_trans:
  assumes "open_within w u" and "left_by L U u r v"
  shows "left_by L U w r v"
proof -
  have "opened s (Some h) u v \<Longrightarrow> opened s (Some h) w v" for s h
    using assms(1) unfolding opened_def open_within_def by metis
  with assms show ?thesis unfolding left_by_def by (metis open_within_trans)
qed

lemma closing_opened:
  assumes "opened s h w x" and "close_unless_closed L U s x = (r, v)"
  shows "left_by L U w r v"
proof (cases h)
  case None
  with assms have "v = x" by (simp add: close_unless_closed_def statement_closed_p_def opened_def rb_bool_def RTEST_def)
  with assms(1) None show ?thesis by (auto intro: left_by_within opened_None)
next
  case (Some h')
  then have st: "s_st (stmts x s) = Some h'" using assms(1) by (simp add: opened_def)
  have close: "close_unless_closed L U s x = bindM (statement_close L U s) (\<lambda>_. ret ()) x"
    using st by (simp add: close_unless_closed_def statement_closed_p_def rb_bool_def RTEST_def)
  show ?thesis
  proof (cases rule: close_cases [OF st, of L U, case_names escaped closed])
    case (escaped y u)
    then have "r = Inl y" "v = u" using assms(2) close by simp_all
    moreover have "opened s (Some h') w u" using assms(1) Some escaped(3) by (simp add: opened_def)
    ultimately show ?thesis using escaped(1) unfolding left_by_def by blast
  next
    case (closed z u)
    then have "v = upd_stmt s (\<lambda>c. c\<lparr>s_st := None\<rparr>) u" using assms(2) close by simp
    with assms(1) closed(3) have "opened s None w v" by (simp add: opened_def)
    then show ?thesis by (intro left_by_within opened_None)
  qed
qed

lemma batch_statement_opened:
  assumes "batch_statement L U vars result s remainder u = (b, x)" and "opened s h w u"
  shows "opened s h w x"
proof (cases h)
  case None
  then have "x = u" using assms
    by (auto simp: opened_def batch_statement_def statement_closed_p_def rb_bool_def RTEST_def bindM_def split: sum.splits)
  with assms(2) show ?thesis by simp
next
  case (Some h')
  with keepsE [OF batch_statement_keeps _ assms(1)] assms(2) show ?thesis by simp
qed

lemma ensure_outcome:
  assumes "ensureP (act m) (act c) u = Some (r, v)" and "m u = (b, x)"
  shows "r = b \<or> (\<exists>y. r = Inl y)"
    and "\<forall>z. r \<noteq> Inl (Undefined z) \<Longrightarrow> \<exists>r'. c x = (r', v) \<and> (\<forall>y. r' = Inl y \<longrightarrow> r = Inl y)"
proof -
  show "r = b \<or> (\<exists>y. r = Inl y)"
    using assms by (auto simp: ensureP_def split: sum.splits abort.splits prod.splits)
  assume defined: "\<forall>z. r \<noteq> Inl (Undefined z)"
  have "b \<noteq> Inl (Undefined z)" for z using assms defined by (auto simp: ensureP_def)
  then show "\<exists>r'. c x = (r', v) \<and> (\<forall>y. r' = Inl y \<longrightarrow> r = Inl y)"
    using assms by (auto simp: ensureP_def split: sum.splits abort.splits prod.splits)
qed

text \<open>One turn of the loop: it returns, and what is left is shorter than what was prepared.\<close>

lemma batch_turn:
  assumes "consumes_statements L"
    and "database_prepare L U db sql (\<lambda>s remainder. act (batch_statement L U vars result s remainder)) w = Some (r, v)"
  shows "((\<forall>z. r \<noteq> Inl (Undefined z)) \<longrightarrow> left_by L U w r v) \<and>
    (\<forall>result' sql'. r = Inr (result', sql') \<longrightarrow> (\<exists>sql2 q t. sql_utf8 U sql = Inr sql2 \<and> StringValue sql2 = Inr q \<and>
       sql' = RString False UTF_8 t False \<and> length t \<le> length q - 1))"
proof -
  obtain new u where new: "statement_new L U db sql w = (new, u)" by force
  note opens = statement_new_opens [OF assms(1) new]
  show ?thesis
  proof (cases new)
    case (Inl x)
    with opens assms(2) new show ?thesis by (auto simp: database_prepare_def intro: left_by_within)
  next
    case (Inr p)
    then obtain s remainder where p: "new = Inr (s, remainder)" by (cases p) auto
    with opens obtain sql2 q t h where sql: "sql_utf8 U sql = Inr sql2" "StringValue sql2 = Inr q"
      "remainder = rb_utf8_str_new_cstr t" "length (cstr t) \<le> length q - 1" and u: "opened s h w u"
      by auto
    obtain b x where block: "batch_statement L U vars result s remainder u = (b, x)" by force
    have run: "ensureP (act (batch_statement L U vars result s remainder)) (act (close_unless_closed L U s)) u = Some (r, v)"
      using assms(2) new p by (simp add: database_prepare_def)
    note outcome = ensure_outcome [OF run block]
    have "\<exists>t. sql' = RString False UTF_8 t False \<and> length t \<le> length q - 1" if "b = Inr (result', sql')" for result' sql'
    proof -
      have "strip U remainder = Inr sql'"
        using block that by (auto simp: batch_statement_def bindM_returns_iff)
      with strip_tail [of U t sql'] sql(3,4) show ?thesis by force
    qed
    moreover have "left_by L U w r v" if defined: "\<forall>z. r \<noteq> Inl (Undefined z)"
    proof -
      obtain r' where "close_unless_closed L U s x = (r', v)" "\<forall>y. r' = Inl y \<longrightarrow> r = Inl y"
        using outcome(2) [OF defined] by blast
      with closing_opened [OF batch_statement_opened [OF block u] this(1)] show ?thesis
        unfolding left_by_def by blast
    qed
    moreover note outcome(1)
    ultimately show ?thesis using sql(1,2) by (auto; blast)
  qed
qed

section \<open>The loop ends\<close>

lemma prepare_total: "\<exists>r v. database_prepare L U db sql (\<lambda>s remainder. act (m s remainder)) w = Some (r, v)"
proof (cases "statement_new L U db sql w")
  case (Pair new u)
  show ?thesis
  proof (cases new)
    case (Inr p)
    obtain s remainder where p: "p = (s, remainder)" by (cases p) auto
    have "\<exists>y. ensureP (act (m s remainder)) (act c) u = Some y" for c
      by (simp add: ensureP_def split: prod.split sum.split abort.split)
    with Pair Inr p show ?thesis by (simp add: database_prepare_def)
  qed (simp add: database_prepare_def Pair)
qed

definition ends_within ::
  "'e sqlite_lib \<Rightarrow> 'u rb_user \<Rightarrow> ((abort + 'a) \<times> ('e, 'u) world) option \<Rightarrow> ('e, 'u) world \<Rightarrow> bool" where
  "ends_within L U p w \<longleftrightarrow> (\<exists>r v. p = Some (r, v) \<and> ((\<forall>z. r \<noteq> Inl (Undefined z)) \<longrightarrow> left_by L U w r v))"

text \<open>The text of the first turn may have any encoding, the remainders are in UTF-8.\<close>

lemma batch_loop_turn:
  assumes "consumes_statements L"
    and rest: "\<And>result sql' sql2 q t u. sql_utf8 U sql = Inr sql2 \<Longrightarrow> StringValue sql2 = Inr q \<Longrightarrow>
      sql' = RString False UTF_8 t False \<Longrightarrow> length t \<le> length q - 1 \<Longrightarrow>
      ends_within L U (batch_loop L U db vars result sql' u) u"
  shows "ends_within L U (batch_loop L U db vars result sql w) w"
proof (cases "empty_p sql")
  case True
  then show ?thesis by (subst batch_loop.simps) (simp add: ends_within_def open_within_refl left_by_within)
next
  case False
  obtain r v where turn: "database_prepare L U db sql (\<lambda>s remainder. act (batch_statement L U vars result s remainder)) w = Some (r, v)"
    using prepare_total by blast
  note props = batch_turn [OF assms(1) turn]
  show ?thesis
  proof (cases r)
    case (Inl x)
    with props turn False show ?thesis
      by (subst batch_loop.simps) (auto simp: ends_within_def left_by_def)
  next
    case (Inr p)
    then obtain result' sql' where p: "r = Inr (result', sql')" by (cases p) auto
    with props have "ends_within L U (batch_loop L U db vars result' sql' v) v" by (blast intro: rest)
    moreover have "open_within w v" using props p by (simp add: left_by_def)
    moreover have "batch_loop L U db vars result sql w = batch_loop L U db vars result' sql' v"
      using False turn p by (subst batch_loop.simps) simp
    ultimately show ?thesis unfolding ends_within_def by (metis left_by_trans)
  qed
qed

lemma batch_loop_utf8:
  assumes "consumes_statements L"
  shows "ends_within L U (batch_loop L U db vars result (RString b UTF_8 q f) w) w"
proof (induction "length q" arbitrary: b q f result w rule: less_induct)
  case less
  show ?case
  proof (cases "q = []")
    case True
    then show ?thesis
      by (subst batch_loop.simps) (simp add: ends_within_def empty_p_def open_within_refl left_by_within)
  next
    case False
    show ?thesis
    proof (rule batch_loop_turn [OF assms])
      fix result sql' sql2 q' t u
      assume "sql_utf8 U (RString b UTF_8 q f) = Inr sql2" "StringValue sql2 = Inr q'"
        "sql' = RString False UTF_8 t False" "length t \<le> length q' - 1"
      moreover from this False have "length t < length q" by (cases q) (auto simp: sql_utf8_def StringValue_def)
      ultimately show "ends_within L U (batch_loop L U db vars result sql' u) u" using less by simp
    qed
  qed
qed

text \<open>C12: \<open>execute_batch\<close> always comes to an end and leaves no statement open. For every text in every encoding,
  every argument and every state, the loop stops after finitely many statements and returns or
  raises, and each statement it made has been closed: none is open that was not open before. The one
  exception is an exception that leaves \<open>sqlite3_finalize\<close> itself, through a callback: it is the outcome, and
  the statement that was being finalized is the only one whose object still has its handle. SQLite is
  assumed, as it documents, to compile some part of the text that it is given and to make no statement on
  an error.\<close>

theorem execute_batch_ends:
  assumes "consumes_statements L"
  shows "\<exists>r v. database_execute_batch L U db sql vars w = Some (r, v) \<and>
    ((\<forall>z. r \<noteq> Inl (Undefined z)) \<longrightarrow>
      (\<forall>s. s_st (stmts v s) \<noteq> None \<longrightarrow> s_st (stmts w s) \<noteq> None) \<or>
      (\<exists>s h t x. sqlite_run (callback_handler L U) (l_run L) (StmtCall (Some h) Finalize) t = (Inl x, v) \<and> r = Inl x \<and>
         s_st (stmts v s) = Some h \<and> (\<forall>q. q \<noteq> s \<longrightarrow> s_st (stmts v q) \<noteq> None \<longrightarrow> s_st (stmts w q) \<noteq> None)))"
proof (cases "strip U sql")
  case (Inl x)
  then show ?thesis by (simp add: database_execute_batch_def)
next
  case (Inr sql')
  have "ends_within L U (batch_loop L U db vars RNil sql' w) w"
    by (rule batch_loop_turn [OF assms]) (auto intro: batch_loop_utf8 [OF assms])
  with Inr show ?thesis
    by (simp add: database_execute_batch_def ends_within_def left_by_def open_within_def opened_def)
qed

section \<open>What a batch does\<close>

text \<open>
  A text of several statements, each with the handle that SQLite gives it, the number of its parameters
  and its first row, if it has one.
\<close>

type_synonym batch_item = "string \<times> sth \<times> cint \<times> sqlite3_value list option"

fun batch_text :: "batch_item list \<Rightarrow> string" where
  "batch_text [] = []"
| "batch_text ((text, h, n, row) # batch) = text"

abbreviation count_call :: "sth \<Rightarrow> sql_call" where
  "count_call h \<equiv> StmtCall (Some h) Bind_parameter_count"

text \<open>
  The library runs the batch from the state \<open>e\<close> to the state \<open>e'\<close>: in each state that it reaches it
  compiles the statement that is next, has its parameters, binds the arguments when their number fits,
  steps to the row or to the end and finalizes. What is left of the text is, without the white space at
  its ends, the text from the next statement on, and valid UTF-8, since \<open>strip\<close> raises otherwise.
\<close>

fun runs_batch ::
  "'e sqlite_lib \<Rightarrow> 'u rb_user \<Rightarrow> dbh \<Rightarrow> nat \<Rightarrow> st_op list \<Rightarrow> batch_item list \<Rightarrow> 'e \<Rightarrow> 'e \<Rightarrow> bool" where
  "runs_batch L U d k ops [] e e' \<longleftrightarrow> e' = e"
| "runs_batch L U d k ops ((text, h, n, row) # batch) e e' \<longleftrightarrow>
     text \<noteq> [] \<and>
     (\<exists>tail e0 e1 e2 e3 e4 z.
        l_prepare L (prepare_call d text) e = Return (SQLITE_OK, Some h, tail) e0 \<and>
        l_int L (count_call h) e0 = (n, e1) \<and>
        (if int k = sint n then binds_to L h ops e1 e2 else e2 = e1) \<and>
        steps_to L h row e2 e3 \<and> l_run L (StmtCall (Some h) Finalize) e3 = Return z e4 \<and>
        trim white (cstr tail) = batch_text batch \<and> u_valid_encoding U UTF_8 (cstr tail) \<and>
        runs_batch L U d k ops batch e4 e')"

text \<open>The calls for one statement, and the result it gives.\<close>

fun turn_calls :: "dbh \<Rightarrow> nat \<Rightarrow> st_op list \<Rightarrow> batch_item \<Rightarrow> sql_call list" where
  "turn_calls d k ops (text, h, n, row) =
     [prepare_call d text, count_call h] @ (if int k = sint n then binding_calls h ops else []) @
     step_calls h (row_values row) @ [StmtCall (Some h) Finalize]"

fun turn_result :: "'u rb_user \<Rightarrow> batch_item \<Rightarrow> rb_value" where
  "turn_result U (text, h, n, row) = (case row of None \<Rightarrow> RNil | Some r \<Rightarrow> row_array U r)"

lemma batch_statement_run:
  assumes "l_int L (count_call h) (env w) = (n, e1)"
    and "if int (length vs) = sint n then binds_to L h ops e1 e2 else e2 = e1" and "steps_to L h row e2 e3"
    and "binds_as U 1 (flatten vs) ops" and "at_start s h w" and "s_st (stmts w s) = Some h"
    and "strip U remainder = Inr sql'"
  shows "\<exists>g. batch_statement L U (RArray vs) result s remainder w =
    (Inr (turn_result U (t, h, n, row), sql'), upd_stmt s g (w\<lparr>env := e3, calls := calls w @ [count_call h] @
      (if int (length vs) = sint n then binding_calls h ops else []) @ step_calls h (row_values row)\<rparr>)) \<and>
    (\<forall>x. s_st (g x) = s_st x)"
proof -
  let ?c = "w\<lparr>env := e1, calls := calls w @ [count_call h]\<rparr>"
    and ?ops = "if int (length vs) = sint n then binding_calls h ops else []"
  have use: "require_usable s w = (Inr (Some h), w)" using assms(5) by (simp add: at_start_def)
  then have count: "bind_parameter_count L s w = (Inr (INT2NUM n), ?c)"
    using assms(1) by (simp add: bind_parameter_count_def sqlite_call_returns)
  have "require_usable s ?c = (Inr (Some h), ?c)" by (rule require_usable_cong [OF _ _ _ use]) simp_all
  then have bound: "(if RInteger (int (length vs)) = INT2NUM n then bind_params L U s [RArray vs] else ret ()) ?c =
      (Inr (), ?c\<lparr>env := e2, calls := calls ?c @ ?ops\<rparr>)"
    using bind_vars_to [of s ?c h U 1 "flatten vs" ops L e2] assms(2,4) by (auto simp: INT2NUM_def bind_params_def)
  let ?v = "?c\<lparr>env := e2, calls := calls ?c @ ?ops\<rparr>"
  have "at_start s h ?v" by (rule at_start_cong [OF assms(5)]) simp_all
  from step_to [OF this, of L row e3 U] assms(3)
  have "step L U s ?v = (Inr (turn_result U (t, h, n, row)), upd_stmt s (\<lambda>x. if row = None then x\<lparr>s_done_p := 1\<rparr> else x)
      (?v\<lparr>env := e3, calls := calls ?v @ step_calls h (row_values row)\<rparr>))" by simp
  then have "batch_statement L U (RArray vs) result s remainder w =
      (Inr (turn_result U (t, h, n, row), sql'), upd_stmt s (\<lambda>x. if row = None then x\<lparr>s_done_p := 1\<rparr> else x)
        (?v\<lparr>env := e3, calls := calls ?v @ step_calls h (row_values row)\<rparr>))"
    using assms(6,7) count bound
    by (simp add: batch_statement_def statement_closed_p_def rb_bool_def RTEST_def arguments_length_def)
  then show ?thesis by (intro exI [of _ "\<lambda>x. if row = None then x\<lparr>s_done_p := 1\<rparr> else x"]) simp
qed

lemma statement_turn:
  assumes "l_prepare L (prepare_call d text) (env w) = Return (SQLITE_OK, Some h, tail) e0"
    and "l_int L (count_call h) e0 = (n, e1)"
    and "if int (length vs) = sint n then binds_to L h ops e1 e2 else e2 = e1" and "steps_to L h row e2 e3"
    and "l_run L (StmtCall (Some h) Finalize) e3 = Return z e4"
    and "binds_as U 1 (flatten vs) ops" and "ready db d w" and "strip U (rb_utf8_str_new_cstr tail) = Inr sql'"
  shows "\<exists>v. database_prepare L U db (RString b UTF_8 text f)
      (\<lambda>s remainder. act (batch_statement L U (RArray vs) result s remainder)) w =
      Some (Inr (turn_result U (text, h, n, row), sql'), v) \<and>
    calls v = calls w @ turn_calls d (length vs) ops (text, h, n, row) \<and> ready db d v \<and> env v = e4"
proof -
  let ?s = "next_ref w" and ?w = "new_statement db d h text e0 w"
  let ?calls = "[count_call h] @ (if int (length vs) = sint n then binding_calls h ops else []) @
      step_calls h (row_values row)"
  let ?block = "\<lambda>s remainder. act (batch_statement L U (RArray vs) result s remainder)"
  have world: "d_db (dbs w db) = Some d" "d_flags (dbs w db) AND SQLITE3_RB_DATABASE_DISCARDED = 0" "errinfo w = None"
    using assms(7) by (simp_all add: ready_def)
  have new: "statement_new L U db (RString b UTF_8 text f) w = (Inr (?s, rb_utf8_str_new_cstr tail), ?w)"
    by (rule statement_new_run [OF world(1) _ assms(1)]) (simp add: sql_utf8_def)
  have "require_usable ?s ?w = (Inr (Some h), ?w)"
    using world(2) by (intro usable_open [of _ _ db]) (simp_all add: new_statement_def)
  then have start: "at_start ?s h ?w" "s_st (stmts ?w ?s) = Some h" "env ?w = e0"
    using world(3) by (simp_all add: at_start_def new_statement_def)
  have counted: "l_int L (count_call h) (env ?w) = (n, e1)" by (simp only: start(3) assms(2))
  obtain g where block: "batch_statement L U (RArray vs) result ?s (rb_utf8_str_new_cstr tail) ?w =
      (Inr (turn_result U (text, h, n, row), sql'), upd_stmt ?s g (?w\<lparr>env := e3, calls := calls ?w @ ?calls\<rparr>))"
    and g: "\<And>x. s_st (g x) = s_st x"
    using batch_statement_run [OF counted assms(3,4,6) start(1,2) assms(8), where result = result and t = "text"] by blast
  let ?u = "upd_stmt ?s g (?w\<lparr>env := e3, calls := calls ?w @ ?calls\<rparr>)"
  have st: "s_st (stmts ?u ?s) = Some h" by (simp add: g new_statement_def)
  have close: "statement_close L U ?s ?u = (Inr ?s, upd_stmt ?s (\<lambda>x. x\<lparr>s_st := None\<rparr>)
      (?u\<lparr>calls := calls ?u @ [StmtCall (Some h) Finalize], env := e4\<rparr>))"
    using assms(5) by (intro close_to [where z = z] st) simp
  have "?block ?s (rb_utf8_str_new_cstr tail) ?w = Some (Inr (turn_result U (text, h, n, row), sql'), ?u)"
    using block by simp
  from database_prepare_run [where block = ?block, OF new this _ st] close
  show ?thesis using world by (simp add: new_statement_def ready_def)
qed

lemma batch_loop_runs:
  assumes "runs_batch L U d (length vs) ops batch (env w) e" and "binds_as U 1 (flatten vs) ops" and "ready db d w"
  shows "\<exists>v. batch_loop L U db (RArray vs) result (RString b UTF_8 (batch_text batch) f) w =
      Some (Inr (last (result # map (turn_result U) batch)), v) \<and>
    calls v = calls w @ concat (map (turn_calls d (length vs) ops) batch) \<and> ready db d v \<and> env v = e"
  using assms(1,3)
proof (induction batch arbitrary: result b f w)
  case Nil
  then show ?case by (subst batch_loop.simps) (simp add: empty_p_def)
next
  case (Cons item batch)
  obtain t h n row where item: "item = (t, h, n, row)" by (cases item)
  obtain tail e0 e1 e2 e3 e4 z where turn: "t \<noteq> []"
    "l_prepare L (prepare_call d t) (env w) = Return (SQLITE_OK, Some h, tail) e0" "l_int L (count_call h) e0 = (n, e1)"
    "if int (length vs) = sint n then binds_to L h ops e1 e2 else e2 = e1" "steps_to L h row e2 e3"
    "l_run L (StmtCall (Some h) Finalize) e3 = Return z e4" "trim white (cstr tail) = batch_text batch"
    "u_valid_encoding U UTF_8 (cstr tail)" "runs_batch L U d (length vs) ops batch e4 e"
    using Cons.prems(1) unfolding item runs_batch.simps by blast
  have "strip U (rb_utf8_str_new_cstr tail) = Inr (RString False UTF_8 (batch_text batch) False)"
    using turn(7,8) by (simp add: strip_def rb_utf8_str_new_cstr_def rb_utf8_str_new_def rb_str_strip_def)
  from statement_turn [OF turn(2-6) assms(2) Cons.prems(2) this, of b f result]
  obtain u where u: "database_prepare L U db (RString b UTF_8 t f)
      (\<lambda>s remainder. act (batch_statement L U (RArray vs) result s remainder)) w =
      Some (Inr (turn_result U item, RString False UTF_8 (batch_text batch) False), u)"
    "calls u = calls w @ turn_calls d (length vs) ops item" "ready db d u" "env u = e4"
    unfolding item by blast
  have "batch_loop L U db (RArray vs) result (RString b UTF_8 t f) w =
      batch_loop L U db (RArray vs) (turn_result U item) (RString False UTF_8 (batch_text batch) False) u"
    using u(1) turn(1) by (subst batch_loop.simps) (simp add: empty_p_def)
  with Cons.IH [OF _ u(3), of "turn_result U item" False False] turn(9) u(2,4)
  show ?case by (auto simp: item)
qed

text \<open>C32: what \<open>execute_batch\<close> does with a UTF-8 text of several statements, each of which SQLite compiles
  and runs in the state in which it is reached: a statement may depend on those before it. It runs each of
  them, once and in the order of the text: one prepare of what is left of the text, the arguments bound
  when their number is the number of parameters of this statement, one step with the columns of its row, one
  finalize before the next. The result is that of the last statement, its first row or \<open>nil\<close>; the
  library is in the state after the last statement, the connection is as it was and nothing is pending.\<close>

theorem execute_batch_runs:
  assumes "runs_batch L U d (length vs) ops batch (env w) e" and "binds_as U 1 (flatten vs) ops" and "ready db d w"
    and "u_valid_encoding U UTF_8 text" and "trim white text = batch_text batch"
  shows "\<exists>v. database_execute_batch L U db (RString b UTF_8 text f) (RArray vs) w =
      Some (Inr (last (RNil # map (turn_result U) batch)), v) \<and>
    calls v = calls w @ concat (map (turn_calls d (length vs) ops) batch) \<and> ready db d v \<and> env v = e"
  using batch_loop_runs [OF assms(1-3), of RNil False False] assms(4,5)
  by (simp add: database_execute_batch_def strip_def rb_str_strip_def)

section \<open>A concrete batch\<close>

text \<open>
  A library that takes the text up to the next semicolon as a statement. Its state tells whether the table
  of the batch exists: the first statement, \<open>c\<close>, creates it; the second, \<open>s\<close>, compiles only when it is there.
\<close>

definition table_lib :: "bool sqlite_lib" where
  "table_lib = transaction_lib\<lparr>
     l_prepare := \<lambda>c e. Return (case c of
         DbCall h (Prepare_v2 q n) \<Rightarrow>
           (let tail = drop (Suc (length (takeWhile (\<lambda>c. c \<noteq> CHR '';'') (cstr q)))) (cstr q)
            in if take 1 q = ''c'' then (SQLITE_OK, Some 9, tail)
               else if e then (SQLITE_OK, Some 10, tail) else (SQLITE_ERROR, None, tail))
       | _ \<Rightarrow> (SQLITE_OK, Some 9, [])) e,
     l_run := \<lambda>c e. case c of
         StmtCall (Some g) Step \<Rightarrow> Return SQLITE_DONE (e \<or> g = 9)
       | _ \<Rightarrow> Return SQLITE_OK e\<rparr>"

lemma table_lib_consumes: "consumes_statements table_lib"
proof -
  have "\<exists>k. drop (Suc n) s = drop k s \<and> 0 < k" for n and s :: string by auto
  then show ?thesis
    by (auto simp: consumes_statements_def table_lib_def Let_def)
qed

definition two_statements :: "batch_item list" where
  "two_statements = [(''c; s'', 9, 0, None), (''s'', 10, 0, None)]"

lemma two_statements_laws:
  "runs_batch table_lib sample_user 7 0 [] two_statements False True" "trim white '' c; s '' = batch_text two_statements"
  "ready 0 7 transaction_world" "env transaction_world = False" "calls transaction_world = []"
  by (auto simp: two_statements_def table_lib_def transaction_lib_def prepare_call_def cstr_def nul_def trim_def white_def
      steps_to_def sample_user_def ready_def transaction_world_def zero_sqlite3Ruby_def)

lemma two_statements_run:
  "\<exists>v. batch_loop table_lib sample_user 0 (RArray []) RNil (RString False UTF_8 ''c; s'' False) transaction_world =
      Some (Inr RNil, v)"
  using batch_loop_runs [of table_lib sample_user 7 "[]" "[]" two_statements transaction_world True 0 RNil False False]
    two_statements_laws
  by (auto simp: two_statements_def)

theorem execute_batch_ends_witness:
  "\<exists>v. database_execute_batch table_lib sample_user 0 (RString False UTF_8 ''c; s'' False) (RArray []) transaction_world =
      Some (Inr RNil, v) \<and> s_st (stmts v 0) = None \<and> s_st (stmts v 1) = None"
proof -
  have "database_execute_batch table_lib sample_user 0 (RString False UTF_8 ''c; s'' False) (RArray []) transaction_world =
      batch_loop table_lib sample_user 0 (RArray []) RNil (RString False UTF_8 ''c; s'' False) transaction_world"
    by (simp add: database_execute_batch_def strip_def sample_user_def rb_str_strip_def trim_def white_def)
  with execute_batch_ends [OF table_lib_consumes, of sample_user 0 "RString False UTF_8 ''c; s'' False" "RArray []"
      transaction_world] two_statements_run
  have "\<exists>v. database_execute_batch table_lib sample_user 0 (RString False UTF_8 ''c; s'' False) (RArray []) transaction_world =
      Some (Inr RNil, v) \<and> (\<forall>s. s_st (stmts v s) \<noteq> None \<longrightarrow> s_st (stmts transaction_world s) \<noteq> None)"
    by auto
  then show ?thesis by (auto simp: transaction_world_def sample_world_def zero_sqlite3StmtRuby_def)
qed

theorem execute_batch_runs_witness:
  "\<exists>v. database_execute_batch table_lib sample_user 0 (RString False UTF_8 '' c; s '' False) (RArray []) transaction_world =
      Some (Inr RNil, v) \<and> env v = True \<and>
    calls v = [prepare_call 7 ''c; s'', count_call 9, StmtCall (Some 9) Step, StmtCall (Some 9) Column_count,
      StmtCall (Some 9) Finalize, prepare_call 7 ''s'', count_call 10, StmtCall (Some 10) Step,
      StmtCall (Some 10) Column_count, StmtCall (Some 10) Finalize]"
  using execute_batch_runs [of table_lib sample_user 7 "[]" "[]" two_statements transaction_world True 0 "'' c; s ''" False False]
    two_statements_laws
  by (auto simp: two_statements_def sample_user_def step_calls_def binding_calls_def)

end
