(* ===== verification/Query_End.thy ===== *)
theory Query_End
  imports Query_Laws
begin

unbundle bit_operations_syntax

text \<open>
  A query with finitely many rows ends: the loop over the rows is run to its end or left by an
  exception, whatever SQLite answers on the way and whatever the callbacks do.
\<close>

section \<open>A loop with a variant\<close>

lemma each_row_ends:
  fixes size :: "('e, 'u) world \<Rightarrow> nat"
  assumes fetch: "\<And>w r v. fetch w = (Inr (Some r), v) \<Longrightarrow> size v < size w"
    and block: "\<And>r w. \<exists>b v. block r w = Some (b, v) \<and> size v \<le> size w"
  shows "\<exists>r v. each_row fetch block w = Some (r, v)"
proof (induction "size w" arbitrary: w rule: less_induct)
  case less
  obtain q u where q: "fetch w = (q, u)" by force
  show ?case
  proof (cases "\<exists>row. q = Inr (Some row)")
    case False
    with q show ?thesis by (subst each_row.simps) (auto split: sum.splits option.splits)
  next
    case True
    then obtain row where row: "q = Inr (Some row)" ..
    obtain b v where b: "block row u = Some (b, v)" "size v \<le> size u" using block by blast
    have "size v < size w" using fetch [of w row u] q row b(2) by simp
    from less [OF this] obtain r t where "each_row fetch block v = Some (r, t)" by blast
    with q row b(1) show ?thesis
      by (subst each_row.simps) (simp split: sum.split)
  qed
qed

section \<open>Finitely many rows\<close>

text \<open>The answers of a run, each with the state in which the library gives it.\<close>

primrec leaves_in :: "('r \<Rightarrow> 'e \<Rightarrow> bool) \<Rightarrow> ('e, 'r) run \<Rightarrow> bool" where
  "leaves_in P (Return r e) \<longleftrightarrow> P r e"
| "leaves_in P (Callback e q k) \<longleftrightarrow> (\<forall>p. leaves_in P (k p))"

lemma exec_run_leaves: "leaves_in P t \<Longrightarrow> exec_run H t w = (Inr r, v) \<Longrightarrow> P r (env v)"
proof (induction t arbitrary: w)
  case (Callback e q k)
  then show ?case by (auto simp: bindM_returns_iff)
qed auto

text \<open>
  A library whose queries have finitely many rows, \<open>rows\<close> of them left: a step that finds a row
  leaves fewer, reading the row and its names does not add any, and \<open>sqlite3_step\<close> never
  answers \<open>SQLITE_OK\<close>. Its other answers, errors and the end, are free, and so are the callbacks
  on the way.
\<close>

definition reading_op :: "st_op \<Rightarrow> bool" where
  "reading_op op \<longleftrightarrow> (case op of
     Column_count \<Rightarrow> True | Column i \<Rightarrow> True | Column_name i \<Rightarrow> True | Column_decltype i \<Rightarrow> True | _ \<Rightarrow> False)"

definition finite_rows :: "'e sqlite_lib \<Rightarrow> ('e \<Rightarrow> nat) \<Rightarrow> bool" where
  "finite_rows L rows \<longleftrightarrow>
     (\<forall>h e. leaves_in (\<lambda>status e'. (status = SQLITE_ROW \<longrightarrow> rows e' < rows e) \<and> status AND 0xff \<noteq> 0)
        (l_run L (StmtCall h Step) e)) \<and>
     (\<forall>h op e. reading_op op \<longrightarrow> rows (snd (l_int L (StmtCall h op) e)) \<le> rows e \<and>
        rows (snd (l_column L (StmtCall h op) e)) \<le> rows e \<and> rows (snd (l_text L (StmtCall h op) e)) \<le> rows e)"

abbreviation rows_left :: "('e \<Rightarrow> nat) \<Rightarrow> nat \<Rightarrow> ('e, 'u) world \<Rightarrow> bool" where
  "rows_left rows n w \<equiv> rows (env w) \<le> n"

lemma keeps_reading:
  assumes "finite_rows L rows" and "reading_op op"
  shows "keeps (rows_left rows n) (sqlite_call (l_int L) (StmtCall h op))"
    "keeps (rows_left rows n) (sqlite_call (l_column L) (StmtCall h op))"
    "keeps (rows_left rows n) (sqlite_call (l_text L) (StmtCall h op))"
  using assms unfolding finite_rows_def by (simp_all add: keeps_def sqlite_call_returns) (blast intro: le_trans)+

lemma keeps_row:
  assumes "finite_rows L rows"
  shows "keeps (rows_left rows n) (mapM (\<lambda>i. bindM (sqlite_call (l_column L) (StmtCall h (Column i)))
      (\<lambda>v. liftE (column_value U v))) js)"
  by (intro keeps_mapM keeps_bindM keeps_liftE keeps_reading [OF assms]) (simp add: reading_op_def)

lemma keeps_rows_columns:
  assumes "finite_rows L rows"
  shows "keeps (rows_left rows n) (columns L s)"
proof -
  have read: "keeps (rows_left rows n) (column_count L s)" "keeps (rows_left rows n) (column_name L s k)"
    "keeps (rows_left rows n) (column_decltype L s k)" for k
    unfolding column_count_def column_name_def column_decltype_def require_usable_def require_live_db_def require_open_stmt_def
    by (intro keeps_bindM keeps_ret keeps_liftE keeps_getM keeps_require keeps_if keeps_case_option
        keeps_reading [OF assms]; simp add: reading_op_def)+
  then show ?thesis
    unfolding columns_def get_metadata_def array_of_def
    by (intro keeps_bindM keeps_ret keeps_if keeps_getM keeps_liftE keeps_mapM keeps_modM) simp_all
qed

lemma step_leaves_fewer:
  fixes w :: "('e, 'u) world"
  assumes "finite_rows L rows" and "step L U s w = (Inr v, w')" and "RTEST v"
  shows "rows (env w') < rows (env w)"
proof -
  have "s_done_p (stmts w s) = 0"
    using assms(2,3) by (auto simp: step_def bindM_returns_iff require_usable_run RTEST_def split: option.splits if_splits)
  moreover from this obtain h where use: "require_usable s w = (Inr (Some h), w)"
    using assms by (auto simp: step_def bindM_returns_iff require_usable_run split: option.splits if_splits)
  ultimately have step: "step L U s w = (Inr v, w')" and now: "s_done_p (stmts w s) = 0" using assms(2) by simp_all
  then obtain c u where run: "sqlite_run (callback_handler L U) (l_run L) (StmtCall (Some h) Step) w = (Inr c, u)"
    by (auto simp: step_run [OF use] bindM_returns_iff)
  have leaf: "leaves_in (\<lambda>status e'. (status = SQLITE_ROW \<longrightarrow> rows e' < rows (env w)) \<and> status AND 0xff \<noteq> 0)
      (l_run L (StmtCall (Some h) Step) (env w))"
    using assms(1) unfolding finite_rows_def by blast
  have c: "c = SQLITE_ROW \<longrightarrow> rows (env u) < rows (env w)" "c AND 0xff \<noteq> 0"
    using run exec_run_leaves [OF leaf, of "callback_handler L U" "w\<lparr>calls := calls w @ [StmtCall (Some h) Step]\<rparr>" c u]
    by (simp_all add: sqlite_run_def)
  have none: "errinfo u = None"
    using step by (auto simp: step_run [OF use now] bindM_returns_iff run reraise_run split: option.splits)
  let ?u = "u\<lparr>env := snd (l_int L (StmtCall (Some h) Column_count) (env u)),
      calls := calls u @ [StmtCall (Some h) Column_count]\<rparr>"
  have counted: "rows (env ?u) \<le> rows (env u)"
    using assms(1) unfolding finite_rows_def by (simp add: reading_op_def)
  show ?thesis
  proof (cases "c = SQLITE_ROW")
    case True
    then obtain vs js where "mapM (\<lambda>i. bindM (sqlite_call (l_column L) (StmtCall (Some h) (Column i)))
        (\<lambda>v. liftE (column_value U v))) js ?u = (Inr vs, w')"
      using step run none
      by (auto simp: step_run [OF use now] reraise_run sqlite_call_returns bindM_returns_iff)
    from keepsE [OF keeps_row [OF assms(1)] _ this, of "rows (env u)"] counted True c(1) show ?thesis by simp
  next
    case False
    have "rb_sqlite3_raise L db c t \<noteq> (Inr (), t')" for db t t'
      using c(2) by (auto simp: rb_sqlite3_raise_returns_iff)
    with False step run none assms(3) show ?thesis
      by (auto simp: step_run [OF use now] reraise_run sqlite_call_returns bindM_returns_iff RTEST_def split: if_splits)
  qed
qed

lemma fetch_leaves_fewer:
  assumes "finite_rows L rows" and "while_node (result_set_next L U rs) w = (Inr (Some row), v)"
  shows "rows (env v) < rows (env w)"
proof -
  have nxt: "result_set_next L U rs w = (Inr row, v)" "RTEST row"
    using assms(2) by (auto simp: while_node_def bindM_returns_iff split: if_splits)
  show ?thesis
  proof (cases rs)
    case (ResultSet s)
    with nxt show ?thesis by (auto simp: result_set_next_def dest: step_leaves_fewer [OF assms(1)])
  next
    case (HashResultSet s)
    with nxt obtain r u where u: "step L U s w = (Inr r, u)" "s_done_p (stmts u s) = 0"
      and names: "bindM (columns L s) (\<lambda>names. liftE (zip_to_h names r)) u = (Inr row, v)"
      by (auto simp: result_set_next_def next_hash_def done_p_def rb_bool_def bindM_returns_iff RTEST_def split: if_splits)
    then have "rows (env u) < rows (env w)"
      using step_result [OF u(1)] step_leaves_fewer [OF assms(1) u(1)] by simp
    moreover have "keeps (rows_left rows (rows (env u))) (bindM (columns L s) (\<lambda>names. liftE (zip_to_h names r)))"
      by (intro keeps_bindM keeps_liftE keeps_rows_columns [OF assms(1)])
    from keepsE [OF this _ names] have "rows (env v) \<le> rows (env u)" by simp
    ultimately show ?thesis by simp
  qed
qed

lemma loop_ends:
  assumes "finite_rows L rows" and "\<forall>row w. \<exists>b v. block row w = Some (b, v) \<and> rows (env v) \<le> rows (env w)"
  shows "\<exists>r v. result_set_each L U rs block w = Some (r, v)"
  unfolding result_set_each_def
  by (rule each_row_ends [where size = "\<lambda>w. rows (env w)"]) (use assms(2) fetch_leaves_fewer [OF assms(1)] in blast)+

section \<open>\<open>execute\<close> returns\<close>

lemma bindP_ends:
  "(\<exists>r v. p w = Some (r, v)) \<Longrightarrow> (\<And>a v. \<exists>r u. f a v = Some (r, u)) \<Longrightarrow> \<exists>r u. bindP p f w = Some (r, u)"
  by (auto simp: bindP_def split: sum.split)

lemma prepare_ends:
  assumes "\<And>s remainder v. \<exists>r u. block s remainder v = Some (r, u)"
  shows "\<exists>r v. database_prepare L U db sql block w = Some (r, v)"
proof -
  have "\<exists>r u. ensureP (block s remainder) (act c) v = Some (r, u)" for s remainder c v
    using assms [of s remainder v] by (auto simp: ensureP_def split: prod.split sum.split abort.split)
  then show ?thesis unfolding database_prepare_def by (intro bindP_ends) (auto split: prod.split)
qed

text \<open>C11: \<open>Database#execute\<close> comes to its end. With a library whose queries have finitely many rows
  and a block that returns and does not add rows, \<open>execute\<close> returns or raises, whatever the SQL,
  the arguments and the state, with rows as arrays or as hashes, whichever errors SQLite answers
  and whatever Ruby code its callbacks run. No error answer makes the loop go on forever: it
  leaves the loop as an exception.\<close>

theorem execute_returns:
  assumes "finite_rows L rows" and "\<forall>row w. \<exists>b v. block row w = Some (b, v) \<and> rows (env v) \<le> rows (env w)"
  shows "\<exists>r v. database_execute_each L U db sql vars block w = Some (r, v)"
  unfolding database_execute_each_def
  by (intro prepare_ends bindP_ends loop_ends [OF assms]) simp_all

theorem execute_returns_witness:
  "\<exists>r v. database_execute_each column_lib sample_user 0 (sql_text ''q'') (RArray [RInteger 4]) collect query_world =
    Some (r, v)"
proof (rule execute_returns [where rows = "\<lambda>e. length (fst e)"])
  show "finite_rows column_lib (\<lambda>e. length (fst e))"
    by (auto simp: finite_rows_def column_lib_def reading_op_def split: list.split st_op.splits)
  show "\<forall>row w. \<exists>b v. collect row w = Some (b, v) \<and> length (fst (env v)) \<le> length (fst (env (w :: (column_env, unit) world)))"
    by (simp add: collect_run)
qed

end
