(* ===== verification/Rows.thy ===== *)
theory Rows
  imports Query_Laws
begin

unbundle bit_operations_syntax

text \<open>
  Rows as hashes, and what the other methods that run a query promise: with \<open>results_as_hash\<close> a
  row is a hash from the names of the columns, which are read from SQLite once per statement;
  \<open>get_first_value\<close> gives the value it means, unless two columns share a name; a query with
  finitely many rows ends; \<open>query\<close> closes its statement, once.
\<close>

section \<open>Pairs and hashes\<close>

text \<open>
  \<open>Array#to_h\<close> of pairs, said without the loop: the keys stand in the order of their first
  occurrence, and each has the value of its last.
\<close>

definition last_wins :: "('k \<times> 'v) list \<Rightarrow> ('k \<times> 'v) list" where
  "last_wins kvs = map (\<lambda>k. (k, the (map_of (rev kvs) k))) (rev (remdups (rev (map fst kvs))))"

lemma keys_hash_aset:
  "map fst (hash_aset k v kvs) = (if k \<in> set (map fst kvs) then map fst kvs else map fst kvs @ [k])"
  by (induction kvs) force+

lemma pairs_to_h_snoc: "pairs_to_h (kvs @ [(k, v)]) = hash_aset k v (pairs_to_h kvs)"
  by (simp add: pairs_to_h_def)

lemma keys_pairs_to_h: "map fst (pairs_to_h kvs) = rev (remdups (rev (map fst kvs)))"
proof (induction kvs rule: rev_induct)
  case Nil
  show ?case by (simp add: pairs_to_h_def)
next
  case (snoc kv kvs)
  have "set (map fst (pairs_to_h kvs)) = set (map fst kvs)" by (simp only: snoc) simp
  with snoc show ?case by (cases kv) (simp add: pairs_to_h_snoc keys_hash_aset)
qed

lemma map_of_pairs_to_h: "map_of (pairs_to_h kvs) = map_of (rev kvs)"
proof (induction kvs rule: rev_induct)
  case Nil
  show ?case by (simp add: pairs_to_h_def)
next
  case (snoc kv kvs)
  then show ?case by (cases kv) (simp add: pairs_to_h_snoc map_of_hash_aset)
qed

lemma distinct_keys_pairs:
  assumes "distinct (map fst kvs)"
  shows "kvs = map (\<lambda>k. (k, the (map_of kvs k))) (map fst kvs)"
proof (rule nth_equalityI)
  fix i assume "i < length kvs"
  moreover from this have "map_of kvs (fst (kvs ! i)) = Some (snd (kvs ! i))"
    using assms by (intro map_of_is_SomeI) simp_all
  ultimately show "kvs ! i = map (\<lambda>k. (k, the (map_of kvs k))) (map fst kvs) ! i"
    by (simp add: prod_eq_iff)
qed simp

lemma pairs_to_h_last_wins: "pairs_to_h kvs = last_wins kvs"
proof -
  have "distinct (map fst (pairs_to_h kvs))" by (simp add: keys_pairs_to_h)
  from distinct_keys_pairs [OF this] show ?thesis
    by (simp add: last_wins_def keys_pairs_to_h map_of_pairs_to_h)
qed

lemma zip_nil_zip: "length ks = length vs \<Longrightarrow> zip_nil ks vs = zip ks vs"
  by (induction ks vs rule: zip_nil.induct) auto

text \<open>A row as a hash, from the names of its columns.\<close>

definition column_names :: "string list \<Rightarrow> rb_value list" where
  "column_names names = map interned_utf8_cstr names"

definition row_hash :: "'u rb_user \<Rightarrow> string list \<Rightarrow> sqlite3_value list \<Rightarrow> rb_value" where
  "row_hash U names r = RHash (last_wins (zip (column_names names) (map (\<lambda>v. projr (column_value U v)) r)))"

lemma row_hash_RTEST [simp]: "RTEST (row_hash U names r)"
  by (simp add: row_hash_def RTEST_def)

lemma zip_to_h_row:
  "length r = length names \<Longrightarrow> zip_to_h (RArray (column_names names)) (row_array U r) = Inr (row_hash U names r)"
  by (simp add: zip_to_h_def row_array_def row_hash_def zip_nil_zip column_names_def pairs_to_h_last_wins)

section \<open>The metadata\<close>

text \<open>The statement has columns with these names; their declared types may be anything.\<close>

definition named_columns :: "'e sqlite_lib \<Rightarrow> sth \<Rightarrow> string list \<Rightarrow> bool" where
  "named_columns L h names \<longleftrightarrow> length names \<le> 32767 \<and> (\<forall>i < length names. \<forall>e.
     l_text L (StmtCall (Some h) (Column_name (word_of_nat i))) e = (Some (names ! i), e) \<and>
     snd (l_text L (StmtCall (Some h) (Column_decltype (word_of_nat i))) e) = e)"

definition metadata_calls :: "sth \<Rightarrow> nat \<Rightarrow> sql_call list" where
  "metadata_calls h n =
     [StmtCall (Some h) Column_count] @ map (\<lambda>i. StmtCall (Some h) (Column_name (word_of_nat i))) [0..<n] @
     [StmtCall (Some h) Column_count] @ map (\<lambda>i. StmtCall (Some h) (Column_decltype (word_of_nat i))) [0..<n]"

lemma mapM_calls:
  assumes "require_usable s w = (Inr (Some h), w)"
    and "\<And>x v. x \<in> set xs \<Longrightarrow> require_usable s v = (Inr (Some h), v) \<Longrightarrow> env v = env w \<Longrightarrow>
      f x v = (Inr (g x), v\<lparr>calls := calls v @ [c x]\<rparr>)"
  shows "mapM f xs w = (Inr (map g xs), w\<lparr>calls := calls w @ map c xs\<rparr>)"
  using assms
proof (induction xs arbitrary: w)
  case (Cons x xs)
  let ?w = "w\<lparr>calls := calls w @ [c x]\<rparr>"
  have "f x w = (Inr (g x), ?w)" using Cons.prems by simp
  moreover have "require_usable s ?w = (Inr (Some h), ?w)"
    by (rule require_usable_cong [OF _ _ _ Cons.prems(1)]) simp_all
  then have "mapM f xs ?w = (Inr (map g xs), ?w\<lparr>calls := calls ?w @ map c xs\<rparr>)"
    using Cons.prems(2) by (intro Cons.IH) simp_all
  ultimately show ?case by simp
qed simp

lemma index_in_range:
  "i < n \<Longrightarrow> n \<le> 32767 \<Longrightarrow> int_in_range (int i) = Inr (word_of_nat i)"
  by (simp add: int_in_range_def int_fits_def)

text \<open>The first time, the metadata is read and kept.\<close>

definition known_columns :: "nat \<Rightarrow> string list \<Rightarrow> ('e, 'u) world \<Rightarrow> bool" where
  "known_columns s names w \<longleftrightarrow> iv_columns (sivars w s) = Some (column_names names)"

lemma columns_known: "known_columns s names w \<Longrightarrow> columns L s w = (Inr (RArray (column_names names)), w)"
  by (simp add: columns_def known_columns_def array_or_nil_def bindM_def)

lemma array_of_calls:
  assumes "require_usable s w = (Inr (Some h), w)"
    and "\<And>i v. i < n \<Longrightarrow> require_usable s v = (Inr (Some h), v) \<Longrightarrow> env v = env w \<Longrightarrow>
      f (RInteger (int i)) v = (Inr (g i), v\<lparr>calls := calls v @ [c i]\<rparr>)"
  shows "array_of (RInteger (int n)) f w = (Inr (map g [0..<n]), w\<lparr>calls := calls w @ map c [0..<n]\<rparr>)"
  using mapM_calls [OF assms(1), of "[0..<n]" "\<lambda>i. f (RInteger (int i))" g c] assms(2)
  by (simp add: array_of_def array_size_def bindM_def [of "liftE x" for x])

lemma names_read:
  assumes "named_columns L h names" and "require_usable s w = (Inr (Some h), w)"
  shows "array_of (RInteger (int (length names))) (column_name L s) w = (Inr (column_names names),
    w\<lparr>calls := calls w @ map (\<lambda>i. StmtCall (Some h) (Column_name (word_of_nat i))) [0..<length names]\<rparr>)"
proof -
  have "column_name L s (RInteger (int i)) v = (Inr (interned_utf8_cstr (names ! i)),
      v\<lparr>calls := calls v @ [StmtCall (Some h) (Column_name (word_of_nat i))]\<rparr>)"
    if "i < length names" "require_usable s v = (Inr (Some h), v)" for i v
    using that assms(1) index_in_range [of i "length names"]
    by (simp add: column_name_def sqlite_call_returns named_columns_def)
  then have "array_of (RInteger (int (length names))) (column_name L s) w =
      (Inr (map (\<lambda>i. interned_utf8_cstr (names ! i)) [0..<length names]),
       w\<lparr>calls := calls w @ map (\<lambda>i. StmtCall (Some h) (Column_name (word_of_nat i))) [0..<length names]\<rparr>)"
    by (rule array_of_calls [OF assms(2)])
  moreover have "map (\<lambda>i. interned_utf8_cstr (names ! i)) [0..<length names] = column_names names"
    by (rule nth_equalityI) (simp_all add: column_names_def)
  ultimately show ?thesis by simp
qed

lemma types_read:
  assumes "named_columns L h names" and "require_usable s w = (Inr (Some h), w)"
  shows "\<exists>ts. array_of (RInteger (int (length names)))
      (\<lambda>column. bindM (column_decltype L s column) (\<lambda>val. ret (downcase val))) w = (Inr ts,
    w\<lparr>calls := calls w @ map (\<lambda>i. StmtCall (Some h) (Column_decltype (word_of_nat i))) [0..<length names]\<rparr>)"
proof -
  let ?type = "\<lambda>i. fst (l_text L (StmtCall (Some h) (Column_decltype (word_of_nat i))) (env w))"
  have "bindM (column_decltype L s (RInteger (int i))) (\<lambda>val. ret (downcase val)) v =
      (Inr (downcase (cstr_or_nil (?type i))), v\<lparr>calls := calls v @ [StmtCall (Some h) (Column_decltype (word_of_nat i))]\<rparr>)"
    if "i < length names" "require_usable s v = (Inr (Some h), v)" "env v = env w" for i v
    using that assms(1) index_in_range [of i "length names"]
    by (simp add: column_decltype_def sqlite_call_returns named_columns_def)
  then show ?thesis
    by (intro exI) (rule array_of_calls [OF assms(2), where f = "\<lambda>column. bindM (column_decltype L s column) (\<lambda>val. ret (downcase val))"])
qed

lemma columns_first:
  assumes "yields_rows L h todo cur" and "named_columns L h names" and "length (cur (env w)) = length names"
    and "require_usable s w = (Inr (Some h), w)" and "iv_columns (sivars w s) = None"
  shows "\<exists>m. columns L s w = (Inr (RArray (column_names names)),
      upd_sivars s m (w\<lparr>calls := calls w @ metadata_calls h (length names)\<rparr>)) \<and>
    iv_columns (m (sivars w s)) = Some (column_names names)"
proof -
  let ?n = "length names"
  have use: "require_usable s v = (Inr (Some h), v)" if "dbs v = dbs w" "stmts v s = stmts w s" for v
    using that by (intro require_usable_cong [OF _ _ _ assms(4)]) simp_all
  have count: "column_count L s v = (Inr (RInteger (int ?n)), v\<lparr>calls := calls v @ [StmtCall (Some h) Column_count]\<rparr>)"
    if "dbs v = dbs w" "stmts v s = stmts w s" "env v = env w" for v
    using column_count_run [OF assms(1) use [OF that(1,2)]] that(3) assms(2,3) by (simp add: named_columns_def)
  let ?w1 = "w\<lparr>calls := calls w @ [StmtCall (Some h) Column_count]\<rparr>"
  let ?w2 = "?w1\<lparr>calls := calls ?w1 @ map (\<lambda>i. StmtCall (Some h) (Column_name (word_of_nat i))) [0..<?n]\<rparr>"
  let ?w3 = "upd_sivars s (\<lambda>i. i\<lparr>iv_columns := Some (column_names names)\<rparr>) ?w2"
  let ?w4 = "?w3\<lparr>calls := calls ?w3 @ [StmtCall (Some h) Column_count]\<rparr>"
  let ?w5 = "?w4\<lparr>calls := calls ?w4 @ map (\<lambda>i. StmtCall (Some h) (Column_decltype (word_of_nat i))) [0..<?n]\<rparr>"
  obtain ts where types: "array_of (RInteger (int ?n))
      (\<lambda>column. bindM (column_decltype L s column) (\<lambda>val. ret (downcase val))) ?w4 = (Inr ts, ?w5)"
    using types_read [OF assms(2) use, of ?w4] by auto
  have "get_metadata L s w = (Inr (), upd_sivars s (\<lambda>i. i\<lparr>iv_types := Some ts\<rparr>) ?w5)"
    using count [of w] names_read [OF assms(2) use, of ?w1] count [of ?w3] types by (simp add: get_metadata_def)
  then have "columns L s w = (Inr (RArray (column_names names)), upd_sivars s (\<lambda>i. i\<lparr>iv_types := Some ts\<rparr>) ?w5)"
    using assms(5) by (simp add: columns_def array_or_nil_def)
  moreover have "upd_sivars s (\<lambda>i. i\<lparr>iv_types := Some ts\<rparr>) ?w5 =
      upd_sivars s (\<lambda>i. i\<lparr>iv_columns := Some (column_names names), iv_types := Some ts\<rparr>)
        (w\<lparr>calls := calls w @ metadata_calls h ?n\<rparr>)"
    by (simp add: upd_sivars_def metadata_calls_def)
  ultimately show ?thesis by (intro exI) auto
qed

section \<open>The loop over hashes\<close>

lemma step_hash:
  assumes "yields_rows L h todo cur" and "todo (env w) = r # rows" and "valid_row r" and "at_start s h w"
  obtains e where "step L U s w = (Inr (row_array U r), w\<lparr>env := e, calls := calls w @ step_calls h r\<rparr>)"
    "todo e = rows" "cur e = r" "at_start s h (w\<lparr>env := e, calls := calls w @ step_calls h r\<rparr>)"
proof -
  obtain e where e: "step L U s w = (Inr (row_array U r), w\<lparr>env := e, calls := calls w @ step_calls h r\<rparr>)"
    "todo e = rows" "cur e = r"
    using step_row [OF assms(1-3), of s U] assms(4) unfolding at_start_def by auto
  moreover have "at_start s h (w\<lparr>env := e, calls := calls w @ step_calls h r\<rparr>)"
    by (rule at_start_cong [OF assms(4)]) simp_all
  ultimately show ?thesis using that by blast
qed

lemma hash_loop_known:
  assumes "yields_rows L h todo cur" and "todo (env w) = rows"
    and "list_all (\<lambda>r. valid_row r \<and> length r = length names) rows" and "at_start s h w" and "known_columns s names w"
  shows "loop_run L U (HashResultSet s) (map (row_hash U names) rows) (rows_calls h rows) w"
  using assms(2-)
proof (induction rows arbitrary: w)
  case Nil
  then show ?case using loop_run_end [OF assms(1), of w "HashResultSet s" U] by (simp add: rows_calls_def)
next
  case (Cons r rows)
  then have "valid_row r" by simp
  with Cons.prems(1,3) obtain e where e: "step L U s w = (Inr (row_array U r), w\<lparr>env := e, calls := calls w @ step_calls h r\<rparr>)"
    "todo e = rows" "at_start s h (w\<lparr>env := e, calls := calls w @ step_calls h r\<rparr>)"
    using step_hash [OF assms(1), of w r rows s U] by metis
  let ?w = "w\<lparr>env := e, calls := calls w @ step_calls h r\<rparr>"
  have known: "known_columns s names ?w" using Cons.prems(4) by (simp add: known_columns_def)
  have "done_p s ?w = (Inr RFalse, ?w)" using e(3) by (simp add: at_start_def done_p_def rb_bool_def)
  then have "next_hash L U s w = (Inr (row_hash U names r), ?w)"
    using e(1) columns_known [OF known, of L] zip_to_h_row [of r names U] Cons.prems(2)
    by (simp add: next_hash_def RTEST_def [of RFalse])
  moreover have "loop_run L U (HashResultSet s) (map (row_hash U names) rows) (rows_calls h rows) ?w"
    using Cons.prems(2) e(2,3) known by (intro Cons.IH) simp_all
  ultimately show ?case
    using loop_run_next [where L = L and U = U and w = w and rs = "HashResultSet s" and r = "row_hash U names r"
        and f = "\<lambda>i. i" and c = "step_calls h r" and e = e and out = "map (row_hash U names) rows"
        and cs = "rows_calls h rows"]
    by (simp add: result_set_next_def rows_calls_def)
qed

text \<open>The calls of a whole loop: the metadata is read after the first step, and only if there is a row.\<close>

definition hash_calls :: "sth \<Rightarrow> nat \<Rightarrow> sqlite3_value list list \<Rightarrow> sql_call list" where
  "hash_calls h n rows =
     (case rows of [] \<Rightarrow> step_calls h [] | r # rs \<Rightarrow> step_calls h r @ metadata_calls h n @ rows_calls h rs)"

lemma next_hash_first:
  assumes "yields_rows L h todo cur" and "named_columns L h names" and "todo (env w) = r # rows"
    and "valid_row r" and "length r = length names" and "at_start s h w" and "iv_columns (sivars w s) = None"
  shows "\<exists>e m. next_hash L U s w = (Inr (row_hash U names r), upd_sivars s m
      (w\<lparr>env := e, calls := calls w @ step_calls h r @ metadata_calls h (length names)\<rparr>)) \<and>
    todo e = rows \<and> iv_columns (m (sivars w s)) = Some (column_names names)"
proof -
  obtain e where e: "step L U s w = (Inr (row_array U r), w\<lparr>env := e, calls := calls w @ step_calls h r\<rparr>)"
    "todo e = rows" "cur e = r" "at_start s h (w\<lparr>env := e, calls := calls w @ step_calls h r\<rparr>)"
    using step_hash [OF assms(1,3,4,6)] by metis
  let ?w = "w\<lparr>env := e, calls := calls w @ step_calls h r\<rparr>"
  obtain m where m: "columns L s ?w = (Inr (RArray (column_names names)),
      upd_sivars s m (?w\<lparr>calls := calls ?w @ metadata_calls h (length names)\<rparr>))"
    "iv_columns (m (sivars w s)) = Some (column_names names)"
    using columns_first [OF assms(1,2), of ?w s] e(3,4) assms(5,7) by (auto simp: at_start_def)
  have "done_p s ?w = (Inr RFalse, ?w)" using e(4) by (simp add: at_start_def done_p_def rb_bool_def)
  then have "next_hash L U s w = (Inr (row_hash U names r),
      upd_sivars s m (?w\<lparr>calls := calls ?w @ metadata_calls h (length names)\<rparr>))"
    using e(1) m(1) zip_to_h_row [of r names U] assms(5) by (simp add: next_hash_def RTEST_def [of RFalse])
  with e(2) m(2) show ?thesis by (intro exI [of _ e] exI [of _ m]) simp
qed

lemma hash_loop:
  assumes "yields_rows L h todo cur" and "named_columns L h names" and "todo (env w) = rows"
    and "list_all (\<lambda>r. valid_row r \<and> length r = length names) rows" and "at_start s h w"
    and "iv_columns (sivars w s) = None"
  shows "loop_run L U (HashResultSet s) (map (row_hash U names) rows) (hash_calls h (length names) rows) w"
proof (cases rows)
  case Nil
  then show ?thesis
    using loop_run_end [OF assms(1), of w "HashResultSet s" U] assms(3,5) by (simp add: hash_calls_def)
next
  case (Cons r rs)
  then obtain e m where e: "next_hash L U s w = (Inr (row_hash U names r), upd_sivars s m
      (w\<lparr>env := e, calls := calls w @ step_calls h r @ metadata_calls h (length names)\<rparr>))"
    "todo e = rs" "iv_columns (m (sivars w s)) = Some (column_names names)"
    using next_hash_first [OF assms(1,2) _ _ _ assms(5,6), of r rs U] assms(3,4) by auto
  let ?v = "upd_sivars s m (w\<lparr>env := e, calls := calls w @ step_calls h r @ metadata_calls h (length names)\<rparr>)"
  have start: "at_start s h ?v" by (rule at_start_cong [OF assms(5)]) simp_all
  have "known_columns s names ?v" using e(3) by (simp add: known_columns_def)
  with start have "loop_run L U (HashResultSet s) (map (row_hash U names) rs) (rows_calls h rs) ?v"
    using assms(4) Cons e(2) by (intro hash_loop_known [OF assms(1)]) simp_all
  then show ?thesis
    using loop_run_next [where L = L and U = U and w = w and rs = "HashResultSet s" and r = "row_hash U names r"
        and f = m and c = "step_calls h r @ metadata_calls h (length names)" and e = e
        and out = "map (row_hash U names) rs" and cs = "rows_calls h rs"] e(1) Cons
    by (simp add: result_set_next_def hash_calls_def)
qed

text \<open>C10: rows as hashes. On a Database with \<open>results_as_hash\<close> set, \<open>execute\<close> returns the same
  rows in the same order, each as a hash from the names of the columns to the values of the array
  it stands for; columns that share a name have one entry, at the place of the first with the value
  of the last. The names and types are read from SQLite once, after the first step, and not at all
  when there is no row; everything else is as for arrays: the same statement, bindings and steps,
  and the statement is closed.\<close>

theorem execute_hashes:
  assumes "d_db (dbs w db) = Some d" and "d_flags (dbs w db) AND SQLITE3_RB_DATABASE_DISCARDED = 0"
    and "errinfo w = None" and "sql_utf8 U sql = Inr (RString b UTF_8 q f)"
    and "l_prepare L (prepare_call d q) (env w) = Return (SQLITE_OK, Some h, tail) e"
    and "accepts_bindings L h todo" and "binds_as U 1 (flatten [vars]) ops"
    and "yields_rows L h todo cur" and "todo e = rows" and "finalizes L h"
    and "RTEST (iv_results_as_hash (ivars w db))" and "named_columns L h names"
    and "list_all (\<lambda>r. valid_row r \<and> length r = length names) rows"
  shows "\<exists>w'. database_execute L U db sql vars w = Some (Inr (map (row_hash U names) rows), w') \<and>
    calls w' = calls w @ [prepare_call d q] @ binding_calls h ops @ hash_calls h (length names) rows @
      [StmtCall (Some h) Finalize] \<and>
    s_st (stmts w' (next_ref w)) = None \<and> db_handles_same w w' \<and> errinfo w' = None"
  using assms(9,11,13)
  by (intro execute_run [OF assms(1-7,10)]) (auto simp: result_set_of_def intro!: hash_loop [OF assms(8,12)])

section \<open>A concrete table\<close>

text \<open>A library whose queries have two columns with the given names.\<close>

type_synonym pair_env = "(sqlite3_value \<times> sqlite3_value) list \<times> sqlite3_value \<times> sqlite3_value"

definition pair_lib :: "string list \<Rightarrow> pair_env sqlite_lib" where
  "pair_lib names =
     \<lparr>l_int = (\<lambda>c e. (case c of StmtCall z Column_count \<Rightarrow> 2 | _ \<Rightarrow> SQLITE_OK, e)), l_i64 = (\<lambda>c e. (0, e)),
      l_text = (\<lambda>c e. (case c of StmtCall z (Column_name i) \<Rightarrow> Some (names ! unat i) | _ \<Rightarrow> None, e)),
      l_column = (\<lambda>c e. (case c of StmtCall z (Column i) \<Rightarrow> if i = 0 then fst (snd e) else snd (snd e) | _ \<Rightarrow> fst (snd e), e)),
      l_open = (\<lambda>c e. ((SQLITE_OK, Some 7), e)), l_file = (\<lambda>c e. ((SQLITE_OK, 3, True), e)),
      l_backup = (\<lambda>c e. (Some 5, e)), l_handle = (\<lambda>c e. (Some 7, e)),
      l_status = (\<lambda>c e. ((0, 0), e)),
      l_run = (\<lambda>c e. case c of
           StmtCall z Step \<Rightarrow> (case fst e of [] \<Rightarrow> Return SQLITE_DONE e | r # rs \<Rightarrow> Return SQLITE_ROW (rs, r))
         | _ \<Rightarrow> Return SQLITE_OK e),
      l_prepare = (\<lambda>c e. Return (SQLITE_OK, Some 9, []) e),
      l_exec = (\<lambda>c e. Return (SQLITE_OK, None) e),
      l_has_db_name = True, l_has_error_offset = True, l_has_dqs = True, l_long64 = True,
      l_little_endian = True\<rparr>"

abbreviation pair_rows :: "pair_env \<Rightarrow> sqlite3_value list list" where
  "pair_rows e \<equiv> map (\<lambda>(a, b). [a, b]) (fst e)"

abbreviation pair_row :: "pair_env \<Rightarrow> sqlite3_value list" where
  "pair_row e \<equiv> [fst (snd e), snd (snd e)]"

definition pair_world :: "rb_value \<Rightarrow> (pair_env, unit) world" where
  "pair_world as_hash =
     \<lparr>env = ([(int_column 5, int_column 6)], int_column 0, int_column 0), usr = (), pid = 1, errinfo = None, calls = [],
      dbs = (\<lambda>_. zero_sqlite3Ruby\<lparr>d_db := Some 7\<rparr>),
      ivars = (\<lambda>i. (ivars sample_world i)\<lparr>iv_results_as_hash := as_hash\<rparr>),
      stmts = stmts sample_world, sivars = sivars sample_world,
      backups = backups sample_world, aws = aws sample_world, insts = insts sample_world,
      aggmem = aggmem sample_world, arys = arys sample_world, hashes = hashes sample_world,
      next_ref = 2\<rparr>"

lemma pair_lib_laws:
  "yields_rows (pair_lib names) 9 pair_rows pair_row"
  "accepts_bindings (pair_lib names) 9 pair_rows" "finalizes (pair_lib names) 9"
  "length names = 2 \<Longrightarrow> named_columns (pair_lib names) 9 names"
  "l_prepare (pair_lib names) (prepare_call 7 q) (env (pair_world x)) = Return (SQLITE_OK, Some 9, []) (env (pair_world x))"
  "l_run (pair_lib names) (StmtCall (Some 9) Reset) (env (pair_world x)) = Return SQLITE_OK (env (pair_world x))"
  by (auto simp: yields_rows_def accepts_bindings_def binding_op_def finalizes_def pair_lib_def named_columns_def
      less_2_cases_iff split: list.split st_op.split)

lemma pair_world_fields:
  "d_db (dbs (pair_world x) 0) = Some 7" "d_flags (dbs (pair_world x) 0) AND SQLITE3_RB_DATABASE_DISCARDED = 0"
  "errinfo (pair_world x) = None" "next_ref (pair_world x) = 2" "iv_results_as_hash (ivars (pair_world x) 0) = x"
  "pair_rows (env (pair_world x)) = [[int_column 5, int_column 6]]"
  "list_all (\<lambda>r. valid_row r \<and> length r = 2) [[int_column 5, int_column 6]]"
  by (simp_all add: pair_world_def zero_sqlite3Ruby_def valid_row_def valid_type_def int_column_def)

lemma pair_values: "projr (column_value sample_user (int_column 5)) = RInteger 5"
  "projr (column_value sample_user (int_column 6)) = RInteger 6"
  by (simp_all add: column_value_def int_column_def LL2NUM_def)

theorem execute_hashes_witness:
  "\<exists>w'. database_execute (pair_lib [''a'', ''b'']) sample_user 0 (sql_text ''q'') (RArray []) (pair_world RTrue) =
      Some (Inr [RHash [(interned_utf8_cstr ''a'', RInteger 5), (interned_utf8_cstr ''b'', RInteger 6)]], w')"
proof -
  have "row_hash sample_user [''a'', ''b''] [int_column 5, int_column 6] =
      RHash [(interned_utf8_cstr ''a'', RInteger 5), (interned_utf8_cstr ''b'', RInteger 6)]"
    by (simp add: row_hash_def last_wins_def column_names_def pair_values interned_utf8_cstr_def
        rb_utf8_str_new_cstr_def rb_utf8_str_new_def cstr_def nul_def)
  moreover have "binds_as sample_user 1 (flatten [RArray []]) []" by simp
  ultimately show ?thesis
    using execute_hashes [where U = sample_user and w = "pair_world RTrue" and vars = "RArray []" and ops = "[]"
        and names = "[''a'', ''b'']", OF pair_world_fields(1-3) sql_utf8_text pair_lib_laws(5,2) _ pair_lib_laws(1)
        pair_world_fields(6) pair_lib_laws(3) _ pair_lib_laws(4)] pair_world_fields(5,7)
    by (auto simp: RTEST_def numeral_2_eq_2)
qed

end
