(* ===== verification/First_Value.thy ===== *)
theory First_Value
  imports Rows
begin

unbundle bit_operations_syntax

text \<open>
  \<open>Database#query\<close> with a block and \<open>get_first_value\<close>, which is made with it: what is closed,
  what is left open, and which value is the first.
\<close>

section \<open>\<open>query\<close>\<close>

context query_base
begin

lemma keeps_statement_execute: "keeps I (statement_execute L U s vars)"
  unfolding statement_execute_def active_p_def done_p_def connection_def build_result_set_def
  by (intro keeps_bindM keeps_ret keeps_if keeps_getM keeps_fail keeps_case_option keeps_bind_params keeps_step
      keeps_counts keeps_member [where m = "reset_bang L U s"]) (simp add: guarded_methods_def)

end

lemma execute_result: "statement_execute L U s vars v = (Inr rs, t) \<Longrightarrow> rs_stmt rs = s"
  by (auto simp: statement_execute_def build_result_set_def bindM_returns_iff connection_def)

lemma query_run:
  assumes "statement_new L U db sql w = (Inr (s, remainder), v)"
  shows "database_query L U db sql vars w = statement_execute L U s [vars] v"
  using assms by (simp add: database_query_def)

lemma query_each_run:
  assumes "database_query L U db sql vars w = (Inr rs, t)" and "block rs t = Some (y, u)" and "\<forall>z. y \<noteq> Inl (Undefined z)"
  shows "database_query_each L U db sql vars block w =
    (case statement_close L U (rs_stmt rs) u of (Inl x, u') \<Rightarrow> Some (Inl x, u') | (Inr z, u') \<Rightarrow> Some (y, u'))"
proof -
  have "database_query_each L U db sql vars block w =
      ensureP (block rs) (act (bindM (result_set_close L U rs) (\<lambda>_. ret ()))) t"
    using assms(1) by (simp add: database_query_each_def)
  also have "\<dots> = (case bindM (statement_close L U (rs_stmt rs)) (\<lambda>_. ret ()) u of
      (Inl x, u') \<Rightarrow> Some (Inl x, u') | (Inr z, u') \<Rightarrow> Some (y, u'))"
    using assms(2,3) by (cases y; cases "projl y")
      (auto simp: ensureP_def result_set_close_def split: prod.splits sum.splits)
  finally show ?thesis by (simp add: bindM_def split: prod.splits sum.splits)
qed

text \<open>C35: what \<open>Database#query\<close> with a block closes. When the block ends, in whatever way, with its
  result set still open, \<open>sqlite3_finalize\<close> is called on the statement, once; then the object is closed and
  the outcome of the block is the outcome of \<open>query\<close>, unless an exception leaves \<open>sqlite3_finalize\<close> itself
  (through a callback), which is then the outcome while the object keeps the handle. When the block has
  closed the result set itself, the second close raises, and a value of the block is lost. When running
  the statement raises, because an argument cannot be bound or a command fails, the block is not called
  and nothing is closed: the statement stays open until it is collected.\<close>

theorem query_closes:
  assumes "statement_new L U db sql w = (Inr (s, remainder), v)" and "s_st (stmts v s) = Some h"
    and "statement_execute L U s [vars] v = (outcome, t)"
    and "\<forall>rs. outcome = Inr rs \<longrightarrow> block rs t = Some (y, u)" and "\<forall>z. y \<noteq> Inl (Undefined z)"
  shows "case outcome of
      Inl x \<Rightarrow> database_query_each L U db sql vars block w = Some (Inl x, t) \<and> s_st (stmts t s) = Some h
    | Inr rs \<Rightarrow>
        (s_st (stmts u s) = Some h \<longrightarrow>
          (\<exists>r u'. database_query_each L U db sql vars block w = Some (r, u') \<and>
            calls u' = calls u @ [StmtCall (Some h) Finalize] \<and>
            (case fst (sqlite_run (callback_handler L U) (l_run L) (StmtCall (Some h) Finalize) u) of
               Inr z \<Rightarrow> r = y \<and> s_st (stmts u' s) = None
             | Inl x \<Rightarrow> r = Inl x \<and> s_st (stmts u' s) = Some h))) \<and>
        (s_st (stmts u s) = None \<longrightarrow> database_query_each L U db sql vars block w =
          Some (Inl (Raised (rb_error SQLite3_Exception ''cannot use a closed statement'')), u))"
proof (cases outcome)
  case (Inl x)
  have "using_handle s h (calls v) v" using assms(2) by (simp add: using_handle_def)
  from keepsE [OF statement_query.keeps_statement_execute this assms(3)] have "s_st (stmts t s) = Some h"
    by (simp add: using_handle_def)
  with assms(1,3) Inl show ?thesis by (simp add: database_query_each_def query_run)
next
  case (Inr rs)
  then have "database_query L U db sql vars w = (Inr rs, t)" "block rs t = Some (y, u)" "rs_stmt rs = s"
    using query_run [OF assms(1)] assms(3,4) execute_result by auto
  note run = query_each_run [where block = block, OF this(1,2) assms(5), unfolded this(3)]
  have "s_st (stmts u s) = None \<longrightarrow> database_query_each L U db sql vars block w =
      Some (Inl (Raised (rb_error SQLite3_Exception ''cannot use a closed statement'')), u)"
    using run by (simp add: statement_close_def open_stmt.guarded_closed)
  moreover have "\<exists>r u'. database_query_each L U db sql vars block w = Some (r, u') \<and>
      calls u' = calls u @ [StmtCall (Some h) Finalize] \<and>
      (case fst (sqlite_run (callback_handler L U) (l_run L) (StmtCall (Some h) Finalize) u) of
         Inr z \<Rightarrow> r = y \<and> s_st (stmts u' s) = None
       | Inl x \<Rightarrow> r = Inl x \<and> s_st (stmts u' s) = Some h)" if st: "s_st (stmts u s) = Some h"
    using run st by (cases rule: close_cases [OF st, of L U]) simp_all
  ultimately show ?thesis using Inr by simp
qed

section \<open>The first value\<close>

text \<open>
  Which column \<open>get_first_value\<close> reads: the first, but of a hash the last column that has the
  name of the first.
\<close>

definition last_namesake :: "rb_value list \<Rightarrow> nat" where
  "last_namesake names = length names - 1 - length (takeWhile (\<lambda>k. k \<noteq> hd names) (rev names))"

lemma map_of_first: "x \<in> set ks \<Longrightarrow> length ks = length vs \<Longrightarrow>
    map_of (zip ks vs) x = Some (vs ! length (takeWhile (\<lambda>k. k \<noteq> x) ks))"
  by (induction ks vs rule: list_induct2') auto

lemma takeWhile_found: "x \<in> set ks \<Longrightarrow> length (takeWhile (\<lambda>k. k \<noteq> x) ks) < length ks"
  by (induction ks) auto

lemma hash_aref_last:
  assumes "length ks = length vs" and "ks \<noteq> []"
  shows "hash_aref (last_wins (zip ks vs)) (hd ks) = vs ! last_namesake ks"
proof -
  let ?n = "length (takeWhile (\<lambda>k. k \<noteq> hd ks) (rev ks))"
  have "map_of (last_wins (zip ks vs)) (hd ks) = map_of (zip (rev ks) (rev vs)) (hd ks)"
    using assms(1) by (simp add: pairs_to_h_last_wins [symmetric] map_of_pairs_to_h zip_rev)
  also have "\<dots> = Some (rev vs ! ?n)" using assms by (intro map_of_first) simp_all
  also have "?n < length ks"
    using assms(2) takeWhile_found [of "hd ks" "rev ks"] by simp
  then have "rev vs ! ?n = vs ! last_namesake ks"
    using assms(1) by (simp add: rev_nth last_namesake_def)
  finally show ?thesis by (simp add: hash_aref_def)
qed

text \<open>The value, from the rows of the query.\<close>

definition value_of_rows :: "'u rb_user \<Rightarrow> bool \<Rightarrow> string list \<Rightarrow> sqlite3_value list list \<Rightarrow> rb_value" where
  "value_of_rows U as_hash names rows =
     (case rows of
        [] \<Rightarrow> RNil
      | r # rs \<Rightarrow> projr (column_value U (r ! (if as_hash then last_namesake (column_names names) else 0))))"

lemma first_value_end:
  assumes "yields_rows L h todo cur" and "todo (env w) = []" and "at_start s h w"
  shows "\<exists>u. first_value L U db (result_set_of db s w) w = (Inr RNil, u) \<and> s_st (stmts u s) = s_st (stmts w s)"
proof -
  obtain e where e: "step L U s w = (Inr RNil, upd_stmt s (\<lambda>s. s\<lparr>s_done_p := 1\<rparr>)
      (w\<lparr>env := e, calls := calls w @ step_calls h []\<rparr>))"
    using step_end [OF assms(1,2), of s U] assms(3) unfolding at_start_def by auto
  then have "result_set_next L U (result_set_of db s w) w = (Inr RNil, upd_stmt s (\<lambda>s. s\<lparr>s_done_p := 1\<rparr>)
      (w\<lparr>env := e, calls := calls w @ step_calls h []\<rparr>))"
    by (simp add: result_set_of_def result_set_next_def next_hash_def done_p_def rb_bool_def RTEST_def [of RTrue])
  then show ?thesis by (simp add: first_value_def)
qed

lemma first_value_array:
  assumes "yields_rows L h todo cur" and "todo (env w) = r # rs" and "valid_row r" and "r \<noteq> []" and "at_start s h w"
    and "\<not> RTEST (iv_results_as_hash (ivars w db))"
  shows "\<exists>u. first_value L U db (ResultSet s) w = (Inr (projr (column_value U (r ! 0))), u) \<and>
    s_st (stmts u s) = s_st (stmts w s)"
proof -
  obtain e where "step L U s w = (Inr (row_array U r), w\<lparr>env := e, calls := calls w @ step_calls h r\<rparr>)"
    using step_hash [OF assms(1-3,5), of U] by metis
  moreover have "row_first (row_array U r) = projr (column_value U (r ! 0))"
    using assms(4) by (cases r) (simp_all add: row_array_def row_first_def first_or_nil_def)
  ultimately show ?thesis using assms(6) by (simp add: first_value_def result_set_next_def)
qed

lemma first_value_hash:
  assumes "yields_rows L h todo cur" and "named_columns L h names" and "todo (env w) = r # rs"
    and "valid_row r" and "length r = length names" and "names \<noteq> []" and "at_start s h w"
    and "iv_columns (sivars w s) = None" and "RTEST (iv_results_as_hash (ivars w db))"
  shows "\<exists>u. first_value L U db (HashResultSet s) w =
      (Inr (projr (column_value U (r ! last_namesake (column_names names)))), u) \<and>
    s_st (stmts u s) = s_st (stmts w s)"
proof -
  obtain e m where e: "next_hash L U s w = (Inr (row_hash U names r), upd_sivars s m
      (w\<lparr>env := e, calls := calls w @ step_calls h r @ metadata_calls h (length names)\<rparr>))"
    "iv_columns (m (sivars w s)) = Some (column_names names)"
    using next_hash_first [OF assms(1-5,7,8), of U] by blast
  let ?u = "upd_sivars s m (w\<lparr>env := e, calls := calls w @ step_calls h r @ metadata_calls h (length names)\<rparr>)"
  have "columns L s ?u = (Inr (RArray (column_names names)), ?u)"
    using e(2) by (intro columns_known) (simp add: known_columns_def)
  moreover have "row_by_name (row_hash U names r) (RArray (column_names names)) =
      Inr (projr (column_value U (r ! last_namesake (column_names names))))"
    using hash_aref_last [of "column_names names" "map (\<lambda>v. projr (column_value U v)) r"] assms(5,6)
    by (cases names) (auto simp: row_by_name_def row_hash_def first_or_nil_def column_names_def last_namesake_def)
  ultimately show ?thesis
    using e(1) assms(9) by (simp add: first_value_def result_set_next_def result_set_columns_def)
qed

lemma first_value_run:
  assumes "yields_rows L h todo cur" and "named_columns L h names" and "todo (env w) = rows"
    and "list_all (\<lambda>r. valid_row r \<and> length r = length names) rows" and "names \<noteq> []" and "at_start s h w"
    and "iv_columns (sivars w s) = None" and "as_hash = RTEST (iv_results_as_hash (ivars w db))"
  shows "\<exists>u. first_value L U db (result_set_of db s w) w = (Inr (value_of_rows U as_hash names rows), u) \<and>
    s_st (stmts u s) = s_st (stmts w s)"
proof (cases rows)
  case Nil
  with assms(3) first_value_end [OF assms(1) _ assms(6)] show ?thesis by (simp add: value_of_rows_def)
next
  case (Cons r rs)
  then have r: "todo (env w) = r # rs" "valid_row r" "length r = length names" "r \<noteq> []"
    using assms(3-5) by auto
  show ?thesis
    using first_value_array [OF assms(1) r(1,2,4) assms(6)] first_value_hash [OF assms(1,2) r(1-3) assms(5-7)]
      assms(8) Cons
    by (cases as_hash) (simp_all add: result_set_of_def value_of_rows_def)
qed

lemma get_first_value_run:
  assumes "d_db (dbs w db) = Some d" and "d_flags (dbs w db) AND SQLITE3_RB_DATABASE_DISCARDED = 0"
    and "errinfo w = None" and "sql_utf8 U sql = Inr (RString b UTF_8 q f)"
    and "l_prepare L (prepare_call d q) (env w) = Return (SQLITE_OK, Some h, tail) e"
    and "l_run L (StmtCall (Some h) Reset) e = Return z e'"
    and "accepts_bindings L h todo" and "binds_as U 1 (flatten [RArray vars]) ops"
    and "yields_rows L h todo cur" and "todo e' = rows" and "finalizes L h" and "named_columns L h names" and "names \<noteq> []"
    and "list_all (\<lambda>r. valid_row r \<and> length r = length names) rows" and "\<forall>e. cur e \<noteq> [] \<and> length (cur e) \<le> 32767"
    and "as_hash = RTEST (iv_results_as_hash (ivars w db))"
  shows "\<exists>w'. get_first_value L U db sql vars w = Some (Inr (value_of_rows U as_hash names rows), w') \<and>
    s_st (stmts w' (next_ref w)) = None"
proof -
  let ?s = "next_ref w" and ?w = "new_statement db d h q e w"
  have new: "statement_new L U db sql w = (Inr (?s, rb_utf8_str_new_cstr tail), ?w)"
    by (rule statement_new_run [OF assms(1,4,5)])
  have use: "require_usable ?s ?w = (Inr (Some h), ?w)"
    using assms(2) by (intro usable_open [of _ _ db]) (simp_all add: new_statement_def)
  have fields: "env ?w = e" "iv_connection (sivars ?w ?s) = Some db" "errinfo ?w = None" "ivars ?w = ivars w"
    using assms(3) by (simp_all add: new_statement_def)
  obtain e1 where e1: "todo e1 = rows" and
    ready: "require_usable ?s (executed ?s h ops e1 ?w) = (Inr (Some h), executed ?s h ops e1 ?w)" and
    exec: "statement_execute L U ?s [RArray vars] ?w = (Inr (result_set_of db ?s ?w), executed ?s h ops e1 ?w)"
    using statement_execute_run [OF use _ assms(7,8,9) _ fields(2), of z e'] assms(6,10,15) fields(1) by auto
  let ?c = "executed ?s h ops e1 ?w"
  have "at_start ?s h ?c" using ready fields(3) by (simp add: at_start_def)
  moreover have "iv_columns (sivars ?c ?s) = None" "ivars ?c = ivars w" "s_st (stmts ?c ?s) = Some h"
    by (simp_all add: executed_def new_statement_def)
  ultimately obtain u where u: "first_value L U db (result_set_of db ?s ?c) ?c =
      (Inr (value_of_rows U as_hash names rows), u)" "s_st (stmts u ?s) = Some h"
    using first_value_run [OF assms(9,12) _ assms(14,13), of ?c ?s as_hash db U] e1 assms(16) by auto
  have rs: "result_set_of db ?s ?c = result_set_of db ?s ?w"
    using fields(4) \<open>ivars ?c = ivars w\<close> by (simp add: result_set_of_def)
  have "database_query L U db sql (RArray vars) w = (Inr (result_set_of db ?s ?w), ?c)"
    using query_run [OF new] exec by simp
  moreover obtain t where "statement_close L U ?s u = (Inr ?s, t)" "s_st (stmts t ?s) = None"
    using close_run [OF assms(11) u(2), of U] by auto
  ultimately show ?thesis
    using query_each_run [of L U db sql "RArray vars" w "result_set_of db ?s ?w" ?c
        "\<lambda>rs. act (first_value L U db rs)" "Inr (value_of_rows U as_hash names rows)" u] u(1) rs
    by (simp add: get_first_value_def)
qed

text \<open>C36: \<open>get_first_value\<close> returns the first column of the first row, \<open>nil\<close> when there is no
  row, and closes its statement, also though the block returns from the method. With
  \<open>results_as_hash\<close> the column is looked up by its name, so it is not the first but the last
  column that bears the name of the first: the two modes agree when the first name is borne by one
  column only.\<close>

theorem get_first_value_reads:
  assumes "d_db (dbs w db) = Some d" and "d_flags (dbs w db) AND SQLITE3_RB_DATABASE_DISCARDED = 0"
    and "errinfo w = None" and "sql_utf8 U sql = Inr (RString b UTF_8 q f)"
    and "l_prepare L (prepare_call d q) (env w) = Return (SQLITE_OK, Some h, tail) e"
    and "l_run L (StmtCall (Some h) Reset) e = Return z e'"
    and "accepts_bindings L h todo" and "binds_as U 1 (flatten [RArray vars]) ops"
    and "yields_rows L h todo cur" and "todo e' = rows" and "finalizes L h" and "named_columns L h names" and "names \<noteq> []"
    and "list_all (\<lambda>r. valid_row r \<and> length r = length names) rows" and "\<forall>e. cur e \<noteq> [] \<and> length (cur e) \<le> 32767"
    and "as_hash = RTEST (iv_results_as_hash (ivars w db))"
  shows "\<exists>w'. get_first_value L U db sql vars w =
      Some (Inr (case rows of [] \<Rightarrow> RNil | r # rs \<Rightarrow> projr (column_value U
        (r ! (if as_hash then last_namesake (column_names names) else 0)))), w') \<and>
    s_st (stmts w' (next_ref w)) = None"
  using get_first_value_run [OF assms] unfolding value_of_rows_def .

text \<open>Two columns with one name: the value is the second.\<close>

theorem get_first_value_reads_witness:
  "\<exists>w'. get_first_value (pair_lib [''a'', ''a'']) sample_user 0 (sql_text ''q'') [] (pair_world RTrue) =
      Some (Inr (RInteger 6), w')"
proof -
  have rows: "pair_rows (env (pair_world RTrue)) = [[int_column 5, int_column 6]]" by (rule pair_world_fields(6))
  have one: "binds_as sample_user 1 (flatten [RArray []]) []" "\<forall>e. pair_row e \<noteq> [] \<and> length (pair_row e) \<le> 32767"
    "last_namesake (column_names [''a'', ''a'']) = 1"
    by (simp_all add: last_namesake_def column_names_def)
  from get_first_value_reads [OF pair_world_fields(1-3) sql_utf8_text pair_lib_laws(5,6,2) one(1) pair_lib_laws(1) rows
      pair_lib_laws(3) pair_lib_laws(4) _ _ one(2) refl, of "[''a'', ''a'']"]
  show ?thesis using pair_world_fields(5,7) by (auto simp: one(3) pair_values RTEST_def numeral_2_eq_2)
qed

definition open_world :: "(unit, unit) world" where
  "open_world = upd_db 0 (\<lambda>d. d\<lparr>d_db := Some 7\<rparr>) sample_world"

theorem query_closes_witness:
  "\<exists>x t. database_query_each sample_lib sample_user 0 (sql_text ''q'') (RArray [RTrue])
      (\<lambda>rs. act (ret RNil)) open_world = Some (Inl (Raised x), t) \<and> s_st (stmts t 0) = Some 9"
proof -
  have world: "d_db (dbs open_world 0) = Some 7" "next_ref open_world = 0"
    by (simp_all add: open_world_def sample_defs)
  then have new: "statement_new sample_lib sample_user 0 (sql_text ''q'') open_world =
      (Inr (0, rb_utf8_str_new_cstr []), new_statement 0 7 9 ''q'' () open_world)"
    using statement_new_run [of open_world 0 7 sample_user "sql_text ''q''" False "''q''" False sample_lib 9 "[]" "()"]
    by (simp add: sample_lib_def)
  let ?v = "new_statement 0 7 9 ''q'' () open_world"
  have st: "s_st (stmts ?v 0) = Some 9" by (simp add: new_statement_def open_world_def sample_defs)
  have use: "require_usable 0 ?v = (Inr (Some 9), ?v)"
    by (rule usable_open [of _ _ 0]) (simp_all add: new_statement_def open_world_def sample_defs)
  let ?r = "upd_stmt 0 (\<lambda>s. s\<lparr>s_done_p := 0\<rparr>) (?v\<lparr>calls := calls ?v @ [StmtCall (Some 9) Reset], env := ()\<rparr>)"
  have reset: "reset_bang sample_lib sample_user 0 ?v = (Inr 0, ?r)"
    by (intro reset_run [OF use]) (simp add: sqlite_run_def sample_lib_def)
  have "require_usable 0 ?r = (Inr (Some 9), ?r)"
    by (rule require_usable_cong [OF _ _ _ use]) simp_all
  then obtain x where "bind_params sample_lib sample_user 0 [RArray [RTrue]] ?r = (Inl (Raised x), ?r)"
    by (auto simp: bind_params_def bind_param_def parameter_index_def Let_def int_in_range_def int_fits_def bind_call_def)
  with reset have run: "statement_execute sample_lib sample_user 0 [RArray [RTrue]] ?v = (Inl (Raised x), ?r)"
    by (simp add: statement_execute_def active_p_def done_p_def bindM_def rb_bool_def RTEST_def [of RTrue] RTEST_def [of RFalse])
  from query_closes [OF new st run, of "\<lambda>rs. act (ret RNil)" "Inr RNil" ?r]
  show ?thesis by auto
qed

end
