(* ===== verification/Table_Info.thy ===== *)
theory Table_Info
  imports Rows
begin

text \<open>
  \<open>Pragmas#table_info\<close> (\<open>lib/sqlite3/pragmas.rb\<close>) and the texts it handles: the default value of
  a column comes as an SQL literal, which \<open>tweak_default\<close> takes apart again. \<open>Database.quote\<close> writes
  such literals.
\<close>

section \<open>Literals\<close>

abbreviation newline :: char where
  "newline \<equiv> CHR 0x0A"

abbreviation quote_char :: char where
  "quote_char \<equiv> CHR 0x27"

definition double :: "char \<Rightarrow> string \<Rightarrow> string" where
  "double q s = concat (map (\<lambda>c. if c = q then [q, q] else [c]) s)"

text \<open>\<open>gsub\<close> with an ASCII pattern needs a string that is empty or ASCII-compatible; it gives a plain String.\<close>

definition quote :: "rb_value \<Rightarrow> abort + rb_value" where
  "quote v =
     (case v of
        RString b e s f \<Rightarrow>
          if ascii_compat e \<or> s = [] then Inr (RString False e (double quote_char s) False)
          else Inl (Raised (rb_error CompatibilityError ''incompatible character encodings''))
      | _ \<Rightarrow> Inl (Raised (rb_error NoMethodError ''undefined method 'gsub' '')))"

text \<open>\<open>gsub\<close> of a doubled quote by a single one, from left to right.\<close>

fun undouble :: "char \<Rightarrow> string \<Rightarrow> string" where
  "undouble q (a # b # s) = (if a = q \<and> b = q then q # undouble q s else a # undouble q (b # s))"
| "undouble q s = s"

text \<open>
  The regular expressions of \<open>tweak_default\<close>: in Ruby \<open>^\<close> and \<open>$\<close> match at the ends of every line,
  and with the option \<open>m\<close> a dot matches a newline. \<open>/^null$/i\<close> matches a text that has a line
  \<open>null\<close>; \<open>/^'(.*)'$/m\<close> goes from the first quote that begins a line to the last quote that ends one.
\<close>

fun split_lines :: "string \<Rightarrow> string list" where
  "split_lines [] = [[]]"
| "split_lines (c # s) = (if c = newline then [] # split_lines s else (c # hd (split_lines s)) # tl (split_lines s))"

definition null_line :: "string \<Rightarrow> bool" where
  "null_line l \<longleftrightarrow> map downcase_char l = ''null''"

definition matches_null :: "string \<Rightarrow> bool" where
  "matches_null s \<longleftrightarrow> list_ex null_line (split_lines s)"

definition quoted_part :: "char \<Rightarrow> string \<Rightarrow> string option" where
  "quoted_part q s =
     (let n = length s;
          starts = filter (\<lambda>i. s ! i = q \<and> (i = 0 \<or> s ! (i - 1) = newline)) [0..<n];
          ends = filter (\<lambda>j. s ! j = q \<and> (Suc j = n \<or> s ! Suc j = newline)) [0..<n]
      in if starts = [] \<or> ends = [] \<or> last ends \<le> hd starts then None
         else Some (take (last ends - hd starts - 1) (drop (Suc (hd starts)) s)))"

text \<open>
  The cases of \<open>tweak_default\<close>. Matching raises for a text in an encoding that is not ASCII-compatible (a
  default internal encoding may be one) and for one that is not valid in its encoding; \<open>nil\<close> and values
  that are no strings match nothing.
\<close>

definition unquoted :: "rb_encoding \<Rightarrow> string \<Rightarrow> rb_value option" where
  "unquoted e s =
     (if matches_null s then Some RNil
      else (case quoted_part quote_char s of
          Some t \<Rightarrow> Some (RString False e (undouble quote_char t) False)
        | None \<Rightarrow> map_option (\<lambda>t. RString False e (undouble (CHR 0x22) t) False) (quoted_part (CHR 0x22) s)))"

definition tweak_value :: "'u rb_user \<Rightarrow> rb_value \<Rightarrow> abort + rb_value" where
  "tweak_value U v =
     (case v of
        RString b e s f \<Rightarrow>
          if \<not> ascii_compat e then Inl (Raised (rb_error CompatibilityError ''incompatible encoding regexp match''))
          else if \<not> u_valid_encoding U e s then Inl (Raised (rb_error ArgumentError ''invalid byte sequence''))
          else Inr (case unquoted e s of None \<Rightarrow> v | Some t \<Rightarrow> t)
      | _ \<Rightarrow> Inr v)"

definition dflt_value :: rb_value where
  "dflt_value = interned_utf8_cstr ''dflt_value''"

definition tweak_default :: "'u rb_user \<Rightarrow> (rb_value \<times> rb_value) list \<Rightarrow> abort + (rb_value \<times> rb_value) list" where
  "tweak_default U hash =
     (case map_of hash dflt_value of
        None \<Rightarrow> Inr hash
      | Some v \<Rightarrow> map_sum id (\<lambda>t. hash_aset dflt_value t hash) (tweak_value U v))"

section \<open>Versions\<close>

text \<open>\<open>to_i\<close> of the parts of a version, which are digits.\<close>

definition digits_to_i :: "string \<Rightarrow> nat" where
  "digits_to_i s = foldl (\<lambda>n c. 10 * n + (of_char c - 48)) 0 (takeWhile (\<lambda>c. c \<in> set ''0123456789'') s)"

fun split_dots :: "string \<Rightarrow> string list" where
  "split_dots [] = [[]]"
| "split_dots (c # s) = (if c = CHR ''.'' then [] # split_dots s else (c # hd (split_dots s)) # tl (split_dots s))"

fun compare_parts :: "nat list \<Rightarrow> nat list \<Rightarrow> int" where
  "compare_parts [] [] = 0"
| "compare_parts (a # as) [] = (if 0 < a then 1 else compare_parts as [])"
| "compare_parts [] (b # bs) = (if 0 < b then -1 else compare_parts [] bs)"
| "compare_parts (a # as) (b # bs) = (if a < b then -1 else if b < a then 1 else compare_parts as bs)"

definition version_compare :: "string \<Rightarrow> string \<Rightarrow> int" where
  "version_compare v1 v2 = compare_parts (map digits_to_i (split_dots v1)) (map digits_to_i (split_dots v2))"

section \<open>\<open>table_info\<close>\<close>

text \<open>\<open>downcase\<close> of the type, a text; the values of columns are no symbols. Only the letters of ASCII are folded.\<close>

definition downcase_type :: "(rb_value \<times> rb_value) list \<Rightarrow> abort + (rb_value \<times> rb_value) list" where
  "downcase_type hash =
     (case map_of hash (interned_utf8_cstr ''type'') of
        None \<Rightarrow> Inr hash
      | Some v \<Rightarrow>
          if \<not> RTEST v then Inr hash
          else if rb_type_of v = T_STRING then Inr (hash_aset (interned_utf8_cstr ''type'') (downcase v) hash)
          else Inl (Raised (rb_error NoMethodError ''undefined method 'downcase' '')))"

definition table_info_row :: "'u rb_user \<Rightarrow> bool \<Rightarrow> rb_value \<Rightarrow> abort + rb_value" where
  "table_info_row U needs_tweak_default row =
     (case row of
        RHash hash \<Rightarrow>
          (case (if needs_tweak_default then tweak_default U hash else Inr hash) of
             Inl x \<Rightarrow> Inl x
           | Inr tweaked \<Rightarrow> map_sum id RHash (downcase_type tweaked))
      | _ \<Rightarrow> Inr row)"

text \<open>The block that \<open>table_info\<close> gives to \<open>each\<close>.\<close>

definition table_info_body ::
  "'u rb_user \<Rightarrow> bool \<Rightarrow> rb_value \<Rightarrow> (rb_value \<Rightarrow> ('e, 'u, 'b) prog) \<Rightarrow> rb_value \<Rightarrow> ('e, 'u, 'b) prog" where
  "table_info_body U needs_tweak_default names block row =
     bindP (act (liftE (zip_to_h names row))) (\<lambda>new_row.
     bindP (act (liftE (table_info_row U needs_tweak_default new_row))) block)"

text \<open>The block of the caller gets each row; without a block the rows are collected.\<close>

definition table_info_each ::
  "'e sqlite_lib \<Rightarrow> 'u rb_user \<Rightarrow> nat \<Rightarrow> string \<Rightarrow> (rb_value \<Rightarrow> ('e, 'u, 'b) prog) \<Rightarrow> ('e, 'u, 'b list) prog" where
  "table_info_each L U db table block =
     bindP (act (statement_new L U db (sql_text (''PRAGMA table_info('' @ table @ '')'')))) (\<lambda>(stmt, remainder).
     bindP (act (columns L stmt)) (\<lambda>names.
     bindP (act (libversion L)) (\<lambda>version.
     bindP (act (liftE (NUM2INT version))) (\<lambda>n.
     bindP (statement_each L U stmt
       (table_info_body U (0 < version_compare (show_int (sint n)) ''3.3.7'') names block)) (\<lambda>result.
     bindP (act (statement_close L U stmt)) (\<lambda>_.
     act (ret result)))))))"

definition table_info :: "'e sqlite_lib \<Rightarrow> 'u rb_user \<Rightarrow> nat \<Rightarrow> string \<Rightarrow> ('e, 'u, rb_value list) prog" where
  "table_info L U db table = table_info_each L U db table collect"

section \<open>What comes back of a default value\<close>

lemma undouble_double: "undouble q (double q s) = s"
proof (induction s)
  case Nil
  show ?case by (simp add: double_def)
next
  case (Cons c s)
  have "undouble q (c # t) = c # undouble q t" if "c \<noteq> q" for t
    using that by (cases t) simp_all
  with Cons show ?case by (auto simp: double_def)
qed

lemma quoted_part_whole: "quoted_part q (q # s @ [q]) = Some s"
proof -
  let ?s = "q # s @ [q]"
  have "[0..<length ?s] = 0 # [1..<length ?s]" by (simp add: upt_rec)
  moreover have "[0..<length ?s] = [0..<Suc (length s)] @ [Suc (length s)]" by simp
  moreover have "?s ! Suc (length s) = q" by (simp add: nth_append)
  ultimately show ?thesis
    by (simp add: quoted_part_def Let_def)
qed

lemma split_lines_not_Nil [simp]: "split_lines s \<noteq> []"
  by (induction s) auto

lemma split_lines_snoc:
  "q \<noteq> newline \<Longrightarrow> split_lines (s @ [q]) = butlast (split_lines s) @ [last (split_lines s) @ [q]]"
proof (induction s)
  case (Cons c s)
  then show ?case by (cases "split_lines s") (auto simp: hd_append tl_append split: list.split)
qed simp

lemma split_lines_double: "q \<noteq> newline \<Longrightarrow> split_lines (double q s) = map (double q) (split_lines s)"
  by (induction s) (auto simp: double_def hd_map map_tl)

lemma null_line_quotes [simp]:
  "\<not> null_line (quote_char # l)" "\<not> null_line (l @ [quote_char])"
  by (auto simp: null_line_def downcase_char_def append_eq_Cons_conv)

lemma null_line_double [simp]: "null_line (double quote_char l) \<longleftrightarrow> null_line l"
proof (cases "quote_char \<in> set l")
  case False
  then have "double quote_char l = l" by (induction l) (auto simp: double_def)
  then show ?thesis by simp
next
  case True
  have "\<not> null_line t" if "quote_char \<in> set t" for t
  proof
    assume "null_line t"
    moreover have "downcase_char quote_char \<in> set (map downcase_char t)" using that by simp
    ultimately show False by (auto simp: null_line_def downcase_char_def)
  qed
  moreover have "quote_char \<in> set (double quote_char l)" using True by (auto simp: double_def)
  ultimately show ?thesis using True by blast
qed

text \<open>The lines of a text but the first and the last.\<close>

definition inner_lines :: "string \<Rightarrow> string list" where
  "inner_lines s = butlast (tl (split_lines s))"

lemma matches_null_literal:
  "matches_null (quote_char # double quote_char s @ [quote_char]) \<longleftrightarrow> list_ex null_line (inner_lines s)"
proof -
  obtain l ls where ls: "split_lines s = l # ls" by (cases "split_lines s") simp_all
  then have "split_lines (double quote_char s @ [quote_char]) =
      butlast (map (double quote_char) (l # ls)) @ [last (map (double quote_char) (l # ls)) @ [quote_char]]"
    by (simp only: split_lines_snoc split_lines_double char.inject simp_thms)
  then show ?thesis
    by (cases ls) (simp_all add: matches_null_def inner_lines_def ls map_butlast [symmetric] last_map list_ex_iff)
qed

text \<open>The literal of a text, as it stands in the SQL of a table.\<close>

definition sql_literal :: "string \<Rightarrow> string" where
  "sql_literal s = quote_char # double quote_char s @ [quote_char]"

lemma unquoted_literal:
  "unquoted e (sql_literal s) = Some (if list_ex null_line (inner_lines s) then RNil else RString False e s False)"
  by (simp add: unquoted_def sql_literal_def matches_null_literal quoted_part_whole undouble_double)

section \<open>The rows of \<open>table_info\<close>\<close>

text \<open>
  The columns that SQLite documents for \<open>PRAGMA table_info\<close>, with texts for the type and for a default
  value, if there is one.
\<close>

definition table_columns :: "string list" where
  "table_columns = [''cid'', ''name'', ''type'', ''notnull'', ''dflt_value'', ''pk'']"

definition table_row :: "'u rb_user \<Rightarrow> sqlite3_value list \<Rightarrow> bool" where
  "table_row U r \<longleftrightarrow> valid_row r \<and> length r = 6 \<and> v_type (r ! 2) = SQLITE_TEXT \<and>
     (v_type (r ! 4) = SQLITE_TEXT \<and> u_valid_encoding U UTF_8 (v_text (r ! 4)) \<or> v_type (r ! 4) = SQLITE_NULL)"

text \<open>A value without \<open>tweak_default\<close>, and what \<open>table_info\<close> makes of a row of arrays.\<close>

abbreviation plain :: "'u rb_user \<Rightarrow> sqlite3_value \<Rightarrow> rb_value" where
  "plain U v \<equiv> projr (column_value U v)"

definition default_of :: "'u rb_user \<Rightarrow> sqlite3_value \<Rightarrow> rb_value" where
  "default_of U v =
     (if v_type v = SQLITE_TEXT
      then (case unquoted UTF_8 (v_text v) of None \<Rightarrow> plain U v | Some t \<Rightarrow> t) else plain U v)"

definition table_hash :: "'u rb_user \<Rightarrow> sqlite3_value list \<Rightarrow> rb_value" where
  "table_hash U r = RHash (zip (column_names table_columns)
     [plain U (r ! 0), plain U (r ! 1), downcase (plain U (r ! 2)), plain U (r ! 3), default_of U (r ! 4), plain U (r ! 5)])"

lemma six_elements:
  assumes "length r = 6"
  shows "r = [r ! 0, r ! 1, r ! 2, r ! 3, r ! 4, r ! 5]"
  using assms by (auto simp: numeral_eq_Suc length_Suc_conv)

lemma map_of_rev_same:
  assumes "distinct (map fst kvs)"
  shows "map_of (rev kvs) = map_of kvs"
proof -
  have "distinct (map fst (rev kvs))" using assms by (simp add: rev_map [symmetric])
  then have "map_of (rev kvs) k = Some v \<longleftrightarrow> map_of kvs k = Some v" for k v
    using assms by (simp add: map_of_eq_Some_iff)
  then show ?thesis by (intro ext) (metis not_Some_eq)
qed

lemma last_wins_distinct:
  assumes "distinct (map fst kvs)"
  shows "last_wins kvs = kvs"
proof -
  have "remdups (rev (map fst kvs)) = rev (map fst kvs)" "map_of (rev kvs) = map_of kvs"
    using assms by (simp_all add: distinct_remdups_id map_of_rev_same)
  then have "last_wins kvs = map (\<lambda>k. (k, the (map_of kvs k))) (map fst kvs)" by (simp only: last_wins_def rev_rev_ident)
  also have "\<dots> = kvs" by (rule distinct_keys_pairs [OF assms, symmetric])
  finally show ?thesis .
qed

lemma table_keys:
  "interned_utf8_cstr ''cid'' \<noteq> interned_utf8_cstr ''type''" "interned_utf8_cstr ''name'' \<noteq> interned_utf8_cstr ''type''"
  "interned_utf8_cstr ''cid'' \<noteq> dflt_value" "interned_utf8_cstr ''name'' \<noteq> dflt_value"
  "interned_utf8_cstr ''type'' \<noteq> dflt_value" "interned_utf8_cstr ''notnull'' \<noteq> dflt_value"
  by (simp_all add: interned_utf8_cstr_def rb_utf8_str_new_cstr_def rb_utf8_str_new_def cstr_def nul_def dflt_value_def)

lemma table_row_run:
  assumes "table_row U r" and "u_default_internal U = None"
  shows "zip_to_h (RArray (column_names table_columns)) (row_array U r) =
      Inr (RHash (zip (column_names table_columns) (map (plain U) r)))"
    "table_info_row U True (RHash (zip (column_names table_columns) (map (plain U) r))) = Inr (table_hash U r)"
proof -
  have r: "length r = 6" using assms(1) by (simp add: table_row_def)
  have six: "map (plain U) r =
      [plain U (r ! 0), plain U (r ! 1), plain U (r ! 2), plain U (r ! 3), plain U (r ! 4), plain U (r ! 5)]"
    by (subst six_elements [OF r]) simp
  have keys: "column_names table_columns =
      [interned_utf8_cstr ''cid'', interned_utf8_cstr ''name'', interned_utf8_cstr ''type'', interned_utf8_cstr ''notnull'',
       dflt_value, interned_utf8_cstr ''pk'']"
    by (simp add: column_names_def table_columns_def dflt_value_def)
  have "distinct (column_names table_columns)"
    by (simp add: column_names_def table_columns_def interned_utf8_cstr_def rb_utf8_str_new_cstr_def rb_utf8_str_new_def
        cstr_def nul_def)
  moreover have "map fst (zip (column_names table_columns) (map (plain U) r)) = column_names table_columns"
    using r by (simp add: keys)
  ultimately have "last_wins (zip (column_names table_columns) (map (plain U) r)) =
      zip (column_names table_columns) (map (plain U) r)"
    by (intro last_wins_distinct) simp
  then show "zip_to_h (RArray (column_names table_columns)) (row_array U r) =
      Inr (RHash (zip (column_names table_columns) (map (plain U) r)))"
    using r zip_to_h_row [of r table_columns U] by (simp add: row_hash_def table_columns_def)
  have type: "rb_type_of (plain U (r ! 2)) = T_STRING" "RTEST (plain U (r ! 2))"
    using assms by (simp_all add: table_row_def column_value_def rb_utf8_str_new_def export_internal_def RTEST_def)
  have "plain U v = (if v_type v = SQLITE_TEXT then RString False UTF_8 (v_text v) True else RNil)"
    if "v_type v = SQLITE_TEXT \<or> v_type v = SQLITE_NULL" for v
    using that assms(2) by (auto simp: column_value_def rb_utf8_str_new_def export_internal_def)
  then have "tweak_value U (plain U (r ! 4)) = Inr (default_of U (r ! 4))"
    using assms(1) by (auto simp: table_row_def tweak_value_def default_of_def)
  with type show "table_info_row U True (RHash (zip (column_names table_columns) (map (plain U) r))) = Inr (table_hash U r)"
    by (simp add: table_info_row_def tweak_default_def downcase_type_def table_hash_def six keys table_keys
        table_keys [symmetric])
qed

text \<open>The loop of \<open>table_info\<close>.\<close>

lemma table_loop:
  assumes "yields_rows L h todo cur" and "todo (env w) = rows" and "list_all (table_row U) rows"
    and "u_default_internal U = None" and "at_start s h w"
  shows "\<exists>e. statement_each L U s (table_info_body U True (RArray (column_names table_columns)) collect) w =
    Some (Inr (map (table_hash U) rows), upd_stmt s (\<lambda>x. x\<lparr>s_done_p := 1\<rparr>)
      (w\<lparr>env := e, calls := calls w @ rows_calls h rows\<rparr>))"
  using assms(2,3,5)
proof (induction rows arbitrary: w)
  case Nil
  then obtain e where "step L U s w = (Inr RNil, upd_stmt s (\<lambda>s. s\<lparr>s_done_p := 1\<rparr>)
      (w\<lparr>env := e, calls := calls w @ step_calls h []\<rparr>))"
    using step_end [OF assms(1)] unfolding at_start_def by metis
  from while_node_run [where nxt = "step L U s", OF this] show ?case
    by (intro exI [of _ e]) (simp add: statement_each_def fetch_agree each_row_end rows_calls_def)
next
  case (Cons r rows)
  have r: "table_row U r" "valid_row r" using Cons.prems(2) by (simp_all add: table_row_def)
  obtain e where e: "step L U s w = (Inr (row_array U r), w\<lparr>env := e, calls := calls w @ step_calls h r\<rparr>)"
    "todo e = rows" "at_start s h (w\<lparr>env := e, calls := calls w @ step_calls h r\<rparr>)"
    using step_hash [OF assms(1) Cons.prems(1) r(2) Cons.prems(3), of U] by metis
  let ?v = "w\<lparr>env := e, calls := calls w @ step_calls h r\<rparr>"
  obtain e2 where "statement_each L U s (table_info_body U True (RArray (column_names table_columns)) collect) ?v =
    Some (Inr (map (table_hash U) rows), upd_stmt s (\<lambda>x. x\<lparr>s_done_p := 1\<rparr>)
      (?v\<lparr>env := e2, calls := calls ?v @ rows_calls h rows\<rparr>))"
  proof -
    have "todo (env ?v) = rows" "list_all (table_row U) rows" using e(2) Cons.prems(2) by simp_all
    from Cons.IH [OF this e(3)] show thesis using that by blast
  qed
  moreover have "statement_fetch L U s w = (Inr (Some (row_array U r)), ?v)"
    using while_node_run [where nxt = "step L U s", OF e(1)] by (simp add: fetch_agree)
  moreover have "table_info_body U True (RArray (column_names table_columns)) collect (row_array U r) ?v =
      Some (Inr (table_hash U r), ?v)"
    using table_row_run [OF r(1) assms(4)] by (simp add: table_info_body_def collect_def)
  ultimately show ?case
    by (intro exI [of _ e2]) (simp add: statement_each_def each_row.simps [of _ _ w] rows_calls_def)
qed

section \<open>The version of the library\<close>

lemma split_dots_show: "CHR ''.'' \<notin> set s \<Longrightarrow> split_dots s = [s]"
  by (induction s) auto

lemma digit_chars: "n < 10 \<Longrightarrow> char_of (48 + n) \<in> set ''0123456789'' \<and> of_char (char_of (48 + n) :: char) = 48 + (n :: nat)"
proof -
  assume "n < 10"
  then have "n \<in> {0, 1, 2, 3, 4, 5, 6, 7, 8, 9}" by auto
  then show ?thesis by (auto simp: char_of_def bit_Suc_0_iff)
qed

lemma show_nat_digits:
  "(\<forall>c \<in> set (show_nat n). c \<in> set ''0123456789'') \<and>
   foldl (\<lambda>n c. 10 * n + (of_char c - 48)) 0 (show_nat n) = n"
proof (induction n rule: show_nat.induct)
  case (1 n)
  have d: "n mod 10 < 10" by simp
  show ?case
  proof (cases "n < 10")
    case True
    then show ?thesis using digit_chars [OF True] by (simp add: show_nat.simps [of n])
  next
    case False
    then show ?thesis using 1 digit_chars [OF d] by (simp add: show_nat.simps [of n])
  qed
qed

lemma digits_to_i_show: "digits_to_i (show_nat n) = n"
proof -
  have "takeWhile (\<lambda>c. c \<in> set ''0123456789'') (show_nat n) = show_nat n"
    using show_nat_digits [of n] by (intro takeWhile_eq_all_conv [THEN iffD2]) blast
  then show ?thesis using show_nat_digits [of n] by (simp only: digits_to_i_def)
qed

text \<open>A version number is one part, greater than the first of \<open>3.3.7\<close>.\<close>

lemma later_version:
  assumes "3 < n"
  shows "0 < version_compare (show_int n) ''3.3.7''"
proof -
  have "CHR ''.'' \<notin> set ''0123456789''" by simp
  then have "CHR ''.'' \<notin> set (show_nat (nat n))" using show_nat_digits [of "nat n"] by blast
  then have "map digits_to_i (split_dots (show_int n)) = [nat n]"
    using assms by (simp add: show_int_def split_dots_show digits_to_i_show)
  moreover have "map digits_to_i (split_dots ''3.3.7'') = [3, 3, 7]" by code_simp
  ultimately show ?thesis using assms by (simp add: version_compare_def)
qed

section \<open>\<open>table_info\<close> of a table\<close>

definition table_sql :: "string \<Rightarrow> string" where
  "table_sql table = ''PRAGMA table_info('' @ table @ '')''"

lemma table_info_run:
  assumes "ready db d w" and "l_prepare L (prepare_call d (table_sql table)) (env w) = Return (SQLITE_OK, Some h, tail) e"
    and "yields_rows L h todo cur" and "named_columns L h table_columns" and "length (cur e) = 6"
    and "finalizes L h" and "\<And>x. l_int L Libversion_number x = (version, x)" and "3 < sint version"
    and "u_default_internal U = None" and "list_all (table_row U) (todo e)"
  shows "\<exists>w'. table_info L U db table w = Some (Inr (map (table_hash U) (todo e)), w') \<and>
    calls w' = calls w @ [prepare_call d (table_sql table)] @ metadata_calls h 6 @ [Libversion_number] @
      rows_calls h (todo e) @ [StmtCall (Some h) Finalize] \<and>
    s_st (stmts w' (next_ref w)) = None \<and> db_handles_same w w' \<and> errinfo w' = None"
proof -
  have world: "d_db (dbs w db) = Some d" "d_flags (dbs w db) AND SQLITE3_RB_DATABASE_DISCARDED = 0" "errinfo w = None"
    using assms(1) by (simp_all add: ready_def)
  let ?s = "next_ref w" and ?w = "new_statement db d h (table_sql table) e w"
  have new: "statement_new L U db (sql_text (table_sql table)) w = (Inr (?s, rb_utf8_str_new_cstr tail), ?w)"
    by (rule statement_new_run [OF world(1) sql_utf8_text assms(2)])
  have use: "require_usable ?s ?w = (Inr (Some h), ?w)"
    using world(2) by (intro usable_open [of _ _ db]) (simp_all add: new_statement_def)
  have fresh: "env ?w = e" "iv_columns (sivars ?w ?s) = None" by (simp_all add: new_statement_def)
  have six: "length table_columns = 6" by (simp add: table_columns_def)
  obtain m where names: "columns L ?s ?w = (Inr (RArray (column_names table_columns)),
      upd_sivars ?s m (?w\<lparr>calls := calls ?w @ metadata_calls h 6\<rparr>))"
    using columns_first [OF assms(3,4) _ use fresh(2)] assms(5) fresh(1) six by metis
  let ?u = "upd_sivars ?s m (?w\<lparr>calls := calls ?w @ metadata_calls h 6\<rparr>)"
  let ?v = "?u\<lparr>calls := calls ?u @ [Libversion_number]\<rparr>"
  have version: "libversion L ?u = (Inr (RInteger (sint version)), ?v)"
    using assms(7) by (simp add: libversion_def sqlite_call_def INT2NUM_def)
  have "at_start ?s h ?w" using use world(3) by (simp add: at_start_def new_statement_def)
  then have "at_start ?s h ?v" by (rule at_start_cong) simp_all
  moreover have "todo (env ?v) = todo e" using fresh(1) by simp
  ultimately obtain e2 where loop: "statement_each L U ?s (table_info_body U True (RArray (column_names table_columns)) collect) ?v =
      Some (Inr (map (table_hash U) (todo e)), upd_stmt ?s (\<lambda>x. x\<lparr>s_done_p := 1\<rparr>)
        (?v\<lparr>env := e2, calls := calls ?v @ rows_calls h (todo e)\<rparr>))"
    using table_loop [OF assms(3) _ assms(10,9)] by metis
  let ?t = "upd_stmt ?s (\<lambda>x. x\<lparr>s_done_p := 1\<rparr>) (?v\<lparr>env := e2, calls := calls ?v @ rows_calls h (todo e)\<rparr>)"
  have "s_st (stmts ?t ?s) = Some h" by (simp add: new_statement_def)
  from close_run [OF assms(6) this, of U] obtain e3 where close: "statement_close L U ?s ?t = (Inr ?s,
      upd_stmt ?s (\<lambda>x. x\<lparr>s_st := None\<rparr>) (?t\<lparr>calls := calls ?t @ [StmtCall (Some h) Finalize], env := e3\<rparr>))"
    by blast
  have "NUM2INT (RInteger (sint version)) = Inr version"
    using int_fits_sint [of version] by (simp add: NUM2INT_def int_in_range_def)
  with new names version loop close later_version [OF assms(8)] have "table_info L U db table w =
    Some (Inr (map (table_hash U) (todo e)), upd_stmt ?s (\<lambda>x. x\<lparr>s_st := None\<rparr>)
      (?t\<lparr>calls := calls ?t @ [StmtCall (Some h) Finalize], env := e3\<rparr>))"
    by (simp add: table_info_def table_info_each_def table_sql_def)
  then show ?thesis using world by (simp add: new_statement_def db_handles_same_def)
qed

text \<open>C39: a text default value comes back through \<open>table_info\<close>. On an open live
  connection, with no exception pending, a version number of SQLite greater than 3 (those of SQLite 3
  have seven digits) and no default internal encoding, when \<open>PRAGMA table_info(...)\<close> compiles, has
  the six documented columns and yields its rows (with a text for the type, and a default value that
  is a valid text or NULL), and finalizing it raises nothing, \<open>table_info\<close> reads the names once, steps through the rows, finalizes its
  statement and returns one hash for each row, in order, with the type in lower case. Where the
  default value is the literal that \<open>Database.quote\<close> makes of a UTF-8 text, the hash has the text
  itself, with its quotes and line breaks, and the other entries of the row are as they were read.
  The only exception are texts of three and more lines with an inner line \<open>null\<close> (in any case of
  its letters): the first regular expression matches that line, and \<open>nil\<close> is reported.\<close>

theorem default_reads_back:
  assumes "ready db d w" and "l_prepare L (prepare_call d (table_sql table)) (env w) = Return (SQLITE_OK, Some h, tail) e"
    and "yields_rows L h todo cur" and "named_columns L h table_columns" and "length (cur e) = 6"
    and "finalizes L h" and "\<And>x. l_int L Libversion_number x = (version, x)" and "3 < sint version"
    and "u_default_internal U = None" and "list_all (table_row U) (todo e)"
    and "i < length (todo e)" and "v_type (todo e ! i ! 4) = SQLITE_TEXT"
    and "quote (RString b UTF_8 s f) = Inr (RString b' enc lit f')"
    and "v_text (todo e ! i ! 4) = quote_char # lit @ [quote_char]"
  shows "\<exists>w' hashes. table_info L U db table w = Some (Inr hashes, w') \<and> hashes = map (table_hash U) (todo e) \<and>
    (let r = todo e ! i in hashes ! i = RHash (zip (column_names table_columns)
       [plain U (r ! 0), plain U (r ! 1), downcase (plain U (r ! 2)), plain U (r ! 3),
        if list_ex null_line (inner_lines s) then RNil else RString False UTF_8 s False, plain U (r ! 5)])) \<and>
    calls w' = calls w @ [prepare_call d (table_sql table)] @ metadata_calls h 6 @ [Libversion_number] @
      rows_calls h (todo e) @ [StmtCall (Some h) Finalize] \<and>
    s_st (stmts w' (next_ref w)) = None"
proof -
  have "v_text (todo e ! i ! 4) = sql_literal s"
    using assms(13,14) by (simp add: quote_def sql_literal_def)
  then have "default_of U (todo e ! i ! 4) = (if list_ex null_line (inner_lines s) then RNil else RString False UTF_8 s False)"
    using assms(12) by (simp add: default_of_def unquoted_literal)
  then show ?thesis
    using table_info_run [OF assms(1-10)] assms(11) by (auto simp: table_hash_def Let_def)
qed

section \<open>A concrete table\<close>

text \<open>A library whose queries have the six columns; its state is the rows left and the current one.\<close>

type_synonym rows_env = "sqlite3_value list list \<times> sqlite3_value list"

definition six_lib :: "rows_env sqlite_lib" where
  "six_lib =
     \<lparr>l_int = (\<lambda>c e. (case c of StmtCall z Column_count \<Rightarrow> word_of_nat (length (snd e)) | Libversion_number \<Rightarrow> 3050004 | _ \<Rightarrow> SQLITE_OK, e)),
      l_i64 = (\<lambda>c e. (0, e)),
      l_text = (\<lambda>c e. (case c of StmtCall z (Column_name i) \<Rightarrow> Some (table_columns ! unat i) | _ \<Rightarrow> None, e)),
      l_column = (\<lambda>c e. (case c of StmtCall z (Column i) \<Rightarrow> snd e ! i | _ \<Rightarrow> value_of SQLITE_NULL, e)),
      l_open = (\<lambda>c e. ((SQLITE_OK, Some 7), e)), l_file = (\<lambda>c e. ((SQLITE_OK, 3, True), e)),
      l_backup = (\<lambda>c e. (Some 5, e)), l_handle = (\<lambda>c e. (Some 7, e)),
      l_status = (\<lambda>c e. ((0, 0), e)),
      l_run = (\<lambda>c e. case c of
           StmtCall z Step \<Rightarrow> (case fst e of [] \<Rightarrow> Return SQLITE_DONE e | r # rs \<Rightarrow> Return SQLITE_ROW (rs, r))
         | _ \<Rightarrow> Return SQLITE_OK e),
      l_prepare = (\<lambda>c e. Return (SQLITE_OK, Some 9, []) e),
      l_exec = (\<lambda>c e. Return (SQLITE_OK, None) e),
      l_has_db_name = True, l_has_error_offset = True, l_has_dqs = True, l_long64 = True,
      l_little_endian = True\<rparr>"

definition text_value :: "string \<Rightarrow> sqlite3_value" where
  "text_value s = (value_of SQLITE_TEXT)\<lparr>v_text := s\<rparr>"

definition six_row :: "sqlite3_value list" where
  "six_row = [value_of SQLITE_INTEGER, text_value ''a'', text_value ''TEXT'', value_of SQLITE_INTEGER,
     text_value (sql_literal (''it'' @ [quote_char] @ ''s'')), value_of SQLITE_INTEGER]"

definition six_world :: "(rows_env, unit) world" where
  "six_world =
     \<lparr>env = ([six_row], six_row), usr = (), pid = 1, errinfo = None, calls = [],
      dbs = (\<lambda>_. zero_sqlite3Ruby\<lparr>d_db := Some 7\<rparr>), ivars = ivars sample_world,
      stmts = stmts sample_world, sivars = sivars sample_world, backups = backups sample_world, aws = aws sample_world,
      insts = insts sample_world, aggmem = aggmem sample_world, arys = arys sample_world, hashes = hashes sample_world,
      next_ref = 0\<rparr>"

lemma six_lib_laws:
  "yields_rows six_lib 9 fst snd" "named_columns six_lib 9 table_columns" "finalizes six_lib 9"
  "l_int six_lib Libversion_number x = (3050004, x)"
  by (auto simp: yields_rows_def finalizes_def six_lib_def named_columns_def table_columns_def unat_of_nat
      split: list.split)

lemma six_world_laws:
  "ready 0 7 six_world" "l_prepare six_lib (prepare_call 7 q) (env six_world) = Return (SQLITE_OK, Some 9, []) ([six_row], six_row)"
  "list_all (table_row sample_user) [six_row]" "next_ref six_world = 0"
  by (simp_all add: ready_def six_world_def six_lib_def zero_sqlite3Ruby_def table_row_def six_row_def text_value_def
      value_of_def valid_row_def valid_type_def sample_user_def)

lemma six_row_fields:
  "six_row ! 0 = value_of SQLITE_INTEGER" "six_row ! Suc 0 = text_value ''a''" "six_row ! 2 = text_value ''TEXT''"
  "six_row ! 3 = value_of SQLITE_INTEGER" "six_row ! 4 = text_value (sql_literal (''it'' @ [quote_char] @ ''s''))"
  "six_row ! 5 = value_of SQLITE_INTEGER" "length six_row = 6" "v_type (text_value s) = SQLITE_TEXT"
  "u_default_internal sample_user = None"
  by (simp_all add: six_row_def text_value_def value_of_def sample_user_def)

lemma six_values:
  "plain sample_user (value_of SQLITE_INTEGER) = RInteger 0"
  "plain sample_user (text_value s) = RString False UTF_8 s True"
  by (simp_all add: column_value_def value_of_def text_value_def LL2NUM_def export_internal_def rb_utf8_str_new_def
      sample_user_def)

theorem default_reads_back_witness:
  "\<exists>w'. table_info six_lib sample_user 0 ''t'' six_world = Some (Inr [RHash (zip (column_names table_columns)
     [RInteger 0, RString False UTF_8 ''a'' True, RString False UTF_8 ''text'' False, RInteger 0,
      RString False UTF_8 (''it'' @ [quote_char] @ ''s'') False, RInteger 0])], w') \<and>
    s_st (stmts w' 0) = None"
proof -
  let ?s = "''it'' @ [quote_char] @ ''s''"
  have "v_text (text_value (sql_literal ?s)) = quote_char # double quote_char ?s @ [quote_char]"
    by (simp add: text_value_def sql_literal_def)
  moreover have "\<not> list_ex null_line (inner_lines ?s)" by (simp add: inner_lines_def)
  moreover have "(3 :: int) < sint (3050004 :: cint)" by simp
  moreover have "downcase (RString False UTF_8 ''TEXT'' True) = RString False UTF_8 ''text'' False"
    by code_simp
  ultimately show ?thesis
    using default_reads_back [where U = sample_user and i = 0 and s = ?s and b = False and f = False and b' = False
        and enc = UTF_8 and lit = "double quote_char ?s" and f' = False and table = "''t''",
        OF six_world_laws(1,2) six_lib_laws(1,2) _ six_lib_laws(3,4)] six_world_laws(3)
    by (auto simp: six_world_laws(4) six_row_fields six_values quote_def)
qed

text \<open>An expression that begins and ends with a literal is taken for one literal.\<close>

lemma default_expression:
  "unquoted UTF_8 (sql_literal ''a'' @ '' || '' @ sql_literal ''b'') =
     Some (RString False UTF_8 (''a'' @ [quote_char] @ '' || '' @ [quote_char] @ ''b'') False)"
  by code_simp

end
