(* ===== verification/Opening_Block.thy ===== *)
theory Opening_Block
  imports Query_Laws Opening
begin

text \<open>
  \<open>Database.new\<close> and \<open>Database.open\<close> with a block (\<open>lib/sqlite3/database.rb\<close>): the connection lives as
  long as the block runs.
\<close>

definition closing :: "'e sqlite_lib \<Rightarrow> nat \<Rightarrow> ('e, 'u, 'a) prog \<Rightarrow> ('e, 'u, 'a) prog" where
  "closing L self p = ensureP p (act (ignore (database_close L self)))"

text \<open>The value is the object, for \<open>open\<close> the value of the block.\<close>

definition database_new_each ::
  "'e sqlite_lib \<Rightarrow> 'u rb_user \<Rightarrow> nat list \<Rightarrow> rb_value \<Rightarrow> (rb_value \<times> rb_value) list \<Rightarrow> rb_value \<Rightarrow>
     (nat \<Rightarrow> ('e, 'u, 'a) prog) \<Rightarrow> ('e, 'u, nat) prog" where
  "database_new_each L U databases path options zvfs block =
     bindP (act (database_new L U databases path options zvfs)) (\<lambda>(self, ivs, tracked).
     bindP (closing L self (block self)) (\<lambda>_. act (ret self)))"

definition database_open_each ::
  "'e sqlite_lib \<Rightarrow> 'u rb_user \<Rightarrow> nat list \<Rightarrow> rb_value \<Rightarrow> (rb_value \<times> rb_value) list \<Rightarrow> rb_value \<Rightarrow>
     (nat \<Rightarrow> ('e, 'u, 'a) prog) \<Rightarrow> ('e, 'u, 'a) prog" where
  "database_open_each L U databases path options zvfs block =
     bindP (act (database_new L U databases path options zvfs)) (\<lambda>(self, ivs, tracked).
     closing L self (block self))"

lemma close_returns:
  assumes "names_bounded L"
  shows "\<exists>v. database_close L s w = (Inr s, v) \<and> d_db (dbs v s) = None"
proof -
  have "\<exists>v. close_or_discard_db L s w = (Inr (), v)"
    using discard_run [OF assms, of s w]
    by (cases "d_db (dbs w s)") (auto simp: close_or_discard_db_def Let_def bindM_def sqlite_call_returns)
  then show ?thesis using close_closes [OF assms, of s w] by (auto simp: database_close_def)
qed

lemma closing_run:
  assumes "names_bounded L" and "p w = Some (y, u)" and "\<forall>z. y \<noteq> Inl (Undefined z)"
  shows "\<exists>v. closing L s p w = Some (y, v) \<and> d_db (dbs v s) = None"
proof -
  obtain v where "database_close L s u = (Inr s, v)" "d_db (dbs v s) = None"
    using close_returns [OF assms(1)] by blast
  with assms(2,3) show ?thesis
    by (cases y; cases "projl y") (auto simp: closing_def ensureP_def)
qed

text \<open>
  However the block ends, the object is closed when \<open>open\<close> or \<open>new\<close> is left, also when the block has
  closed it before; the outcome is the block's, for \<open>new\<close> with the object as its value.
\<close>

lemma open_with_block:
  assumes "names_bounded L" and "database_new L U databases path options zvfs w = (Inr (s, ivs, tracked), v)"
    and "block s v = Some (y, u)" and "\<forall>z. y \<noteq> Inl (Undefined z)"
  shows "\<exists>t. database_open_each L U databases path options zvfs block w = Some (y, t) \<and> d_db (dbs t s) = None"
    and "\<exists>t. database_new_each L U databases path options zvfs block w = Some (map_sum id (\<lambda>_. s) y, t) \<and>
      d_db (dbs t s) = None"
proof -
  obtain t where t: "closing L s (block s) v = Some (y, t)" "d_db (dbs t s) = None"
    using closing_run [where p = "block s", OF assms(1,3,4)] by blast
  with assms(2) show "\<exists>t. database_open_each L U databases path options zvfs block w = Some (y, t) \<and> d_db (dbs t s) = None"
    by (simp add: database_open_each_def)
  from t assms(2) show "\<exists>t. database_new_each L U databases path options zvfs block w = Some (map_sum id (\<lambda>_. s) y, t) \<and>
      d_db (dbs t s) = None"
    by (cases y) (simp_all add: database_new_each_def)
qed

end
