(* ===== verification/Transaction.thy ===== *)
theory Transaction
  imports Statement_Runs Opening
begin

unbundle bit_operations_syntax

text \<open>
  \<open>Database#transaction\<close>, \<open>commit\<close> and \<open>rollback\<close> (\<open>lib/sqlite3/database.rb\<close>).
\<close>

section \<open>The methods\<close>

definition database_commit :: "'e sqlite_lib \<Rightarrow> 'u rb_user \<Rightarrow> nat \<Rightarrow> ('e, 'u, rb_value) prog" where
  "database_commit L U db =
     bindP (database_execute L U db (sql_text ''commit transaction'') (RArray [])) (\<lambda>_. act (ret RTrue))"

definition database_rollback :: "'e sqlite_lib \<Rightarrow> 'u rb_user \<Rightarrow> nat \<Rightarrow> ('e, 'u, rb_value) prog" where
  "database_rollback L U db =
     bindP (database_execute L U db (sql_text ''rollback transaction'') (RArray [])) (\<lambda>_. act (ret RTrue))"

text \<open>
  The text \<open>begin #{mode} transaction\<close>: without a mode the default one, which \<open>initialize\<close> has set.
  \<open>to_s\<close> is the conversion of a mode that is neither a symbol nor a string, which calls the object's
  own method.
\<close>

definition interpolate :: "(rb_value \<Rightarrow> string) \<Rightarrow> rb_value \<Rightarrow> string" where
  "interpolate to_s v = (case v of RSymbol s \<Rightarrow> s | RString b e s f \<Rightarrow> s | _ \<Rightarrow> to_s v)"

definition begin_sql :: "database_ivars \<Rightarrow> (rb_value \<Rightarrow> string) \<Rightarrow> rb_value \<Rightarrow> string" where
  "begin_sql ivs to_s mode =
     (let mode = (if NIL_P mode then at_default_transaction_mode ivs else mode)
      in ''begin '' @ interpolate to_s mode @ '' transaction'')"

definition database_begin ::
  "'e sqlite_lib \<Rightarrow> 'u rb_user \<Rightarrow> nat \<Rightarrow> database_ivars \<Rightarrow> (rb_value \<Rightarrow> string) \<Rightarrow> rb_value \<Rightarrow> ('e, 'u, rb_value) prog" where
  "database_begin L U db ivs to_s mode =
     bindP (database_execute L U db (sql_text (begin_sql ivs to_s mode)) (RArray [])) (\<lambda>_. act (ret RTrue))"

text \<open>
  The \<open>rescue\<close> clause has no class, so it catches \<open>StandardError\<close>: every exception of the extension but a
  fatal error is one, and \<open>standard\<close> tells which of the user's are (\<open>Interrupt\<close> and \<open>SystemExit\<close> are
  not). It sets \<open>abort\<close>, and \<open>abort and rollback or commit\<close> runs in any case.
\<close>

definition standard_error :: "(nat \<Rightarrow> bool) \<Rightarrow> rb_exn \<Rightarrow> bool" where
  "standard_error standard x =
     (case x of Exn c m k q z \<Rightarrow> c \<noteq> FatalError | UserExn n \<Rightarrow> standard n)"

definition rescued :: "(nat \<Rightarrow> bool) \<Rightarrow> abort + 'a \<Rightarrow> bool" where
  "rescued standard outcome = (case outcome of Inl (Raised x) \<Rightarrow> standard_error standard x | _ \<Rightarrow> False)"

definition end_transaction :: "'e sqlite_lib \<Rightarrow> 'u rb_user \<Rightarrow> nat \<Rightarrow> bool \<Rightarrow> ('e, 'u, rb_value) prog" where
  "end_transaction L U db abort =
     bindP (if abort then database_rollback L U db else act (ret RFalse)) (\<lambda>rolled_back.
     if RTEST rolled_back then act (ret rolled_back) else database_commit L U db)"

definition database_transaction ::
  "'e sqlite_lib \<Rightarrow> 'u rb_user \<Rightarrow> nat \<Rightarrow> database_ivars \<Rightarrow> (rb_value \<Rightarrow> string) \<Rightarrow> (nat \<Rightarrow> bool) \<Rightarrow> rb_value \<Rightarrow>
     ('e, 'u, 'a) prog \<Rightarrow> ('e, 'u, 'a) prog" where
  "database_transaction L U db ivs to_s standard mode block =
     bindP (database_begin L U db ivs to_s mode) (\<lambda>_ w.
     case block w of
       None \<Rightarrow> None
     | Some (outcome, v) \<Rightarrow>
         ensureP (\<lambda>u. Some (outcome, u))
           (bindP (end_transaction L U db (rescued standard outcome)) (\<lambda>_. act (ret ()))) v)"

section \<open>How a transaction ends\<close>

definition last_sql :: "bool \<Rightarrow> string" where
  "last_sql abort = (if abort then ''rollback transaction'' else ''commit transaction'')"

text \<open>Exactly one command ends a transaction, and its exception is the outcome.\<close>

lemma end_transaction_run:
  assumes "database_execute L U db (sql_text (last_sql abort)) (RArray []) u = Some (r, t)"
  shows "end_transaction L U db abort u = Some (map_sum id (\<lambda>_. RTrue) r, t)"
  using assms
  by (cases r; cases abort)
    (simp_all add: end_transaction_def database_commit_def database_rollback_def last_sql_def RTEST_def)

lemma transaction_run:
  assumes "database_execute L U db (sql_text (begin_sql ivs to_s mode)) (RArray []) w = Some (Inr rows, v)"
    and "block v = Some (outcome, u)" and "\<forall>z. outcome \<noteq> Inl (Undefined z)"
    and "database_execute L U db (sql_text (last_sql (rescued standard outcome))) (RArray []) u = Some (r, t)"
  shows "database_transaction L U db ivs to_s standard mode block w =
    Some (case r of Inl x \<Rightarrow> Inl x | Inr z \<Rightarrow> outcome, t)"
proof -
  have "database_transaction L U db ivs to_s standard mode block w =
      ensureP (\<lambda>u. Some (outcome, u))
        (bindP (end_transaction L U db (rescued standard outcome)) (\<lambda>_. act (ret ()))) u"
    using assms(1,2) by (simp add: database_transaction_def database_begin_def)
  also have "\<dots> = Some (case r of Inl x \<Rightarrow> Inl x | Inr z \<Rightarrow> outcome, t)"
    using assms(3) end_transaction_run [OF assms(4)]
    by (cases r; cases outcome; cases "projl outcome") (auto simp: ensureP_def)
  finally show ?thesis .
qed

text \<open>C33: what \<open>transaction\<close> with a block runs and what comes out of it. When \<open>begin\<close> raises, so
  does \<open>transaction\<close>, and the block is not called. Otherwise the block runs right after \<open>begin\<close>, with the
  default mode if none was given, and then one command more: \<open>rollback\<close> when the block has raised a
  \<open>StandardError\<close>, else \<open>commit\<close>, also when the block was left by another exception, such as \<open>Interrupt\<close>.
  When this command raises (as after a \<open>commit\<close> or \<open>rollback\<close> of the block's own), its exception replaces the
  outcome of the block; when it runs, the outcome is the block's own, the same value or the same
  exception, and nothing has been asked of SQLite but these commands and what the block did. The block
  may do anything, and SQLite needs to run the two commands only in the states in which they are reached.\<close>

theorem transaction_ends:
  "(\<forall>x t. database_execute L U db (sql_text (begin_sql ivs to_s mode)) (RArray []) w = Some (Inl x, t) \<longrightarrow>
      database_transaction L U db ivs to_s standard mode block w = Some (Inl x, t)) \<and>
   (ready db d w \<and> runs_command L d h (begin_sql ivs to_s mode) (env w) e1 \<longrightarrow>
     (\<exists>v. ready db d v \<and> env v = e1 \<and> calls v = calls w @ command_calls d h (begin_sql ivs to_s mode) \<and>
       (case block v of
          None \<Rightarrow> database_transaction L U db ivs to_s standard mode block w = None
        | Some (outcome, u) \<Rightarrow>
            (\<forall>z. outcome \<noteq> Inl (Undefined z)) \<longrightarrow>
            (\<forall>x t. database_execute L U db (sql_text (last_sql (rescued standard outcome))) (RArray []) u = Some (Inl x, t) \<longrightarrow>
              database_transaction L U db ivs to_s standard mode block w = Some (Inl x, t)) \<and>
            (\<forall>g e2. ready db d u \<and> runs_command L d g (last_sql (rescued standard outcome)) (env u) e2 \<longrightarrow>
              (\<exists>t. database_transaction L U db ivs to_s standard mode block w = Some (outcome, t) \<and> ready db d t \<and>
                env t = e2 \<and> calls t = calls u @ command_calls d g (last_sql (rescued standard outcome)))))))"
proof (intro conjI allI impI)
  fix x t assume "database_execute L U db (sql_text (begin_sql ivs to_s mode)) (RArray []) w = Some (Inl x, t)"
  then show "database_transaction L U db ivs to_s standard mode block w = Some (Inl x, t)"
    by (simp add: database_transaction_def database_begin_def)
next
  let ?run = "database_transaction L U db ivs to_s standard mode block w"
  assume "ready db d w \<and> runs_command L d h (begin_sql ivs to_s mode) (env w) e1"
  then have "runs_command L d h (begin_sql ivs to_s mode) (env w) e1" "ready db d w" by simp_all
  from command_run [OF this, of U] obtain v where started: "database_execute L U db (sql_text (begin_sql ivs to_s mode)) (RArray []) w = Some (Inr [], v)"
    and v: "calls v = calls w @ command_calls d h (begin_sql ivs to_s mode)" "ready db d v" "env v = e1"
    by blast
  have "?run = None" if "block v = None"
    using started that by (simp add: database_transaction_def database_begin_def)
  moreover have "?run = Some (Inl x, t)"
    if "block v = Some (outcome, u)" "\<forall>z. outcome \<noteq> Inl (Undefined z)"
      "database_execute L U db (sql_text (last_sql (rescued standard outcome))) (RArray []) u = Some (Inl x, t)"
    for outcome u x t
    using transaction_run [where block = block, OF started that] by simp
  moreover have "\<exists>t. ?run = Some (outcome, t) \<and> ready db d t \<and> env t = e2 \<and>
      calls t = calls u @ command_calls d g (last_sql (rescued standard outcome))"
    if "block v = Some (outcome, u)" "\<forall>z. outcome \<noteq> Inl (Undefined z)"
      "ready db d u" "runs_command L d g (last_sql (rescued standard outcome)) (env u) e2"
    for outcome u g e2
  proof -
    from command_run [OF that(4,3), of U] obtain t where
      "database_execute L U db (sql_text (last_sql (rescued standard outcome))) (RArray []) u = Some (Inr [], t)"
      "calls t = calls u @ command_calls d g (last_sql (rescued standard outcome))" "ready db d t" "env t = e2" by blast
    with transaction_run [where block = block, OF started that(1,2), of standard] show ?thesis by auto
  qed
  ultimately show "\<exists>v. ready db d v \<and> env v = e1 \<and> calls v = calls w @ command_calls d h (begin_sql ivs to_s mode) \<and>
       (case block v of
          None \<Rightarrow> ?run = None
        | Some (outcome, u) \<Rightarrow>
            (\<forall>z. outcome \<noteq> Inl (Undefined z)) \<longrightarrow>
            (\<forall>x t. database_execute L U db (sql_text (last_sql (rescued standard outcome))) (RArray []) u = Some (Inl x, t) \<longrightarrow>
              ?run = Some (Inl x, t)) \<and>
            (\<forall>g e2. ready db d u \<and> runs_command L d g (last_sql (rescued standard outcome)) (env u) e2 \<longrightarrow>
              (\<exists>t. ?run = Some (outcome, t) \<and> ready db d t \<and>
                env t = e2 \<and> calls t = calls u @ command_calls d g (last_sql (rescued standard outcome)))))"
    using v by (intro exI [of _ v]) (auto split: option.split)
qed

section \<open>A concrete transaction\<close>

theorem transaction_ends_witness:
  "\<exists>t. database_transaction transaction_lib sample_user 0 \<lparr>at_readonly = False, at_default_transaction_mode = RSymbol ''deferred''\<rparr>
      (\<lambda>_. []) (\<lambda>n. n = 3) RNil (\<lambda>w. Some (Inl (Raised (UserExn 3)) :: abort + unit, w)) transaction_world =
      Some (Inl (Raised (UserExn 3)), t) \<and> env t = False \<and>
    calls t = command_calls 7 11 ''begin deferred transaction'' @ command_calls 7 12 ''rollback transaction''"
proof -
  let ?ivs = "\<lparr>at_readonly = False, at_default_transaction_mode = RSymbol ''deferred''\<rparr>"
  let ?block = "\<lambda>w :: (bool, unit) world. Some (Inl (Raised (UserExn 3)) :: abort + unit, w)"
  have sql: "begin_sql ?ivs (\<lambda>_. []) RNil = ''begin deferred transaction''"
    by (simp add: begin_sql_def NIL_P_def interpolate_def)
  let ?run = "database_transaction transaction_lib sample_user 0 ?ivs (\<lambda>_. []) (\<lambda>n. n = 3) RNil ?block transaction_world"
  have commands: "runs_command transaction_lib 7 11 ''begin deferred transaction'' False True"
    "runs_command transaction_lib 7 12 ''rollback transaction'' True False"
    by (auto simp: runs_command_def steps_to_def transaction_lib_def prepare_call_def)
  have world: "ready 0 7 transaction_world" "env transaction_world = False" "calls transaction_world = []"
    by (simp_all add: ready_def transaction_world_def zero_sqlite3Ruby_def)
  have last: "last_sql (rescued (\<lambda>n. n = 3) (Inl (Raised (UserExn 3)) :: abort + unit)) = ''rollback transaction''"
    by (simp add: rescued_def standard_error_def last_sql_def)
  have ready: "ready 0 7 transaction_world \<and>
      runs_command transaction_lib 7 11 (begin_sql ?ivs (\<lambda>_. []) RNil) (env transaction_world) True"
    using commands(1) world by (simp add: sql)
  note ends = transaction_ends [THEN conjunct2, rule_format, OF ready, of sample_user "\<lambda>n. n = 3" ?block,
      unfolded sql last option.case prod.case world append_Nil]
  have defined: "\<forall>z. (Inl (Raised (UserExn 3)) :: abort + unit) \<noteq> Inl (Undefined z)" by simp
  show ?thesis
    using ends
  proof (elim exE conjE impE)
    fix v assume v: "ready 0 7 v" "env v = True" "calls v = command_calls 7 11 ''begin deferred transaction''"
      and last: "\<forall>g e2. ready 0 7 v \<and> runs_command transaction_lib 7 g ''rollback transaction'' (env v) e2 \<longrightarrow>
        (\<exists>t. ?run = Some (Inl (Raised (UserExn 3)), t) \<and> ready 0 7 t \<and> env t = e2 \<and>
          calls t = calls v @ command_calls 7 g ''rollback transaction'')"
    show ?thesis using last [rule_format, of 12 False] v commands(2) by auto
  qed (rule defined)
qed

end
