(* ===== verification/Spec2Isabelle.thy ===== *)
theory Spec2Isabelle
  imports Gc_Instances Registration_Laws Opening_Laws Batch Query_End First_Value Table_Info Opening_Block
    Transaction
begin

text \<open>
  A model of the C extension of \<open>sqlite3-ruby\<close> (\<open>ext/sqlite3/*.c\<close>), the binding between the
  SQLite library and Ruby, and of the Ruby methods in \<open>lib/sqlite3\<close> that open databases, run
  queries and guard connections across forks, with the theorems that make it correct.

  \<^bold>\<open>The program.\<close> The extension defines three classes. A \<open>Database\<close> (\<open>database.c\<close>) owns a
  connection: it opens, closes and, after a fork, discards it, and registers the callbacks
  through which SQLite runs the user's Ruby code. A \<open>Statement\<close> (\<open>statement.c\<close>) owns a
  prepared statement and points to the struct of its Database; it is bound, stepped and reset.
  A \<open>Backup\<close> (\<open>backup.c\<close>) owns a running backup between two Databases. Aggregate functions
  (\<open>aggregator.c\<close>) keep one Ruby object per aggregation in flight, in memory that belongs to
  SQLite; the Database keeps these objects, and all others SQLite points to, alive when the
  garbage collector asks it to mark them. Error codes become exceptions in \<open>exception.c\<close>. When the
  library is loaded, \<open>Init_sqlite3_native\<close> registers the classes and their methods with the
  interpreter; from then on every function is reached by its name, from Ruby code: from
  \<open>Database.new\<close>, which opens and loads extensions, from the methods that run queries, from the hook
  of a fork.

  \<^bold>\<open>The state.\<close> One record \<open>world\<close> (theory \<open>World\<close>) holds what one process has: the structs
  (\<open>dbs\<close>, \<open>stmts\<close>, \<open>backups\<close>, with the fields of the C structs), the objects the extension makes
  (arrays, hashes, wrappers and instances of aggregators), the instance variables of Databases and
  Statements, SQLite's aggregate contexts, the pending exception \<open>errinfo\<close>, the process id, and the states of the library and of the user's
  code. A C function is an action on this record (theory \<open>Prelude\<close>): it returns a value, or an
  abort, which is a raised exception, a fatal error or an undefined behaviour that the code
  would reach (a NULL pointer followed, a bound exceeded). What was written before an abort
  stays written. The field \<open>calls\<close> is the log of the calls made to SQLite; no code reads it.

  \<^bold>\<open>The parameters.\<close> SQLite is no part of the repository. Its functions are the fields of the
  record \<open>sqlite_lib\<close> (theory \<open>Sqlite_Api\<close>), functions of the call and the library's state that
  may answer anything; a function that may call back (to prepare, step, reset and finalize a
  statement, to run a batch, load an extension or step a backup) answers with a tree of callback
  requests, which the model runs with the callbacks of the extension. The user's Ruby code is the field \<open>u_call\<close> of the record \<open>rb_user\<close>
  (theory \<open>Ruby_Values\<close>), an arbitrary function of receiver, method, arguments and the user's
  heap. What a theorem needs of the two it names as a hypothesis. A call on a NULL
  handle is logged like any other; \<open>null_call\<close> says which of them SQLite leaves undefined, and the
  theorems show that the log has none.

  \<^bold>\<open>The theories.\<close>
  \<^item> \<open>Prelude\<close>: actions, their combinators, the predicate \<open>keeps\<close> (an invariant is kept however
    an action ends) with its rules, and the locale \<open>store\<close> of the indexed stores of a record.
  \<^item> \<open>Ruby_Values\<close>, \<open>Sqlite_Api\<close>, \<open>World\<close>, \<open>Samples\<close>: the vocabulary above, the locale
    \<open>callback_invariant\<close> (what all callbacks keep, every call of SQLite keeps), and the sample
    parameters of the witnesses.
  \<^item> \<open>Timespec\<close> (\<open>timespec.h\<close>): the macros, a linear order on times, exactness of the subtraction.
  \<^item> \<open>Exceptions\<close> (\<open>exception.c\<close>): the class of a status and the three raising functions.
  \<^item> \<open>Native_Module\<close> (\<open>sqlite3.c\<close>): both variants of \<open>bignum_to_int64\<close>, tied by the locale
    \<open>int64_packer\<close>, and the methods of the module.
  \<^item> \<open>Conversion\<close> (\<open>database.c\<close>): \<open>sqlite3val2rb\<close>, \<open>set_sqlite3_func_result\<close> and the scalar
    functions, which never unwind SQLite.
  \<^item> \<open>Aggregator\<close>, \<open>Aggregation\<close> (\<open>aggregator.c\<close>): the operations on aggregates, the invariant
    \<open>agg_inv\<close> of the instances in flight, and the refinement of a whole aggregation to what the
    user's handler should see.
  \<^item> \<open>Callbacks\<close> (\<open>database.c\<close>): the other functions SQLite calls, the handler of all callbacks, and
    the locale \<open>callback_frame\<close> of what they leave alone. \<open>Callback_Exceptions\<close>: the exceptions that the
    user's functions and aggregates raise while SQLite runs, in order, and which one is pending then.
  \<^item> \<open>Handles\<close>: the guards \<open>REQUIRE_OPEN_DB\<close>, \<open>REQUIRE_OPEN_STMT\<close> and \<open>REQUIRE_OPEN_BACKUP\<close> as one
    locale \<open>guarded\<close>, and the invariant that no NULL handle has reached SQLite.
  \<^item> \<open>Database\<close>, \<open>Database_Methods\<close>, \<open>Database_Laws\<close> (\<open>database.c\<close>): allocation, opening, closing,
    discarding; the methods of an open connection; their laws, with the locale \<open>method_frame\<close> of
    what every method keeps.
  \<^item> \<open>Fork_Safety\<close>: closing and discarding, and the life cycle of a connection across forks as an
    inductive relation: who closes a connection, and that nothing uses it afterwards. A process is
    known by its id, as in the code.
  \<^item> \<open>Opening\<close>, \<open>Opening_Laws\<close> (\<open>lib/sqlite3/database.rb\<close>): \<open>Database#initialize\<close> with its options and
    the extensions, and the locale \<open>opening_base\<close> of what opening changes. The relation \<open>process\<close> is
    the history of a process that opens Databases, uses them and forks; over it, the hook in a
    child discards what it must. Extensions are switched off again on every path.
    \<open>Opening_Block\<close>: \<open>new\<close> and \<open>open\<close> with a block, after which the connection is closed.
  \<^item> \<open>Process\<close>: the relations \<open>object_step\<close> and \<open>activity\<close>, which hold all that a process may do with
    the objects of the extension, and the locales \<open>object_base\<close> and \<open>activity_base\<close>: what a few laws
    about single updates give, the whole activity keeps.
  \<^item> \<open>Registration\<close>, \<open>Registration_Laws\<close> (\<open>init_sqlite3_*\<close>, \<open>Init_sqlite3_native\<close>): the tables of the
    classes, and the call of a method by its name with any arguments. No call by name hands a NULL
    handle to SQLite, a closed object refuses, and every call is a move of the relations of the
    other theories. So what these say of connections and statements over time is restated over the
    calls by name on a Database (\<open>named_database\<close>) and on a Statement (\<open>named_statement\<close>).
  \<^item> \<open>Fork_Handler\<close> (\<open>lib/sqlite3/fork_safety.rb\<close>): the hook that runs in the child of a fork, and what
    it leaves of the connections and statements that the child inherited.
  \<^item> \<open>Statement\<close>, \<open>Statement_Laws\<close>, \<open>Stepping\<close>, \<open>Binding\<close> (\<open>statement.c\<close>): the methods; what the
    guards refuse, and the locale \<open>statement_frame\<close> of what they keep; \<open>step\<close> as a cursor and as the place where callbacks' exceptions come out; the
    type mapping of \<open>bind_param\<close>, its round trip with \<open>step\<close> on a statement that selects its parameter,
    and the names of parameters.
  \<^item> \<open>Query\<close>, \<open>Query_Laws\<close> (\<open>lib/sqlite3/statement.rb\<close>, \<open>resultset.rb\<close>, \<open>database.rb\<close>): the Ruby
    methods that run a query, composed of the C methods: the parameters go where the caller
    means, all rows come back, the statement is finalized on every path (locale \<open>query_base\<close>: what a
    query keeps). Loops over rows may not end; their
    programs give \<open>None\<close> then, and the theorems that promise a result prove that it is there.
  \<^item> \<open>Statement_Runs\<close>: one statement from its preparation to its end, with hypotheses on the library only
    for the states in which its calls are made (\<open>binds_to\<close>, \<open>steps_to\<close>, \<open>runs_command\<close>): a statement may
    depend on those before it and get another handle each time.
  \<^item> \<open>Transaction\<close>: \<open>transaction\<close>, \<open>commit\<close> and \<open>rollback\<close>: which commands are run around the block, and
    what comes out, with any block.
  \<^item> \<open>Rows\<close>, \<open>First_Value\<close>: rows as hashes, with the names of the columns that a statement reads once
    and keeps; \<open>query\<close> with a block and \<open>get_first_value\<close>.
  \<^item> \<open>Query_End\<close>: a query with finitely many rows ends, whatever SQLite and the callbacks do on the way.
  \<^item> \<open>Batch\<close>: \<open>execute_batch\<close>, whose loop over the statements of a text ends on every text, because
    what SQLite leaves of it becomes shorter; each statement is run and finalized before the next.
  \<^item> \<open>Table_Info\<close> (\<open>lib/sqlite3/pragmas.rb\<close>): \<open>table_info\<close> from the pragma to its hashes, the default
    values it takes apart, and \<open>Database.quote\<close>.
  \<^item> \<open>Statement_Life\<close>: the life cycle of a prepared statement as an inductive relation, and the
    protocol its calls follow.
    An exception can leave \<open>sqlite3_finalize\<close>: an aggregate whose result cannot be converted throws one.
    The object then keeps its handle (\<open>escaped_close_again\<close> in \<open>Statement_Laws\<close>), and what the theorems about
    closing say of this case they say explicitly; none assumes that it does not happen, but for those
    that follow a query through a library whose finalize returns (\<open>finalizes\<close>).
  \<^item> \<open>Backup\<close> (\<open>backup.c\<close>): the methods, the life cycle of a backup and its protocol.
  \<^item> \<open>Gc_Marking\<close>, \<open>Gc_Persistence\<close>, \<open>Gc_Instances\<close> (\<open>database_mark\<close>): what a registration hands to
    SQLite is marked when it returns, and stays marked over everything that a process does with its
    objects; so do the instances of the aggregates in flight.

  \<^bold>\<open>Names.\<close> A definition has the name of the C function; where two files use one name the class
  is in front (\<open>statement_close\<close>, \<open>database_close\<close>, \<open>backup_step\<close>; \<open>step\<close> is the statement's).
  A field of a struct has a letter in front (\<open>d_flags\<close> of \<open>sqlite3Ruby\<close>, \<open>s_done_p\<close> of
  \<open>sqlite3StmtRuby\<close>, \<open>b_p\<close> of \<open>sqlite3BackupRuby\<close>).

  \<^bold>\<open>Bounds.\<close> C's \<open>int\<close> is a 32-bit word, \<open>long\<close> and \<open>sqlite3_int64\<close> are 64-bit words, a Ruby integer
  is an \<open>int\<close> and a fixnum one of 63 bits. The one loop that SQLite's answers control, over the
  schemas of a discarded connection, runs on fuel 128: SQLite has at most 127 schemas, and
  running out is an undefined behaviour of the model, not a result. The loops over the rows of a query
  (\<open>each_row\<close> in \<open>Query\<close>) and over the statements of a batch (\<open>batch_loop\<close>) are partial functions;
  the theories \<open>Query_End\<close> and \<open>Batch\<close> prove that they end. All other loops are recursion over
  lists or have a measure.

  \<^bold>\<open>Texts.\<close> \<open>downcase\<close> folds the letters of ASCII. The transcoding of Ruby, the validity of a text in its
  encoding, the default internal encoding and the \<open>to_s\<close> of an object are parameters. \<open>gsub\<close> and the regular
  expressions of \<open>tweak_default\<close> raise where Ruby refuses the encoding of the text.

  \<^bold>\<open>Not modelled.\<close> User code that a callback runs cannot call back into the extension (a handler that
  closes its own connection, say): it acts on the user's heap only. Non-local exits other than
  exceptions (\<open>throw\<close>, \<open>Thread#kill\<close>), threads, the obsolete taint checks, the release of
  memory (\<open>xfree\<close>, \<open>sqlite3_free\<close>), the \<open>frozen\<close> mark of arrays, and strings of 2 GiB and more,
  whose length does not fit C's \<open>int\<close>. Of the C code, \<open>rb_sqlite3_aggregator_init\<close>, which makes
  two anonymous classes for objects that the model numbers itself, and the prototypes and includes
  of the headers. Of the Ruby layer: the warning of the fork hook; a string as the \<open>bind_vars\<close> of \<open>execute_batch\<close>;
  \<open>strip\<close> for a text that is neither in an ASCII-compatible encoding nor in UTF-16; the shims that
  register functions and aggregates, which wrap the block of the user in blocks and classes of their
  own (the model takes them as values the user defines); the accessors of the pragmas, which each
  execute one text; the tables of constants and of exception classes, which are data.
\<close>

end
